theory Spec2Isabelle
  imports Complex_Main "HOL-Library.Word" "HOL-Library.Signed_Division"
begin

unbundle bit_operations_syntax

section \<open>util/rng.h: the JSF64 generator\<close>

type_synonym u64 = "64 word"
type_synonym u32 = "32 word"

record Jsf64Rng =
  m_a :: u64
  m_b :: u64
  m_c :: u64
  m_d :: u64

text \<open>\<open>nextU64\<close> advances the four state words and returns the new \<open>m_d\<close>.\<close>

definition nextU64 :: "Jsf64Rng \<Rightarrow> u64 \<times> Jsf64Rng" where
  "nextU64 r =
     (let e = m_a r - word_rotl 7 (m_b r);
          a = m_b r XOR word_rotl 13 (m_c r);
          b = m_c r + word_rotl 37 (m_d r);
          c = m_d r + e;
          d = e + a
      in (d, \<lparr>m_a = a, m_b = b, m_c = c, m_d = d\<rparr>))"

definition nextU32 :: "Jsf64Rng \<Rightarrow> u32 \<times> Jsf64Rng" where
  "nextU32 r = (case nextU64 r of (v, r') \<Rightarrow> (ucast (drop_bit 32 v), r'))"

text \<open>The 64-bit product \<open>static_cast<u64>(x) * static_cast<u64>(bound)\<close>.\<close>

definition widemul :: "u32 \<Rightarrow> u32 \<Rightarrow> u64" where
  "widemul x bound = ucast x * ucast bound"

text \<open>The rejection threshold \<open>t\<close> computed from \<open>-bound\<close> inside \<open>nextU32(bound)\<close>.\<close>

definition threshold :: "u32 \<Rightarrow> u32" where
  "threshold bound =
     (let t = - bound
      in if t \<ge> bound
         then (let t1 = t - bound in if t1 \<ge> bound then t1 mod bound else t1)
         else t)"

text \<open>
  The loop \<open>while (l < t) { x = nextU32(); m = x * bound; l = (u32) m; }\<close>. It has no bound
  on its number of iterations, so not returning is the value \<open>None\<close>.
\<close>

partial_function (option) reject_loop ::
  "u32 \<Rightarrow> u32 \<Rightarrow> u64 \<Rightarrow> Jsf64Rng \<Rightarrow> (u64 \<times> Jsf64Rng) option" where
  "reject_loop bound t m r =
     (if (ucast m :: u32) < t
      then (case nextU32 r of (x, r') \<Rightarrow> reject_loop bound t (widemul x bound) r')
      else Some (m, r))"

definition nextU32_bounded :: "u32 \<Rightarrow> Jsf64Rng \<Rightarrow> (u32 \<times> Jsf64Rng) option" where
  "nextU32_bounded bound r =
     (if bound = 0 then Some (0, r)
      else (case nextU32 r of (x, r1) \<Rightarrow>
        (let m = widemul x bound; l = (ucast m :: u32)
         in if l < bound
            then (case reject_loop bound (threshold bound) m r1 of
                    None \<Rightarrow> None
                  | Some (m', r2) \<Rightarrow> Some (ucast (drop_bit 32 m'), r2))
            else Some (ucast (drop_bit 32 m), r1))))"


section \<open>Core types and bitboards\<close>

text \<open>
  Squares are numbered \<open>rank * 8 + file\<close> from a1 = 0 to h8 = 63, with 64 as the sentinel
  \<open>Square::None\<close>. A bitboard is an unsigned 64-bit word with one bit per square. Scores
  are C++ \<open>i32\<close> values; they are modelled as unbounded integers (signed overflow is undefined
  behaviour in the source and none of the scores below comes near the 32-bit range), and the
  C++ integer division, which truncates towards zero, is \<open>sdiv\<close>.
\<close>

type_synonym Bitboard = "64 word"
type_synonym Square = nat
type_synonym Score = int

definition Square_None :: Square where
  "Square_None = 64"

datatype Color = Black | White

datatype BasePiece = Pawn | Knight | Bishop | Rook | Queen | King

datatype Piece = NoPiece | ColorPiece BasePiece Color

fun oppColor :: "Color \<Rightarrow> Color" where
  "oppColor Black = White"
| "oppColor White = Black"

fun basePiece :: "Piece \<Rightarrow> BasePiece option" where
  "basePiece NoPiece = None"
| "basePiece (ColorPiece p c) = Some p"

record TaperedScore =
  midgame :: Score
  endgame :: Score

definition ts_add :: "TaperedScore \<Rightarrow> TaperedScore \<Rightarrow> TaperedScore" where
  "ts_add a b = \<lparr>midgame = midgame a + midgame b, endgame = endgame a + endgame b\<rparr>"

definition ts_sub :: "TaperedScore \<Rightarrow> TaperedScore \<Rightarrow> TaperedScore" where
  "ts_sub a b = \<lparr>midgame = midgame a - midgame b, endgame = endgame a - endgame b\<rparr>"

definition ts_scale :: "TaperedScore \<Rightarrow> nat \<Rightarrow> TaperedScore" where
  "ts_scale a n = \<lparr>midgame = midgame a * int n, endgame = endgame a * int n\<rparr>"

definition ts_zero :: TaperedScore where
  "ts_zero = \<lparr>midgame = 0, endgame = 0\<rparr>"

subsection \<open>Bitboard primitives\<close>

text \<open>
  Modelled from the spec: \<open>bitboard.h\<close> is not among the sources. The spec (4.1) asks for
  \<open>from_square\<close>, \<open>popcount\<close>, \<open>lsb\<close>, \<open>pop_lsb\<close>, the eight one-step shifts, where a shift
  towards the h-file clears the a-file afterwards and a shift towards the a-file clears the
  h-file, and the fills that repeat a shift until nothing changes. \<open>multiple\<close> is "more than
  one bit set". A loop \<open>while (!b.empty()) { sq = b.popLowestSquare(); ... }\<close> visits the set
  squares from the lowest upwards, which is the list \<open>squares b\<close>.
\<close>

definition fromSquare :: "Square \<Rightarrow> Bitboard" where
  "fromSquare sq = push_bit sq 1"

definition squares :: "Bitboard \<Rightarrow> Square list" where
  "squares b = filter (bit b) [0..<64]"

definition popcount :: "Bitboard \<Rightarrow> nat" where
  "popcount b = length (squares b)"

definition multiple :: "Bitboard \<Rightarrow> bool" where
  "multiple b \<longleftrightarrow> 1 < popcount b"

definition lowestSquare :: "Bitboard \<Rightarrow> Square" where
  "lowestSquare b = (case squares b of [] \<Rightarrow> Square_None | sq # _ \<Rightarrow> sq)"

definition FileA :: Bitboard where "FileA = 0x0101010101010101"
definition FileH :: Bitboard where "FileH = 0x8080808080808080"
definition Rank1 :: Bitboard where "Rank1 = 0x00000000000000FF"
definition Rank3 :: Bitboard where "Rank3 = 0x0000000000FF0000"
definition Rank6 :: Bitboard where "Rank6 = 0x0000FF0000000000"
definition Rank8 :: Bitboard where "Rank8 = 0xFF00000000000000"
definition LightSquares :: Bitboard where "LightSquares = 0x55AA55AA55AA55AA"
definition DarkSquares :: Bitboard where "DarkSquares = 0xAA55AA55AA55AA55"

definition shiftUp :: "Bitboard \<Rightarrow> Bitboard" where
  "shiftUp b = push_bit 8 b"

definition shiftDown :: "Bitboard \<Rightarrow> Bitboard" where
  "shiftDown b = drop_bit 8 b"

definition shiftLeft :: "Bitboard \<Rightarrow> Bitboard" where
  "shiftLeft b = drop_bit 1 b AND NOT FileH"

definition shiftRight :: "Bitboard \<Rightarrow> Bitboard" where
  "shiftRight b = push_bit 1 b AND NOT FileA"

definition shiftUpLeft :: "Bitboard \<Rightarrow> Bitboard" where
  "shiftUpLeft b = push_bit 7 b AND NOT FileH"

definition shiftUpRight :: "Bitboard \<Rightarrow> Bitboard" where
  "shiftUpRight b = push_bit 9 b AND NOT FileA"

definition shiftDownLeft :: "Bitboard \<Rightarrow> Bitboard" where
  "shiftDownLeft b = drop_bit 9 b AND NOT FileH"

definition shiftDownRight :: "Bitboard \<Rightarrow> Bitboard" where
  "shiftDownRight b = drop_bit 7 b AND NOT FileA"

text \<open>The shifts relative to a colour: "up" is towards rank 8 for White, towards rank 1 for Black.\<close>

fun shiftUpRelative :: "Color \<Rightarrow> Bitboard \<Rightarrow> Bitboard" where
  "shiftUpRelative White b = shiftUp b"
| "shiftUpRelative Black b = shiftDown b"

fun shiftDownRelative :: "Color \<Rightarrow> Bitboard \<Rightarrow> Bitboard" where
  "shiftDownRelative White b = shiftDown b"
| "shiftDownRelative Black b = shiftUp b"

fun shiftUpLeftRelative :: "Color \<Rightarrow> Bitboard \<Rightarrow> Bitboard" where
  "shiftUpLeftRelative White b = shiftUpLeft b"
| "shiftUpLeftRelative Black b = shiftDownLeft b"

fun shiftUpRightRelative :: "Color \<Rightarrow> Bitboard \<Rightarrow> Bitboard" where
  "shiftUpRightRelative White b = shiftUpRight b"
| "shiftUpRightRelative Black b = shiftDownRight b"

text \<open>The square offsets that go with the relative shifts (\<open>offsets::up<Us>()\<close> and so on).\<close>

fun offset_up :: "Color \<Rightarrow> int" where
  "offset_up White = 8"
| "offset_up Black = - 8"

fun offset_upLeft :: "Color \<Rightarrow> int" where
  "offset_upLeft White = 7"
| "offset_upLeft Black = - 9"

fun offset_upRight :: "Color \<Rightarrow> int" where
  "offset_upRight White = 9"
| "offset_upRight Black = - 7"

definition fillUp :: "Bitboard \<Rightarrow> Bitboard" where
  "fillUp b = (let b1 = b OR push_bit 8 b; b2 = b1 OR push_bit 16 b1 in b2 OR push_bit 32 b2)"

definition fillDown :: "Bitboard \<Rightarrow> Bitboard" where
  "fillDown b = (let b1 = b OR drop_bit 8 b; b2 = b1 OR drop_bit 16 b1 in b2 OR drop_bit 32 b2)"

definition fillFile :: "Bitboard \<Rightarrow> Bitboard" where
  "fillFile b = fillUp b OR fillDown b"

fun fillUpRelative :: "Color \<Rightarrow> Bitboard \<Rightarrow> Bitboard" where
  "fillUpRelative White b = fillUp b"
| "fillUpRelative Black b = fillDown b"

fun fillDownRelative :: "Color \<Rightarrow> Bitboard \<Rightarrow> Bitboard" where
  "fillDownRelative White b = fillDown b"
| "fillDownRelative Black b = fillUp b"

fun promotionRank :: "Color \<Rightarrow> Bitboard" where
  "promotionRank White = Rank8"
| "promotionRank Black = Rank1"

text \<open>\<open>boards::rank<Us>(2)\<close>, the third rank seen from the side \<open>Us\<close>.\<close>

fun thirdRank :: "Color \<Rightarrow> Bitboard" where
  "thirdRank White = Rank3"
| "thirdRank Black = Rank6"

definition squareRank :: "Square \<Rightarrow> nat" where
  "squareRank sq = sq div 8"

definition squareFile :: "Square \<Rightarrow> nat" where
  "squareFile sq = sq mod 8"

definition toSquare :: "nat \<Rightarrow> nat \<Rightarrow> Square" where
  "toSquare rank file = rank * 8 + file"

fun relativeRank :: "Color \<Rightarrow> nat \<Rightarrow> nat" where
  "relativeRank White rank = rank"
| "relativeRank Black rank = 7 - rank"

definition Files :: "nat \<Rightarrow> Bitboard" where
  "Files f = push_bit f FileA"

subsection \<open>position/boards.h\<close>

record PositionBoards =
  m_colors :: "Color \<Rightarrow> Bitboard"
  m_boards :: "BasePiece \<Rightarrow> Bitboard"

definition forColor :: "PositionBoards \<Rightarrow> Color \<Rightarrow> Bitboard" where
  "forColor b c = m_colors b c"

definition forPiece :: "PositionBoards \<Rightarrow> BasePiece \<Rightarrow> Bitboard" where
  "forPiece b p = m_boards b p"

definition forPieceOf :: "PositionBoards \<Rightarrow> BasePiece \<Rightarrow> Color \<Rightarrow> Bitboard" where
  "forPieceOf b p c = m_boards b p AND forColor b c"

definition blackOccupancy :: "PositionBoards \<Rightarrow> Bitboard" where
  "blackOccupancy b = m_colors b Black"

definition whiteOccupancy :: "PositionBoards \<Rightarrow> Bitboard" where
  "whiteOccupancy b = m_colors b White"

definition occupancyOf :: "PositionBoards \<Rightarrow> Color \<Rightarrow> Bitboard" where
  "occupancyOf b c = m_colors b c"

definition occupancy :: "PositionBoards \<Rightarrow> Bitboard" where
  "occupancy b = m_colors b Black OR m_colors b White"

definition pawns :: "PositionBoards \<Rightarrow> Bitboard" where "pawns b = forPiece b Pawn"
definition knights :: "PositionBoards \<Rightarrow> Bitboard" where "knights b = forPiece b Knight"
definition bishops :: "PositionBoards \<Rightarrow> Bitboard" where "bishops b = forPiece b Bishop"
definition rooks :: "PositionBoards \<Rightarrow> Bitboard" where "rooks b = forPiece b Rook"
definition queens :: "PositionBoards \<Rightarrow> Bitboard" where "queens b = forPiece b Queen"
definition kings :: "PositionBoards \<Rightarrow> Bitboard" where "kings b = forPiece b King"

definition blackPawns :: "PositionBoards \<Rightarrow> Bitboard" where "blackPawns b = pawns b AND blackOccupancy b"
definition whitePawns :: "PositionBoards \<Rightarrow> Bitboard" where "whitePawns b = pawns b AND whiteOccupancy b"
definition blackKnights :: "PositionBoards \<Rightarrow> Bitboard" where "blackKnights b = knights b AND blackOccupancy b"
definition whiteKnights :: "PositionBoards \<Rightarrow> Bitboard" where "whiteKnights b = knights b AND whiteOccupancy b"
definition blackBishops :: "PositionBoards \<Rightarrow> Bitboard" where "blackBishops b = bishops b AND blackOccupancy b"
definition whiteBishops :: "PositionBoards \<Rightarrow> Bitboard" where "whiteBishops b = bishops b AND whiteOccupancy b"
definition blackRooks :: "PositionBoards \<Rightarrow> Bitboard" where "blackRooks b = rooks b AND blackOccupancy b"
definition whiteRooks :: "PositionBoards \<Rightarrow> Bitboard" where "whiteRooks b = rooks b AND whiteOccupancy b"
definition blackQueens :: "PositionBoards \<Rightarrow> Bitboard" where "blackQueens b = queens b AND blackOccupancy b"
definition whiteQueens :: "PositionBoards \<Rightarrow> Bitboard" where "whiteQueens b = queens b AND whiteOccupancy b"
definition blackKings :: "PositionBoards \<Rightarrow> Bitboard" where "blackKings b = kings b AND blackOccupancy b"
definition whiteKings :: "PositionBoards \<Rightarrow> Bitboard" where "whiteKings b = kings b AND whiteOccupancy b"

definition minors :: "PositionBoards \<Rightarrow> Bitboard" where "minors b = knights b OR bishops b"
definition blackMinors :: "PositionBoards \<Rightarrow> Bitboard" where "blackMinors b = minors b AND blackOccupancy b"
definition whiteMinors :: "PositionBoards \<Rightarrow> Bitboard" where "whiteMinors b = minors b AND whiteOccupancy b"
definition majors :: "PositionBoards \<Rightarrow> Bitboard" where "majors b = rooks b OR queens b"
definition nonPk :: "PositionBoards \<Rightarrow> Bitboard" where "nonPk b = minors b OR majors b"
definition blackNonPk :: "PositionBoards \<Rightarrow> Bitboard" where "blackNonPk b = nonPk b AND blackOccupancy b"
definition whiteNonPk :: "PositionBoards \<Rightarrow> Bitboard" where "whiteNonPk b = nonPk b AND whiteOccupancy b"

text \<open>The accessors templated on a colour (\<open>pawns<C>()\<close>, \<open>minors<C>()\<close>, ...).\<close>

fun pawnsOf :: "Color \<Rightarrow> PositionBoards \<Rightarrow> Bitboard" where
  "pawnsOf Black b = blackPawns b" | "pawnsOf White b = whitePawns b"
fun knightsOf :: "Color \<Rightarrow> PositionBoards \<Rightarrow> Bitboard" where
  "knightsOf Black b = blackKnights b" | "knightsOf White b = whiteKnights b"
fun bishopsOf :: "Color \<Rightarrow> PositionBoards \<Rightarrow> Bitboard" where
  "bishopsOf Black b = blackBishops b" | "bishopsOf White b = whiteBishops b"
fun rooksOf :: "Color \<Rightarrow> PositionBoards \<Rightarrow> Bitboard" where
  "rooksOf Black b = blackRooks b" | "rooksOf White b = whiteRooks b"
fun queensOf :: "Color \<Rightarrow> PositionBoards \<Rightarrow> Bitboard" where
  "queensOf Black b = blackQueens b" | "queensOf White b = whiteQueens b"
fun kingsOf :: "Color \<Rightarrow> PositionBoards \<Rightarrow> Bitboard" where
  "kingsOf Black b = blackKings b" | "kingsOf White b = whiteKings b"
fun minorsOf :: "Color \<Rightarrow> PositionBoards \<Rightarrow> Bitboard" where
  "minorsOf Black b = blackMinors b" | "minorsOf White b = whiteMinors b"
fun nonPkOf :: "Color \<Rightarrow> PositionBoards \<Rightarrow> Bitboard" where
  "nonPkOf Black b = blackNonPk b" | "nonPkOf White b = whiteNonPk b"

text \<open>
  \<open>pieceAt\<close>: the colour is looked up first (black before white), then the piece boards in
  the order pawn to king. A square set in a colour board and in no piece board ends in
  \<open>assert(false)\<close>; that outcome is \<open>None\<close>.
\<close>

definition pieceAt :: "PositionBoards \<Rightarrow> Square \<Rightarrow> Piece option" where
  "pieceAt b sq =
     (let bit = fromSquare sq in
      if blackOccupancy b AND bit = 0 \<and> whiteOccupancy b AND bit = 0 then Some NoPiece
      else (let color = (if blackOccupancy b AND bit \<noteq> 0 then Black else White) in
        case filter (\<lambda>p. forPiece b p AND bit \<noteq> 0) [Pawn, Knight, Bishop, Rook, Queen, King] of
          [] \<Rightarrow> None
        | p # _ \<Rightarrow> Some (ColorPiece p color)))"

section \<open>Moves and positions (move.h, position/position.h)\<close>

text \<open>
  Modelled from the spec: \<open>move.h\<close> is not among the sources. A move packs a source square, a
  destination square, a two-bit type and a two-bit promotion target into 16 bits, and
  \<open>NullMove\<close> is the all-zero value; the model keeps the four fields apart. The promotion
  target index counts knight, bishop, rook, queen from 0, the order of the table
  \<open>PromoScores\<close> in \<open>movegen.h\<close>.
\<close>

datatype MoveType = Standard | Promotion | Castling | EnPassant

record Move =
  src :: Square
  dst :: Square
  targetIdx :: nat
  mtype :: MoveType

definition NullMove :: Move where
  "NullMove = \<lparr>src = 0, dst = 0, targetIdx = 0, mtype = Standard\<rparr>"

text \<open>The conversion of a move to \<open>bool\<close>: true for every move but \<open>NullMove\<close>.\<close>

definition move_ok :: "Move \<Rightarrow> bool" where
  "move_ok m \<longleftrightarrow> m \<noteq> NullMove"

definition Move_standard :: "Square \<Rightarrow> Square \<Rightarrow> Move" where
  "Move_standard s d = \<lparr>src = s, dst = d, targetIdx = 0, mtype = Standard\<rparr>"

fun promoIdx :: "BasePiece \<Rightarrow> nat" where
  "promoIdx Knight = 0"
| "promoIdx Bishop = 1"
| "promoIdx Rook = 2"
| "promoIdx Queen = 3"
| "promoIdx Pawn = 0"
| "promoIdx King = 0"

definition Move_promotion :: "Square \<Rightarrow> Square \<Rightarrow> BasePiece \<Rightarrow> Move" where
  "Move_promotion s d t = \<lparr>src = s, dst = d, targetIdx = promoIdx t, mtype = Promotion\<rparr>"

definition Move_castling :: "Square \<Rightarrow> Square \<Rightarrow> Move" where
  "Move_castling s d = \<lparr>src = s, dst = d, targetIdx = 0, mtype = Castling\<rparr>"

definition Move_enPassant :: "Square \<Rightarrow> Square \<Rightarrow> Move" where
  "Move_enPassant s d = \<lparr>src = s, dst = d, targetIdx = 0, mtype = EnPassant\<rparr>"

record CastlingRooks =
  blackShort :: Square
  blackLong :: Square
  whiteShort :: Square
  whiteLong :: Square

record BoardState =
  s_boards :: PositionBoards
  s_key :: u64
  s_pawnKey :: u64
  s_material :: TaperedScore
  s_checkers :: Bitboard
  s_phase :: Score
  s_castlingRooks :: CastlingRooks
  s_lastMove :: Move
  s_halfmove :: nat
  s_captured :: Piece
  s_enPassant :: Square
  s_kings :: "Color \<Rightarrow> Square"

text \<open>
  A position owns the stack of board states and the list \<open>m_hashes\<close> of keys used by the
  repetition scan. Every accessor reads \<open>m_states.back()\<close>.
\<close>

record Position =
  m_blackToMove :: bool
  m_fullmove :: nat
  m_states :: "BoardState list"
  m_hashes :: "u64 list"

definition currState :: "Position \<Rightarrow> BoardState" where
  "currState pos = last (m_states pos)"

definition boards :: "Position \<Rightarrow> PositionBoards" where
  "boards pos = s_boards (currState pos)"

definition toMove :: "Position \<Rightarrow> Color" where
  "toMove pos = (if m_blackToMove pos then Black else White)"

definition opponent :: "Position \<Rightarrow> Color" where
  "opponent pos = (if m_blackToMove pos then White else Black)"

definition castlingRooks :: "Position \<Rightarrow> CastlingRooks" where
  "castlingRooks pos = s_castlingRooks (currState pos)"

definition enPassant :: "Position \<Rightarrow> Square" where
  "enPassant pos = s_enPassant (currState pos)"

definition material :: "Position \<Rightarrow> TaperedScore" where
  "material pos = s_material (currState pos)"

definition halfmove :: "Position \<Rightarrow> nat" where
  "halfmove pos = s_halfmove (currState pos)"

definition key :: "Position \<Rightarrow> u64" where
  "key pos = s_key (currState pos)"

definition pawnKey :: "Position \<Rightarrow> u64" where
  "pawnKey pos = s_pawnKey (currState pos)"

definition king :: "Position \<Rightarrow> Color \<Rightarrow> Square" where
  "king pos c = s_kings (currState pos) c"

definition blackKing :: "Position \<Rightarrow> Square" where
  "blackKing pos = s_kings (currState pos) Black"

definition whiteKing :: "Position \<Rightarrow> Square" where
  "whiteKing pos = s_kings (currState pos) White"

definition checkers :: "Position \<Rightarrow> Bitboard" where
  "checkers pos = s_checkers (currState pos)"

definition isCheck :: "Position \<Rightarrow> bool" where
  "isCheck pos \<longleftrightarrow> checkers pos \<noteq> 0"

definition interpScore :: "Position \<Rightarrow> TaperedScore \<Rightarrow> Score" where
  "interpScore pos score =
     (midgame score * s_phase (currState pos) + endgame score * (24 - s_phase (currState pos))) sdiv 24"

text \<open>
  The repetition scan of \<open>isDrawn\<close> walks \<open>m_hashes\<close> from the last entry to the first and
  counts \<open>repetitionsLeft\<close> down at every entry equal to the current key; the list argument
  here is in visiting order.
\<close>

fun scanHashes :: "u64 list \<Rightarrow> u64 \<Rightarrow> int \<Rightarrow> bool" where
  "scanHashes [] currKey repetitionsLeft = False"
| "scanHashes (h # hs) currKey repetitionsLeft =
     (if h = currKey
      then (if repetitionsLeft - 1 = 0 then True else scanHashes hs currKey (repetitionsLeft - 1))
      else scanHashes hs currKey repetitionsLeft)"

definition isDrawn :: "Position \<Rightarrow> bool \<Rightarrow> bool" where
  "isDrawn pos threefold =
     (if halfmove pos \<ge> 100 then True
      else if scanHashes (rev (m_hashes pos)) (key pos) (if threefold then 2 else 1) then True
      else (let b = boards pos in
        if pawns b \<noteq> 0 \<or> majors b \<noteq> 0 then False
        else if nonPk b = 0 then True
        else if (blackNonPk b = 0 \<and> whiteNonPk b = whiteMinors b \<and> \<not> multiple (whiteMinors b))
              \<or> (whiteNonPk b = 0 \<and> blackNonPk b = blackMinors b \<and> \<not> multiple (blackMinors b))
        then True
        else if (blackNonPk b = blackBishops b \<and> whiteNonPk b = whiteBishops b)
              \<and> \<not> multiple (blackBishops b) \<and> \<not> multiple (whiteBishops b)
              \<and> (blackBishops b AND LightSquares = 0) \<noteq> (whiteBishops b AND LightSquares = 0)
        then True
        else False))"

definition isLikelyDrawn :: "Position \<Rightarrow> bool" where
  "isLikelyDrawn pos =
     (let b = boards pos in
      if pawns b \<noteq> 0 \<or> majors b \<noteq> 0 then False
      else if (blackNonPk b = 0 \<and> whiteNonPk b = whiteKnights b \<and> popcount (whiteKnights b) < 3)
            \<or> (whiteNonPk b = 0 \<and> blackNonPk b = blackKnights b \<and> popcount (blackKnights b) < 3)
      then True
      else if nonPk b \<noteq> 0 \<and> \<not> multiple (whiteMinors b) \<and> \<not> multiple (blackMinors b) then True
      else if nonPk b \<noteq> 0 \<and> nonPk b = bishops b
            \<and> (popcount (whiteBishops b) < 3 \<and> \<not> multiple (blackBishops b)
               \<or> popcount (blackBishops b) < 3 \<and> \<not> multiple (whiteBishops b))
      then True
      else False)"

subsection \<open>What the repetition and material clauses of the spec say\<close>

text \<open>
  \<open>m_hashes\<close> holds the keys of the positions that came before the current one, so the
  number of times the current key has occurred, the current position included, is one more
  than its count in \<open>m_hashes\<close>.
\<close>

definition keyOccurrences :: "Position \<Rightarrow> nat" where
  "keyOccurrences pos = count_list (m_hashes pos) (key pos) + 1"

text \<open>The number of pieces of one kind and colour on the board.\<close>

definition pieceCount :: "PositionBoards \<Rightarrow> BasePiece \<Rightarrow> Color \<Rightarrow> nat" where
  "pieceCount b p c = popcount (forPieceOf b p c)"

definition minorCount :: "PositionBoards \<Rightarrow> Color \<Rightarrow> nat" where
  "minorCount b c = pieceCount b Knight c + pieceCount b Bishop c"

text \<open>No pawns, rooks or queens of either colour: only kings and minor pieces remain.\<close>

definition onlyMinors :: "PositionBoards \<Rightarrow> bool" where
  "onlyMinors b \<longleftrightarrow>
     (\<forall>c \<in> {Black, White}. pieceCount b Pawn c = 0 \<and> pieceCount b Rook c = 0 \<and> pieceCount b Queen c = 0)"

text \<open>A square is light when rank and file index have an odd sum (a1 is dark).\<close>

definition lightSquare :: "Square \<Rightarrow> bool" where
  "lightSquare sq \<longleftrightarrow> odd (squareRank sq + squareFile sq)"

definition material_KK :: "PositionBoards \<Rightarrow> bool" where
  "material_KK b \<longleftrightarrow> onlyMinors b \<and> minorCount b Black = 0 \<and> minorCount b White = 0"

definition material_KminorK :: "PositionBoards \<Rightarrow> bool" where
  "material_KminorK b \<longleftrightarrow> onlyMinors b \<and>
     (minorCount b Black = 0 \<and> minorCount b White = 1 \<or> minorCount b White = 0 \<and> minorCount b Black = 1)"

definition material_KBKB_opposite :: "PositionBoards \<Rightarrow> bool" where
  "material_KBKB_opposite b \<longleftrightarrow> onlyMinors b \<and>
     pieceCount b Knight Black = 0 \<and> pieceCount b Knight White = 0 \<and>
     pieceCount b Bishop Black = 1 \<and> pieceCount b Bishop White = 1 \<and>
     lightSquare (lowestSquare (forPieceOf b Bishop Black)) \<noteq> lightSquare (lowestSquare (forPieceOf b Bishop White))"

definition insufficientMaterial :: "PositionBoards \<Rightarrow> bool" where
  "insufficientMaterial b \<longleftrightarrow> material_KK b \<or> material_KminorK b \<or> material_KBKB_opposite b"

text \<open>
  The invariants of \<open>PositionBoards\<close> (spec, section 3): the two colour boards are disjoint,
  the six piece boards are pairwise disjoint, and a square is occupied by a colour exactly
  when it is occupied by a piece.
\<close>

definition boards_wf :: "PositionBoards \<Rightarrow> bool" where
  "boards_wf b \<longleftrightarrow>
     m_colors b Black AND m_colors b White = 0 \<and>
     (\<forall>p \<in> {Pawn, Knight, Bishop, Rook, Queen, King}. \<forall>q \<in> {Pawn, Knight, Bishop, Rook, Queen, King}.
        p \<noteq> q \<longrightarrow> m_boards b p AND m_boards b q = 0) \<and>
     m_colors b Black OR m_colors b White =
       m_boards b Pawn OR m_boards b Knight OR m_boards b Bishop OR m_boards b Rook
         OR m_boards b Queen OR m_boards b King"

section \<open>Attack sets and rays (attacks/attacks.h, rays.h)\<close>

text \<open>
  Modelled from the spec: the attack tables and the ray table are not among the sources. The
  spec (4.1) describes them by what they hold: the knight, king and pawn attacks of a square,
  the slider attacks of a square under an occupancy (a ray runs up to and including its first
  blocker), and \<open>ray_between(a, b)\<close>, the squares strictly between two squares that share a
  rank, file or diagonal, and the empty board otherwise. They are computed here with the
  one-step shifts.
\<close>

definition KingAttacks :: "Square \<Rightarrow> Bitboard" where
  "KingAttacks sq =
     (let b = fromSquare sq in
      shiftUp b OR shiftDown b OR shiftLeft b OR shiftRight b
        OR shiftUpLeft b OR shiftUpRight b OR shiftDownLeft b OR shiftDownRight b)"

definition KnightAttacks :: "Square \<Rightarrow> Bitboard" where
  "KnightAttacks sq =
     (let b = fromSquare sq in
      shiftUp (shiftUpLeft b) OR shiftUp (shiftUpRight b)
        OR shiftLeft (shiftUpLeft b) OR shiftRight (shiftUpRight b)
        OR shiftDown (shiftDownLeft b) OR shiftDown (shiftDownRight b)
        OR shiftLeft (shiftDownLeft b) OR shiftRight (shiftDownRight b))"

text \<open>\<open>getPawnAttacks(sq, c)\<close>: the squares a pawn of colour \<open>c\<close> on \<open>sq\<close> attacks.\<close>

definition getPawnAttacks :: "Square \<Rightarrow> Color \<Rightarrow> Bitboard" where
  "getPawnAttacks sq c =
     (let b = fromSquare sq in shiftUpLeftRelative c b OR shiftUpRightRelative c b)"

text \<open>One ray: step from \<open>b\<close> at most \<open>n\<close> times, stopping on the first occupied square.\<close>

fun slide :: "(Bitboard \<Rightarrow> Bitboard) \<Rightarrow> Bitboard \<Rightarrow> Bitboard \<Rightarrow> nat \<Rightarrow> Bitboard" where
  "slide step occ b 0 = 0"
| "slide step occ b (Suc n) =
     (let s = step b in
      if s = 0 then 0
      else if s AND occ \<noteq> 0 then s
      else s OR slide step occ s n)"

definition getRookAttacks :: "Square \<Rightarrow> Bitboard \<Rightarrow> Bitboard" where
  "getRookAttacks sq occ =
     (let b = fromSquare sq in
      slide shiftUp occ b 7 OR slide shiftDown occ b 7
        OR slide shiftLeft occ b 7 OR slide shiftRight occ b 7)"

definition getBishopAttacks :: "Square \<Rightarrow> Bitboard \<Rightarrow> Bitboard" where
  "getBishopAttacks sq occ =
     (let b = fromSquare sq in
      slide shiftUpLeft occ b 7 OR slide shiftUpRight occ b 7
        OR slide shiftDownLeft occ b 7 OR slide shiftDownRight occ b 7)"

definition getQueenAttacks :: "Square \<Rightarrow> Bitboard \<Rightarrow> Bitboard" where
  "getQueenAttacks sq occ = getRookAttacks sq occ OR getBishopAttacks sq occ"

text \<open>The part of one ray from \<open>a\<close> that lies before \<open>b\<close>, when the ray reaches \<open>b\<close>.\<close>

definition rayTowards :: "(Bitboard \<Rightarrow> Bitboard) \<Rightarrow> Square \<Rightarrow> Square \<Rightarrow> Bitboard" where
  "rayTowards step a b =
     (let r = slide step (fromSquare b) (fromSquare a) 7 in
      if r AND fromSquare b \<noteq> 0 then r AND NOT (fromSquare b) else 0)"

definition rayBetween :: "Square \<Rightarrow> Square \<Rightarrow> Bitboard" where
  "rayBetween a b =
     rayTowards shiftUp a b OR rayTowards shiftDown a b
       OR rayTowards shiftLeft a b OR rayTowards shiftRight a b
       OR rayTowards shiftUpLeft a b OR rayTowards shiftUpRight a b
       OR rayTowards shiftDownLeft a b OR rayTowards shiftDownRight a b"

subsection \<open>Attack queries of \<open>Position\<close>\<close>

definition attackersTo :: "Position \<Rightarrow> Square \<Rightarrow> Color \<Rightarrow> Bitboard" where
  "attackersTo pos square attacker =
     (let b = boards pos;
          occ = occupancy b;
          queens = forPieceOf b Queen attacker;
          rooks = queens OR forPieceOf b Rook attacker;
          bishops = queens OR forPieceOf b Bishop attacker;
          pawns = forPieceOf b Pawn attacker;
          knights = forPieceOf b Knight attacker;
          kings = forPieceOf b King attacker
      in (rooks AND getRookAttacks square occ)
           OR (bishops AND getBishopAttacks square occ)
           OR (pawns AND getPawnAttacks square (oppColor attacker))
           OR (knights AND KnightAttacks square)
           OR (kings AND KingAttacks square))"

definition isAttacked :: "Position \<Rightarrow> Square \<Rightarrow> Color \<Rightarrow> bool" where
  "isAttacked pos square attacker =
     (let b = boards pos; occ = occupancy b in
      if forPieceOf b Knight attacker AND KnightAttacks square \<noteq> 0 then True
      else if forPieceOf b Pawn attacker AND getPawnAttacks square (oppColor attacker) \<noteq> 0 then True
      else if forPieceOf b King attacker AND KingAttacks square \<noteq> 0 then True
      else (let queens = forPieceOf b Queen attacker in
        if (queens OR forPieceOf b Bishop attacker) AND getBishopAttacks square occ \<noteq> 0 then True
        else if (queens OR forPieceOf b Rook attacker) AND getRookAttacks square occ \<noteq> 0 then True
        else False))"

definition anyAttacked :: "Position \<Rightarrow> Bitboard \<Rightarrow> Color \<Rightarrow> bool" where
  "anyAttacked pos sqs attacker = list_ex (\<lambda>square. isAttacked pos square attacker) (squares sqs)"

definition calcCheckers :: "Position \<Rightarrow> Bitboard" where
  "calcCheckers pos = attackersTo pos (king pos (toMove pos)) (oppColor (toMove pos))"

section \<open>Move generation (movegen.cpp)\<close>

record ScoredMove =
  move :: Move
  score :: Score

type_synonym ScoredMoveList = "ScoredMove list"

text \<open>
  The process-wide options \<open>g_opts\<close> are declared in \<open>opts.h\<close>, which is not among the
  sources; the two flags the generators read are passed in.
\<close>

record GlobalOptions =
  chess960 :: bool
  underpromotions :: bool

text \<open>
  Each \<open>push...\<close> helper appends one move per set square of \<open>board\<close>, lowest square first.
  With an offset the source square is the destination minus the offset.
\<close>

definition srcOf :: "Square \<Rightarrow> int \<Rightarrow> Square" where
  "srcOf dstSquare offset = nat (int dstSquare - offset)"

definition pushStandardsOff :: "ScoredMoveList \<Rightarrow> int \<Rightarrow> Bitboard \<Rightarrow> ScoredMoveList" where
  "pushStandardsOff ms offset board =
     ms @ map (\<lambda>d. \<lparr>move = Move_standard (srcOf d offset) d, score = 0\<rparr>) (squares board)"

definition pushStandards :: "ScoredMoveList \<Rightarrow> Square \<Rightarrow> Bitboard \<Rightarrow> ScoredMoveList" where
  "pushStandards ms srcSquare board =
     ms @ map (\<lambda>d. \<lparr>move = Move_standard srcSquare d, score = 0\<rparr>) (squares board)"

definition pushQueenPromotions :: "ScoredMoveList \<Rightarrow> int \<Rightarrow> Bitboard \<Rightarrow> ScoredMoveList" where
  "pushQueenPromotions noisy offset board =
     noisy @ map (\<lambda>d. \<lparr>move = Move_promotion (srcOf d offset) d Queen, score = 0\<rparr>) (squares board)"

definition pushUnderpromotions ::
  "GlobalOptions \<Rightarrow> ScoredMoveList \<Rightarrow> int \<Rightarrow> Bitboard \<Rightarrow> ScoredMoveList" where
  "pushUnderpromotions opts quiet offset board =
     quiet @ concat (map (\<lambda>d.
        \<lparr>move = Move_promotion (srcOf d offset) d Knight, score = 0\<rparr>
        # (if underpromotions opts
           then [\<lparr>move = Move_promotion (srcOf d offset) d Rook, score = 0\<rparr>,
                 \<lparr>move = Move_promotion (srcOf d offset) d Bishop, score = 0\<rparr>]
           else [])) (squares board))"

definition pushCastling :: "ScoredMoveList \<Rightarrow> Square \<Rightarrow> Square \<Rightarrow> ScoredMoveList" where
  "pushCastling ms srcSquare dstSquare = ms @ [\<lparr>move = Move_castling srcSquare dstSquare, score = 0\<rparr>]"

definition pushEnPassants :: "ScoredMoveList \<Rightarrow> int \<Rightarrow> Bitboard \<Rightarrow> ScoredMoveList" where
  "pushEnPassants noisy offset board =
     noisy @ map (\<lambda>d. \<lparr>move = Move_enPassant (srcOf d offset) d, score = 0\<rparr>) (squares board)"

definition generatePawnsNoisyFor ::
  "Color \<Rightarrow> ScoredMoveList \<Rightarrow> Position \<Rightarrow> Bitboard \<Rightarrow> ScoredMoveList" where
  "generatePawnsNoisyFor us noisy pos dstMask =
     (let them = oppColor us;
          PromotionRank = promotionRank us;
          ForwardOffset = offset_up us;
          LeftOffset = offset_upLeft us;
          RightOffset = offset_upRight us;
          b = boards pos;
          theirs = occupancyOf b them;
          forwardDstMask = dstMask AND PromotionRank AND NOT theirs;
          pawns = pawnsOf us b;
          leftAttacks = shiftUpLeftRelative us pawns AND dstMask;
          rightAttacks = shiftUpRightRelative us pawns AND dstMask;
          n1 = pushQueenPromotions noisy LeftOffset (leftAttacks AND theirs AND PromotionRank);
          n2 = pushQueenPromotions n1 RightOffset (rightAttacks AND theirs AND PromotionRank);
          forwards = shiftUpRelative us pawns AND forwardDstMask;
          n3 = pushQueenPromotions n2 ForwardOffset forwards;
          n4 = pushStandardsOff n3 LeftOffset (leftAttacks AND theirs AND NOT PromotionRank);
          n5 = pushStandardsOff n4 RightOffset (rightAttacks AND theirs AND NOT PromotionRank)
      in if enPassant pos \<noteq> Square_None
         then (let epMask = fromSquare (enPassant pos);
                   n6 = pushEnPassants n5 LeftOffset (leftAttacks AND epMask)
               in pushEnPassants n6 RightOffset (rightAttacks AND epMask))
         else n5)"

definition generatePawnsNoisy :: "ScoredMoveList \<Rightarrow> Position \<Rightarrow> Bitboard \<Rightarrow> ScoredMoveList" where
  "generatePawnsNoisy noisy pos dstMask =
     (if toMove pos = Black then generatePawnsNoisyFor Black noisy pos dstMask
      else generatePawnsNoisyFor White noisy pos dstMask)"

definition generatePawnsQuietFor ::
  "GlobalOptions \<Rightarrow> Color \<Rightarrow> ScoredMoveList \<Rightarrow> PositionBoards \<Rightarrow> Bitboard \<Rightarrow> Bitboard \<Rightarrow> ScoredMoveList" where
  "generatePawnsQuietFor opts us quiet b dstMask occ =
     (let them = oppColor us;
          PromotionRank = promotionRank us;
          ThirdRank = thirdRank us;
          ForwardOffset = offset_up us;
          DoubleOffset = ForwardOffset * 2;
          LeftOffset = offset_upLeft us;
          RightOffset = offset_upRight us;
          theirs = occupancyOf b them;
          forwardDstMask = dstMask AND NOT theirs;
          pawns = pawnsOf us b;
          leftAttacks = shiftUpLeftRelative us pawns AND dstMask;
          rightAttacks = shiftUpRightRelative us pawns AND dstMask;
          q1 = pushUnderpromotions opts quiet LeftOffset (leftAttacks AND theirs AND PromotionRank);
          q2 = pushUnderpromotions opts q1 RightOffset (rightAttacks AND theirs AND PromotionRank);
          forwards = shiftUpRelative us pawns AND NOT occ;
          singles = forwards AND forwardDstMask;
          q3 = pushUnderpromotions opts q2 ForwardOffset (singles AND PromotionRank);
          singles' = singles AND NOT PromotionRank;
          forwards' = forwards AND ThirdRank;
          doubles = shiftUpRelative us forwards' AND forwardDstMask;
          q4 = pushStandardsOff q3 DoubleOffset doubles
      in pushStandardsOff q4 ForwardOffset singles')"

definition generatePawnsQuiet ::
  "GlobalOptions \<Rightarrow> ScoredMoveList \<Rightarrow> Position \<Rightarrow> Bitboard \<Rightarrow> Bitboard \<Rightarrow> ScoredMoveList" where
  "generatePawnsQuiet opts quiet pos dstMask occ =
     (if toMove pos = Black then generatePawnsQuietFor opts Black quiet (boards pos) dstMask occ
      else generatePawnsQuietFor opts White quiet (boards pos) dstMask occ)"

text \<open>
  \<open>precalculated<Piece, Attacks>\<close>: for every piece of the kind and of the side to move,
  lowest square first, the standard moves to its attacked squares inside \<open>dstMask\<close>.
\<close>

definition precalculated ::
  "BasePiece \<Rightarrow> (Square \<Rightarrow> Bitboard) \<Rightarrow> ScoredMoveList \<Rightarrow> Position \<Rightarrow> Bitboard \<Rightarrow> ScoredMoveList" where
  "precalculated piece attacks ms pos dstMask =
     foldl (\<lambda>acc srcSquare. pushStandards acc srcSquare (attacks srcSquare AND dstMask)) ms
       (squares (forPieceOf (boards pos) piece (toMove pos)))"

definition generateKnights :: "ScoredMoveList \<Rightarrow> Position \<Rightarrow> Bitboard \<Rightarrow> ScoredMoveList" where
  "generateKnights ms pos dstMask = precalculated Knight KnightAttacks ms pos dstMask"

definition squareBit :: "Square \<Rightarrow> Bitboard" where
  "squareBit sq = push_bit sq 1"

definition generateFrcCastling ::
  "ScoredMoveList \<Rightarrow> Position \<Rightarrow> Bitboard \<Rightarrow> Square \<Rightarrow> Square \<Rightarrow> Square \<Rightarrow> Square \<Rightarrow> ScoredMoveList" where
  "generateFrcCastling ms pos occ0 kingSq kingDst rookSq rookDst =
     (let toKingDst = rayBetween kingSq kingDst;
          toRook = rayBetween kingSq rookSq;
          occ = occ0 XOR squareBit kingSq XOR squareBit rookSq
      in if occ AND (toKingDst OR toRook OR squareBit kingDst OR squareBit rookDst) = 0
            \<and> \<not> anyAttacked pos (toKingDst OR squareBit kingDst) (opponent pos)
         then pushCastling ms kingSq rookSq
         else ms)"

text \<open>The squares named in the castling code.\<close>

definition sq_A1 :: Square where "sq_A1 = 0"
definition sq_C1 :: Square where "sq_C1 = 2"
definition sq_D1 :: Square where "sq_D1 = 3"
definition sq_F1 :: Square where "sq_F1 = 5"
definition sq_G1 :: Square where "sq_G1 = 6"
definition sq_H1 :: Square where "sq_H1 = 7"
definition sq_A8 :: Square where "sq_A8 = 56"
definition sq_C8 :: Square where "sq_C8 = 58"
definition sq_D8 :: Square where "sq_D8 = 59"
definition sq_F8 :: Square where "sq_F8 = 61"
definition sq_G8 :: Square where "sq_G8 = 62"
definition sq_H8 :: Square where "sq_H8 = 63"

definition generateCastling :: "GlobalOptions \<Rightarrow> ScoredMoveList \<Rightarrow> Position \<Rightarrow> ScoredMoveList" where
  "generateCastling opts ms pos =
     (if \<not> isCheck pos
      then (let cr = castlingRooks pos; occ = occupancy (boards pos) in
        if chess960 opts
        then (if toMove pos = Black
              then (let m1 = (if blackShort cr \<noteq> Square_None
                              then generateFrcCastling ms pos occ (blackKing pos) sq_G8 (blackShort cr) sq_F8
                              else ms)
                    in if blackLong cr \<noteq> Square_None
                       then generateFrcCastling m1 pos occ (blackKing pos) sq_C8 (blackLong cr) sq_D8
                       else m1)
              else (let m1 = (if whiteShort cr \<noteq> Square_None
                              then generateFrcCastling ms pos occ (whiteKing pos) sq_G1 (whiteShort cr) sq_F1
                              else ms)
                    in if whiteLong cr \<noteq> Square_None
                       then generateFrcCastling m1 pos occ (whiteKing pos) sq_C1 (whiteLong cr) sq_D1
                       else m1))
        else (if toMove pos = Black
              then (let m1 = (if blackShort cr \<noteq> Square_None
                                 \<and> occ AND 0x6000000000000000 = 0
                                 \<and> \<not> isAttacked pos sq_F8 White
                              then pushCastling ms (blackKing pos) sq_H8 else ms)
                    in if blackLong cr \<noteq> Square_None
                          \<and> occ AND 0x0E00000000000000 = 0
                          \<and> \<not> isAttacked pos sq_D8 White
                       then pushCastling m1 (blackKing pos) sq_A8 else m1)
              else (let m1 = (if whiteShort cr \<noteq> Square_None
                                 \<and> occ AND 0x0000000000000060 = 0
                                 \<and> \<not> isAttacked pos sq_F1 Black
                              then pushCastling ms (whiteKing pos) sq_H1 else ms)
                    in if whiteLong cr \<noteq> Square_None
                          \<and> occ AND 0x000000000000000E = 0
                          \<and> \<not> isAttacked pos sq_D1 Black
                       then pushCastling m1 (whiteKing pos) sq_A1 else m1)))
      else ms)"

text \<open>\<open>generateKings<Castling>\<close>: the king steps, then the castling moves when asked for.\<close>

definition generateKings ::
  "bool \<Rightarrow> GlobalOptions \<Rightarrow> ScoredMoveList \<Rightarrow> Position \<Rightarrow> Bitboard \<Rightarrow> ScoredMoveList" where
  "generateKings withCastling opts ms pos dstMask =
     (let m1 = precalculated King KingAttacks ms pos dstMask in
      if withCastling then generateCastling opts m1 pos else m1)"

definition generateSliders :: "ScoredMoveList \<Rightarrow> Position \<Rightarrow> Bitboard \<Rightarrow> ScoredMoveList" where
  "generateSliders ms pos dstMask =
     (let b = boards pos;
          us = toMove pos;
          them = oppColor us;
          ours = forColor b us;
          theirs = forColor b them;
          occupancy = ours OR theirs;
          queens = forPieceOf b Queen us;
          rooks = queens OR forPieceOf b Rook us;
          bishops = queens OR forPieceOf b Bishop us;
          m1 = foldl (\<lambda>acc s. pushStandards acc s (getRookAttacks s occupancy AND dstMask)) ms (squares rooks)
      in foldl (\<lambda>acc s. pushStandards acc s (getBishopAttacks s occupancy AND dstMask)) m1 (squares bishops))"

definition generateNoisy :: "GlobalOptions \<Rightarrow> ScoredMoveList \<Rightarrow> Position \<Rightarrow> ScoredMoveList" where
  "generateNoisy opts noisy pos =
     (let b = boards pos;
          us = toMove pos;
          them = oppColor us;
          ours = forColor b us;
          kingDstMask = forColor b them;
          epMask = (if enPassant pos \<noteq> Square_None then fromSquare (enPassant pos) else 0);
          epPawn = (if enPassant pos \<noteq> Square_None
                    then (if us = Black then shiftUp epMask else shiftDown epMask) else 0);
          promos = NOT ours AND (if us = Black then Rank1 else Rank8)
      in if isCheck pos
         then (if multiple (checkers pos)
               then generateKings False opts noisy pos kingDstMask
               else (let dstMask = checkers pos;
                         pawnDstMask0 = kingDstMask
                           OR (promos AND rayBetween (king pos us) (lowestSquare (checkers pos)));
                         pawnDstMask = (if checkers pos AND epPawn \<noteq> 0
                                        then pawnDstMask0 OR epMask else pawnDstMask0);
                         n1 = generateSliders noisy pos dstMask;
                         n2 = generatePawnsNoisy n1 pos pawnDstMask;
                         n3 = generateKnights n2 pos dstMask
                     in generateKings False opts n3 pos kingDstMask))
         else (let dstMask = kingDstMask;
                   pawnDstMask = kingDstMask OR epMask OR promos;
                   n1 = generateSliders noisy pos dstMask;
                   n2 = generatePawnsNoisy n1 pos pawnDstMask;
                   n3 = generateKnights n2 pos dstMask
               in generateKings False opts n3 pos kingDstMask))"

definition generateQuiet :: "GlobalOptions \<Rightarrow> ScoredMoveList \<Rightarrow> Position \<Rightarrow> ScoredMoveList" where
  "generateQuiet opts quiet pos =
     (let b = boards pos;
          us = toMove pos;
          them = oppColor us;
          ours = forColor b us;
          theirs = forColor b them;
          kingDstMask = NOT (ours OR theirs)
      in if isCheck pos
         then (if multiple (checkers pos)
               then generateKings False opts quiet pos kingDstMask
               else (let dstMask = rayBetween (king pos us) (lowestSquare (checkers pos));
                         pawnDstMask = dstMask OR (checkers pos AND promotionRank us);
                         q1 = generateSliders quiet pos dstMask;
                         q2 = generatePawnsQuiet opts q1 pos pawnDstMask (ours OR theirs);
                         q3 = generateKnights q2 pos dstMask
                     in generateKings True opts q3 pos kingDstMask))
         else (let dstMask = kingDstMask;
                   pawnDstMask = kingDstMask OR promotionRank us;
                   q1 = generateSliders quiet pos dstMask;
                   q2 = generatePawnsQuiet opts q1 pos pawnDstMask (ours OR theirs);
                   q3 = generateKnights q2 pos dstMask
               in generateKings True opts q3 pos kingDstMask))"

definition generateAll :: "GlobalOptions \<Rightarrow> ScoredMoveList \<Rightarrow> Position \<Rightarrow> ScoredMoveList" where
  "generateAll opts ms pos =
     (let b = boards pos;
          us = toMove pos;
          kingDstMask = NOT (forColor b (toMove pos));
          epMask = (if enPassant pos \<noteq> Square_None then fromSquare (enPassant pos) else 0);
          epPawn = (if enPassant pos \<noteq> Square_None
                    then (if toMove pos = Black then shiftUp epMask else shiftDown epMask) else 0)
      in if isCheck pos
         then (if multiple (checkers pos)
               then generateKings False opts ms pos kingDstMask
               else (let dstMask = checkers pos OR rayBetween (king pos us) (lowestSquare (checkers pos));
                         pawnDstMask = (if checkers pos AND epPawn \<noteq> 0 then dstMask OR epMask else dstMask);
                         m1 = generateSliders ms pos dstMask;
                         m2 = generatePawnsNoisy m1 pos pawnDstMask;
                         m3 = generatePawnsQuiet opts m2 pos dstMask (occupancy b);
                         m4 = generateKnights m3 pos dstMask
                     in generateKings True opts m4 pos kingDstMask))
         else (let dstMask = kingDstMask;
                   pawnDstMask = kingDstMask;
                   m1 = generateSliders ms pos dstMask;
                   m2 = generatePawnsNoisy m1 pos pawnDstMask;
                   m3 = generatePawnsQuiet opts m2 pos dstMask (occupancy b);
                   m4 = generateKnights m3 pos dstMask
               in generateKings True opts m4 pos kingDstMask))"

subsection \<open>Vocabulary for statements about the generators\<close>

text \<open>The moves a generator call appended to the list it was given.\<close>

definition emitted :: "ScoredMoveList \<Rightarrow> ScoredMoveList \<Rightarrow> Move list" where
  "emitted ms ms' = map move (drop (length ms) ms')"

definition newNoisy :: "GlobalOptions \<Rightarrow> ScoredMoveList \<Rightarrow> Position \<Rightarrow> Move list" where
  "newNoisy opts ms pos = emitted ms (generateNoisy opts ms pos)"

definition newQuiet :: "GlobalOptions \<Rightarrow> ScoredMoveList \<Rightarrow> Position \<Rightarrow> Move list" where
  "newQuiet opts ms pos = emitted ms (generateQuiet opts ms pos)"

text \<open>\<open>emits P ms ms'\<close>: the list \<open>ms'\<close> extends \<open>ms\<close> by moves that all satisfy \<open>P\<close>.\<close>

definition emits :: "(Move \<Rightarrow> bool) \<Rightarrow> ScoredMoveList \<Rightarrow> ScoredMoveList \<Rightarrow> bool" where
  "emits P ms ms' \<longleftrightarrow> (\<exists>new. ms' = ms @ new \<and> (\<forall>m \<in> set new. P (move m)))"

definition ownPieces :: "Position \<Rightarrow> Bitboard" where
  "ownPieces pos = forColor (boards pos) (toMove pos)"

definition enemyPieces :: "Position \<Rightarrow> Bitboard" where
  "enemyPieces pos = forColor (boards pos) (oppColor (toMove pos))"

definition ownKings :: "Position \<Rightarrow> Bitboard" where
  "ownKings pos = forPieceOf (boards pos) King (toMove pos)"

definition ownPawns :: "Position \<Rightarrow> Bitboard" where
  "ownPawns pos = pawnsOf (toMove pos) (boards pos)"

text \<open>The squares strictly between the mover's king and the (lowest) checker.\<close>

definition checkRay :: "Position \<Rightarrow> Bitboard" where
  "checkRay pos = rayBetween (king pos (toMove pos)) (lowestSquare (checkers pos))"

text \<open>
  The square of the pawn that an en-passant capture removes: one step behind the en-passant
  square, seen from the mover (\<open>epPawn\<close> in \<open>generateNoisy\<close>).
\<close>

definition epPawnOf :: "Position \<Rightarrow> Bitboard" where
  "epPawnOf pos =
     (if enPassant pos \<noteq> Square_None
      then (if toMove pos = Black then shiftUp (fromSquare (enPassant pos))
            else shiftDown (fromSquare (enPassant pos)))
      else 0)"

text \<open>
  What a position in single check is taken to satisfy: one checker, which is an enemy piece;
  the invariants of the boards; an en-passant square, when there is one, that is not occupied
  by an enemy piece and does not lie on the mover's promotion rank.
\<close>

definition singleCheck :: "Position \<Rightarrow> bool" where
  "singleCheck pos \<longleftrightarrow>
     popcount (checkers pos) = 1 \<and>
     checkers pos AND NOT (enemyPieces pos) = 0 \<and>
     boards_wf (boards pos) \<and>
     (enPassant pos \<noteq> Square_None \<longrightarrow>
        fromSquare (enPassant pos) AND (enemyPieces pos OR promotionRank (toMove pos)) = 0)"

section \<open>Staged move ordering (movegen.h)\<close>

text \<open>
  Modelled from the spec: \<open>history.h\<close> is not among the sources. The spec (4.5) keys the
  history tables by the moving piece and the destination square and looks the countermove up
  by the previous move; a \<open>HistoryMove\<close> converts to \<open>true\<close> when it names a piece. The
  table is the three lookups the iterator performs.
\<close>

record HistoryMove =
  hm_moving :: Piece
  hm_dst :: Square

definition HistoryMove_null :: HistoryMove where
  "HistoryMove_null = \<lparr>hm_moving = NoPiece, hm_dst = 0\<rparr>"

definition historyMove_ok :: "HistoryMove \<Rightarrow> bool" where
  "historyMove_ok h \<longleftrightarrow> hm_moving h \<noteq> NoPiece"

record HistoryTable =
  entry_score :: "HistoryMove \<Rightarrow> Score"
  entry_countermove :: "HistoryMove \<Rightarrow> Move"
  contEntry_score :: "HistoryMove \<Rightarrow> HistoryMove \<Rightarrow> Score"

text \<open>
  What \<open>MoveGenerator\<close> calls outside the sources: \<open>eval::pieceValue\<close> and
  \<open>eval::values::Pawn\<close> of \<open>eval/material.h\<close>, \<open>see::see\<close> of \<open>see.h\<close>, \<open>Position::isPseudolegal\<close> of \<open>position.cpp\<close> and the options. They
  are passed in; \<open>quiescence\<close> is the template parameter of the class.
\<close>

record Env =
  env_opts :: GlobalOptions
  env_pieceValue :: "Piece \<Rightarrow> TaperedScore"
  env_valuesPawn :: TaperedScore
  env_see :: "Position \<Rightarrow> Move \<Rightarrow> bool"
  env_isPseudolegal :: "Position \<Rightarrow> Move \<Rightarrow> bool"
  env_quiescence :: bool

definition Stage_Start :: nat where "Stage_Start = 0"
definition Stage_Hash :: nat where "Stage_Hash = 1"
definition Stage_GoodNoisy :: nat where "Stage_GoodNoisy = 2"
definition Stage_Killer :: nat where "Stage_Killer = 3"
definition Stage_Countermove :: nat where "Stage_Countermove = 4"
definition Stage_Quiet :: nat where "Stage_Quiet = 5"
definition Stage_BadNoisy :: nat where "Stage_BadNoisy = 6"
definition Stage_End :: nat where "Stage_End = 7"

record MoveGenerator =
  m_pos :: Position
  m_stage :: nat
  m_moves :: ScoredMoveList
  m_hashMove :: Move
  m_prevMove :: HistoryMove
  m_prevPrevMove :: HistoryMove
  m_killer :: Move
  m_countermove :: Move
  m_history :: "HistoryTable option"
  m_idx :: nat
  m_noisyEnd :: nat
  m_goodNoisyEnd :: nat

text \<open>The constructor: an empty move list, stage \<open>Start\<close>, no countermove yet.\<close>

definition MoveGenerator_init ::
  "Position \<Rightarrow> Move \<Rightarrow> Move \<Rightarrow> HistoryMove \<Rightarrow> HistoryMove \<Rightarrow> HistoryTable option \<Rightarrow> MoveGenerator" where
  "MoveGenerator_init pos killer hashMove prevMove prevPrevMove history =
     \<lparr>m_pos = pos, m_stage = Stage_Start, m_moves = [], m_hashMove = hashMove,
      m_prevMove = prevMove, m_prevPrevMove = prevPrevMove, m_killer = killer,
      m_countermove = NullMove, m_history = history, m_idx = 0, m_noisyEnd = 0,
      m_goodNoisyEnd = 0\<rparr>"

text \<open>\<open>PromoScores\<close>, indexed by the promotion target: knight, bishop, rook, queen.\<close>

definition PromoScores :: "nat \<Rightarrow> int" where
  "PromoScores i = [1, - 2, - 1, 2] ! i"

text \<open>
  The body of the loop of \<open>scoreNoisy\<close> for one move. \<open>None\<close> stands for the failed assertion
  of \<open>pieceAt\<close>.
\<close>

definition scoreNoisyMove :: "Env \<Rightarrow> Position \<Rightarrow> ScoredMove \<Rightarrow> ScoredMove option" where
  "scoreNoisyMove env pos sm =
     (case pieceAt (boards pos) (src (move sm)) of
        None \<Rightarrow> None
      | Some srcPiece \<Rightarrow>
         (case (if mtype (move sm) = EnPassant then Some (midgame (env_valuesPawn env))
                else map_option (\<lambda>p. midgame (env_pieceValue env p)) (pieceAt (boards pos) (dst (move sm)))) of
            None \<Rightarrow> None
          | Some dstValue \<Rightarrow>
             (let srcValue = midgame (env_pieceValue env srcPiece);
                  s1 = (dstValue - srcValue) * 2000 + dstValue;
                  s2 = (if mtype (move sm) = Promotion
                        then s1 + PromoScores (targetIdx (move sm)) * 2000 * 2000 else s1);
                  s3 = (if dstValue > 0 \<and> \<not> env_see env pos (move sm)
                        then s2 - 8 * 2000 * 2000 else s2)
              in Some (sm\<lparr>score := s3\<rparr>))))"

text \<open>Running a fallible step over a list, stopping at the first failure.\<close>

fun mapOption :: "('a \<Rightarrow> 'b option) \<Rightarrow> 'a list \<Rightarrow> 'b list option" where
  "mapOption f [] = Some []"
| "mapOption f (x # xs) =
     (case f x of None \<Rightarrow> None
      | Some y \<Rightarrow> (case mapOption f xs of None \<Rightarrow> None | Some ys \<Rightarrow> Some (y # ys)))"

definition scoreNoisy :: "Env \<Rightarrow> MoveGenerator \<Rightarrow> MoveGenerator option" where
  "scoreNoisy env g =
     (case mapOption (scoreNoisyMove env (m_pos g)) (drop (m_idx g) (m_moves g)) of
        None \<Rightarrow> None
      | Some scored \<Rightarrow> Some (g\<lparr>m_moves := take (m_idx g) (m_moves g) @ scored\<rparr>))"

text \<open>\<open>HistoryMove::from(boards, move)\<close>.\<close>

definition HistoryMove_from :: "PositionBoards \<Rightarrow> Move \<Rightarrow> HistoryMove option" where
  "HistoryMove_from b m =
     (case pieceAt b (src m) of None \<Rightarrow> None
      | Some p \<Rightarrow> Some \<lparr>hm_moving = p, hm_dst = dst m\<rparr>)"

definition scoreQuietMove :: "MoveGenerator \<Rightarrow> ScoredMove \<Rightarrow> ScoredMove option" where
  "scoreQuietMove g sm =
     (case (case m_history g of
              None \<Rightarrow> Some (score sm)
            | Some h \<Rightarrow>
               (case HistoryMove_from (boards (m_pos g)) (move sm) of
                  None \<Rightarrow> None
                | Some historyMove \<Rightarrow>
                   (let s0 = entry_score h historyMove;
                        s1 = (if historyMove_ok (m_prevMove g)
                              then s0 + contEntry_score h (m_prevMove g) historyMove else s0);
                        s2 = (if historyMove_ok (m_prevPrevMove g)
                              then s1 + contEntry_score h (m_prevPrevMove g) historyMove else s1)
                    in Some s2))) of
        None \<Rightarrow> None
      | Some s \<Rightarrow>
         Some (sm\<lparr>score := (if mtype (move sm) = Promotion
                              then s + PromoScores (targetIdx (move sm)) * 2000 else s)\<rparr>))"

definition scoreQuiet :: "MoveGenerator \<Rightarrow> MoveGenerator option" where
  "scoreQuiet g =
     (case mapOption (scoreQuietMove g) (drop (m_noisyEnd g) (m_moves g)) of
        None \<Rightarrow> None
      | Some scored \<Rightarrow> Some (g\<lparr>m_moves := take (m_noisyEnd g) (m_moves g) @ scored\<rparr>))"

text \<open>
  \<open>std::stable_sort\<close> with the comparison \<open>a.score > b.score\<close>: the stable sort into
  descending score, here the insertion sort on the negated score.
\<close>

definition stable_sort_desc :: "ScoredMoveList \<Rightarrow> ScoredMoveList" where
  "stable_sort_desc ms = sort_key (\<lambda>m. - score m) ms"

definition genNoisy :: "Env \<Rightarrow> MoveGenerator \<Rightarrow> MoveGenerator option" where
  "genNoisy env g =
     (case scoreNoisy env (g\<lparr>m_moves := generateNoisy (env_opts env) (m_moves g) (m_pos g)\<rparr>) of
        None \<Rightarrow> None
      | Some g1 \<Rightarrow>
         (let sorted = take (m_idx g1) (m_moves g1) @ stable_sort_desc (drop (m_idx g1) (m_moves g1))
          in Some (g1\<lparr>m_moves := sorted,
                       m_noisyEnd := length sorted,
                       m_goodNoisyEnd := m_idx g1
                         + length (takeWhile (\<lambda>v. \<not> score v < - 4 * 2000 * 2000)
                                     (drop (m_idx g1) sorted))\<rparr>)))"

definition genQuiet :: "Env \<Rightarrow> MoveGenerator \<Rightarrow> MoveGenerator option" where
  "genQuiet env g =
     (case scoreQuiet (g\<lparr>m_moves := generateQuiet (env_opts env) (m_moves g) (m_pos g)\<rparr>) of
        None \<Rightarrow> None
      | Some g1 \<Rightarrow> Some (g1\<lparr>m_goodNoisyEnd := 9999\<rparr>))"

text \<open>
  \<open>findNext\<close>, called with \<open>m_idx\<close> inside the list: in the good-noisy stage the next move
  in order, otherwise the best-scored remaining move, swapped to the front first.
\<close>

definition findBest :: "ScoredMoveList \<Rightarrow> nat \<Rightarrow> nat" where
  "findBest ms idx =
     fst (foldl (\<lambda>(best, bestScore) i.
                   if score (ms ! i) > bestScore then (i, score (ms ! i)) else (best, bestScore))
            (idx, score (ms ! idx)) [idx + 1 ..< length ms])"

definition findNext :: "MoveGenerator \<Rightarrow> Move \<times> MoveGenerator" where
  "findNext g =
     (if m_stage g = Stage_GoodNoisy
      then (move (m_moves g ! m_idx g), g\<lparr>m_idx := m_idx g + 1\<rparr>)
      else (let best = findBest (m_moves g) (m_idx g);
                ms = (if best \<noteq> m_idx g
                      then (m_moves g)[m_idx g := m_moves g ! best, best := m_moves g ! m_idx g]
                      else m_moves g)
            in (move (ms ! m_idx g), g\<lparr>m_moves := ms, m_idx := m_idx g + 1\<rparr>)))"

text \<open>
  \<open>next\<close>. Each unfolding is one turn of the inner stage loop (while \<open>m_idx\<close> is at the end
  of the list or at the good-noisy boundary) or one turn of the outer loop (take the next
  generated move, skip it when it equals the hash move, the killer or the countermove). The
  result is the move returned and the generator afterwards; \<open>None\<close> stands for undefined
  behaviour of the source (an index beyond the list, the failed assertion of \<open>pieceAt\<close>).
\<close>

function (sequential) next_move :: "Env \<Rightarrow> MoveGenerator \<Rightarrow> (Move \<times> MoveGenerator) option" where
  "next_move env g =
     (if m_idx g = length (m_moves g) \<or> m_idx g = m_goodNoisyEnd g
      then (let g1 = g\<lparr>m_stage := m_stage g + 1\<rparr> in
        if m_stage g1 = Stage_Hash
        then (if move_ok (m_hashMove g1) then Some (m_hashMove g1, g1) else next_move env g1)
        else if m_stage g1 = Stage_GoodNoisy
        then (case genNoisy env g1 of
                None \<Rightarrow> None
              | Some g2 \<Rightarrow>
                  next_move env (if env_quiescence env then g2\<lparr>m_stage := Stage_End\<rparr> else g2))
        else if m_stage g1 = Stage_Killer
        then (if move_ok (m_killer g1) \<and> m_killer g1 \<noteq> m_hashMove g1
                 \<and> env_isPseudolegal env (m_pos g1) (m_killer g1)
              then Some (m_killer g1, g1) else next_move env g1)
        else if m_stage g1 = Stage_Countermove
        then (case m_history g1 of
                Some h \<Rightarrow>
                  (if historyMove_ok (m_prevMove g1)
                   then (let g2 = g1\<lparr>m_countermove := entry_countermove h (m_prevMove g1)\<rparr> in
                     if move_ok (m_countermove g2) \<and> m_countermove g2 \<noteq> m_hashMove g2
                        \<and> m_countermove g2 \<noteq> m_killer g2
                        \<and> env_isPseudolegal env (m_pos g2) (m_countermove g2)
                     then Some (m_countermove g2, g2) else next_move env g2)
                   else next_move env g1)
              | None \<Rightarrow> next_move env g1)
        else if m_stage g1 = Stage_Quiet
        then (case genQuiet env g1 of None \<Rightarrow> None | Some g2 \<Rightarrow> next_move env g2)
        else if m_stage g1 = Stage_BadNoisy
        then next_move env g1
        else Some (NullMove, g1))
      else if m_idx g = length (m_moves g) then Some (NullMove, g)
      else if m_idx g > length (m_moves g) then None
      else (case findNext g of (mv, g1) \<Rightarrow>
        if mv \<noteq> m_hashMove g1 \<and> mv \<noteq> m_killer g1 \<and> mv \<noteq> m_countermove g1
        then Some (mv, g1) else next_move env g1))"
  by pat_completeness auto

lemma mapOption_length: "mapOption f xs = Some ys \<Longrightarrow> length ys = length xs"
  by (induction xs arbitrary: ys) (auto split: option.splits)

lemma genNoisy_stage: "genNoisy env g = Some g' \<Longrightarrow> m_stage g' = m_stage g"
  by (auto simp: genNoisy_def scoreNoisy_def Let_def split: option.splits)

lemma genQuiet_stage: "genQuiet env g = Some g' \<Longrightarrow> m_stage g' = m_stage g"
  by (auto simp: genQuiet_def scoreQuiet_def split: option.splits)

lemma findNext_frame:
  "findNext g = (mv, g') \<Longrightarrow>
     m_stage g' = m_stage g \<and> length (m_moves g') = length (m_moves g) \<and> m_idx g' = m_idx g + 1"
  by (auto simp: findNext_def Let_def split: if_splits)

termination next_move
  apply (relation "measures [\<lambda>(env, g). 8 - m_stage g, \<lambda>(env, g). length (m_moves g) - m_idx g]")
  apply (auto simp: Stage_Hash_def Stage_GoodNoisy_def Stage_Killer_def Stage_Countermove_def
      Stage_Quiet_def Stage_BadNoisy_def Stage_End_def
      dest: genNoisy_stage genQuiet_stage findNext_frame findNext_frame [OF sym])
  done

subsection \<open>Vocabulary for statements about the iterator\<close>

text \<open>The moves returned by \<open>n\<close> successive calls of \<open>next\<close>, up to an undefined call.\<close>

fun next_moves :: "Env \<Rightarrow> MoveGenerator \<Rightarrow> nat \<Rightarrow> Move list" where
  "next_moves env g 0 = []"
| "next_moves env g (Suc n) =
     (case next_move env g of None \<Rightarrow> [] | Some (m, g') \<Rightarrow> m # next_moves env g' n)"

text \<open>
  The noisy score as the spec (4.5) words it: victim and attacker are the midgame values of
  the captured and the moving piece, the victim of an en-passant capture is a pawn.
\<close>

definition pieceOn :: "Position \<Rightarrow> Square \<Rightarrow> Piece" where
  "pieceOn pos sq = (case pieceAt (boards pos) sq of Some p \<Rightarrow> p | None \<Rightarrow> NoPiece)"

definition attackerValue :: "Env \<Rightarrow> Position \<Rightarrow> Move \<Rightarrow> Score" where
  "attackerValue env pos m = midgame (env_pieceValue env (pieceOn pos (src m)))"

definition victimValue :: "Env \<Rightarrow> Position \<Rightarrow> Move \<Rightarrow> Score" where
  "victimValue env pos m =
     (if mtype m = EnPassant then midgame (env_valuesPawn env)
      else midgame (env_pieceValue env (pieceOn pos (dst m))))"

definition promoBias :: "Move \<Rightarrow> Score" where
  "promoBias m = (if mtype m = Promotion then PromoScores (targetIdx m) * 2000 * 2000 else 0)"

definition losingCapture :: "Env \<Rightarrow> Position \<Rightarrow> Move \<Rightarrow> bool" where
  "losingCapture env pos m \<longleftrightarrow> victimValue env pos m > 0 \<and> \<not> env_see env pos m"

definition noisyScore :: "Env \<Rightarrow> Position \<Rightarrow> Move \<Rightarrow> Score" where
  "noisyScore env pos m =
     (victimValue env pos m - attackerValue env pos m) * 2000 + victimValue env pos m
       + promoBias m - (if losingCapture env pos m then 8 * 2000 * 2000 else 0)"

text \<open>
  The piece values are taken to lie between 0 and 3998 centipawn-like units, with no value
  for an empty square: what the header \<open>eval/material.h\<close> is expected to provide.
\<close>

definition values_ok :: "Env \<Rightarrow> bool" where
  "values_ok env \<longleftrightarrow>
     (\<forall>p. 0 \<le> midgame (env_pieceValue env p) \<and> midgame (env_pieceValue env p) \<le> 3998) \<and>
     0 \<le> midgame (env_valuesPawn env) \<and> midgame (env_valuesPawn env) \<le> 3998 \<and>
     midgame (env_pieceValue env NoPiece) = 0"

text \<open>A promotion target index that \<open>PromoScores\<close> has an entry for.\<close>

definition promoIdx_ok :: "Move \<Rightarrow> bool" where
  "promoIdx_ok m \<longleftrightarrow> targetIdx m < 4"

section \<open>Static evaluation (eval/eval.cpp)\<close>

subsection \<open>The terms and tables\<close>

definition S :: "Score \<Rightarrow> Score \<Rightarrow> TaperedScore" where
  "S Mg Eg = \<lparr>midgame = Mg, endgame = Eg\<rparr>"

definition DoubledPawn :: TaperedScore where "DoubledPawn = S (- 18) (- 25)"
definition DoubledGappedPawn :: TaperedScore where "DoubledGappedPawn = S (- 4) (- 18)"
definition PawnDefender :: TaperedScore where "PawnDefender = S 17 14"
definition OpenPawn :: TaperedScore where "OpenPawn = S (- 11) (- 7)"

definition PawnPhalanx :: "TaperedScore list" where
  "PawnPhalanx = [S 0 0, S 3 5, S 22 10, S 25 25, S 44 61, S 118 136, S 23 259]"

definition Passer :: "TaperedScore list" where
  "Passer = [S 0 0, S 0 7, S (- 4) 14, S (- 13) 45, S 12 66, S 8 138, S 48 152]"

definition DefendedPasser :: "TaperedScore list" where
  "DefendedPasser = [S 0 0, S 0 0, S 4 (- 9), S 5 (- 11), S 8 0, S 33 15, S 154 (- 12)]"

definition BlockedPasser :: "TaperedScore list" where
  "BlockedPasser = [S 0 0, S (- 9) (- 3), S (- 9) 3, S (- 5) (- 8), S (- 13) (- 24), S 5 (- 87),
     S 29 (- 138)]"

definition CandidatePasser :: "TaperedScore list" where
  "CandidatePasser = [S 0 0, S 7 (- 3), S 1 0, S 3 12, S 20 16, S 46 60, S 0 0]"

definition DoubledPasser :: TaperedScore where "DoubledPasser = S 17 (- 26)"
definition PasserHelper :: TaperedScore where "PasserHelper = S (- 8) 13"

definition PawnAttackingMinor :: TaperedScore where "PawnAttackingMinor = S 52 17"
definition PawnAttackingRook :: TaperedScore where "PawnAttackingRook = S 98 (- 31)"
definition PawnAttackingQueen :: TaperedScore where "PawnAttackingQueen = S 57 (- 16)"
definition PasserSquareRule :: TaperedScore where "PasserSquareRule = S 12 102"

definition MinorBehindPawn :: TaperedScore where "MinorBehindPawn = S 5 18"
definition MinorAttackingRook :: TaperedScore where "MinorAttackingRook = S 40 0"
definition MinorAttackingQueen :: TaperedScore where "MinorAttackingQueen = S 27 3"
definition KnightOutpost :: TaperedScore where "KnightOutpost = S 25 16"
definition BishopPair :: TaperedScore where "BishopPair = S 26 59"

definition RookOnOpenFile :: TaperedScore where "RookOnOpenFile = S 41 2"
definition RookOnSemiOpenFile :: TaperedScore where "RookOnSemiOpenFile = S 15 9"
definition RookSupportingPasser :: TaperedScore where "RookSupportingPasser = S 17 14"
definition RookAttackingQueen :: TaperedScore where "RookAttackingQueen = S 55 (- 23)"

definition KingOnOpenFile :: TaperedScore where "KingOnOpenFile = S (- 71) 2"
definition KingOnSemiOpenFile :: TaperedScore where "KingOnSemiOpenFile = S (- 30) 18"

definition KnightMobility :: "TaperedScore list" where
  "KnightMobility = [S (- 42) (- 12), S (- 23) (- 8), S (- 12) (- 5), S (- 8) 0, S 3 3, S 8 11,
     S 16 10, S 20 9, S 36 (- 8)]"

definition BishopMobility :: "TaperedScore list" where
  "BishopMobility = [S (- 53) 5, S (- 38) (- 13), S (- 26) (- 23), S (- 18) (- 16), S (- 9) (- 8),
     S (- 5) 0, S 0 7, S 3 9, S 2 13, S 11 9, S 21 3, S 46 0, S 7 24, S 58 (- 10)]"

definition RookMobility :: "TaperedScore list" where
  "RookMobility = [S (- 42) (- 38), S (- 29) (- 15), S (- 23) (- 15), S (- 18) (- 11),
     S (- 17) (- 7), S (- 11) (- 4), S (- 9) 2, S (- 4) 4, S 5 7, S 11 9, S 14 12, S 23 14,
     S 25 18, S 42 11, S 34 11]"

definition QueenMobility :: "TaperedScore list" where
  "QueenMobility = [S (- 31) 63, S (- 31) 222, S (- 32) 89, S (- 33) 53, S (- 31) 49,
     S (- 24) (- 23), S (- 20) (- 58), S (- 17) (- 68), S (- 14) (- 66), S (- 8) (- 73),
     S (- 7) (- 59), S (- 3) (- 49), S (- 4) (- 45), S 4 (- 40), S 5 (- 29), S 0 (- 14),
     S 0 (- 4), S 16 (- 18), S 12 (- 5), S 27 (- 9), S 33 (- 5), S 64 (- 19), S 44 (- 3),
     S 83 (- 12), S 35 4, S 41 0, S (- 42) 62, S (- 66) 57]"

text \<open>
  The masks built at compile time: the squares in front of a square on its own and the two
  neighbouring files, and the squares behind it on the two neighbouring files.
\<close>

definition AntiPasserMasks :: "Color \<Rightarrow> Square \<Rightarrow> Bitboard" where
  "AntiPasserMasks us i =
     (let d0 = fromSquare i;
          d1 = d0 OR shiftLeft d0 OR shiftRight d0
      in fillUpRelative us (shiftUpRelative us d1))"

definition PawnHelperMasks :: "Color \<Rightarrow> Square \<Rightarrow> Bitboard" where
  "PawnHelperMasks us i =
     (let d0 = fromSquare i;
          d1 = shiftLeft d0 OR shiftRight d0
      in fillDownRelative us (shiftDownRelative us d1))"

text \<open>
  What the evaluator uses from outside the sources: the constant \<open>Tempo\<close> of \<open>eval.h\<close> and
  the distance \<open>chebyshev\<close>. They are passed in.
\<close>

record EvalEnv =
  ev_Tempo :: Score
  ev_chebyshev :: "Square \<Rightarrow> Square \<Rightarrow> int"

text \<open>
  Modelled from the spec: \<open>eval.h\<close>, which declares \<open>PawnCache\<close>, is not among the sources.
  The spec (4.7) gives a direct-mapped table of a power-of-two size whose entries are triples
  of pawn key, white-minus-black score and passer bitboard, probed as
  \<open>table[pawn_key & mask]\<close>. The table is a function on the indices. \<open>probe\<close> returns a
  reference to the slot; \<open>overwrite\<close> is the assignment through that reference.
\<close>

record PawnCacheEntry =
  pc_key :: u64
  pc_eval :: TaperedScore
  pc_passers :: Bitboard

record PawnCache =
  pc_mask :: u64
  pc_table :: "u64 \<Rightarrow> PawnCacheEntry"

definition probe :: "PawnCache \<Rightarrow> u64 \<Rightarrow> PawnCacheEntry" where
  "probe c k = pc_table c (k AND pc_mask c)"

definition overwrite :: "PawnCache \<Rightarrow> u64 \<Rightarrow> PawnCacheEntry \<Rightarrow> PawnCache" where
  "overwrite c k e = c\<lparr>pc_table := (pc_table c)(k AND pc_mask c := e)\<rparr>"

subsection \<open>\<open>Evaluator::EvalData\<close>\<close>

record EvalData =
  e_pawnAttacks :: Bitboard
  e_semiOpen :: Bitboard
  e_available :: Bitboard
  e_passers :: Bitboard
  e_pawnStructure :: TaperedScore
  e_pawns :: TaperedScore
  e_knights :: TaperedScore
  e_bishops :: TaperedScore
  e_rooks :: TaperedScore
  e_queens :: TaperedScore
  e_kings :: TaperedScore
  e_mobility :: TaperedScore
  e_hanging :: TaperedScore
  e_pinned :: TaperedScore
  e_kingSafety :: TaperedScore

definition EvalData_init :: EvalData where
  "EvalData_init =
     \<lparr>e_pawnAttacks = 0, e_semiOpen = 0, e_available = 0, e_passers = 0,
      e_pawnStructure = ts_zero, e_pawns = ts_zero, e_knights = ts_zero, e_bishops = ts_zero,
      e_rooks = ts_zero, e_queens = ts_zero, e_kings = ts_zero, e_mobility = ts_zero,
      e_hanging = ts_zero, e_pinned = ts_zero, e_kingSafety = ts_zero\<rparr>"

text \<open>The statements \<open>ours.field += x\<close>.\<close>

definition add_pawnStructure :: "EvalData \<Rightarrow> TaperedScore \<Rightarrow> EvalData" where
  "add_pawnStructure d x = d\<lparr>e_pawnStructure := ts_add (e_pawnStructure d) x\<rparr>"

definition add_pawns :: "EvalData \<Rightarrow> TaperedScore \<Rightarrow> EvalData" where
  "add_pawns d x = d\<lparr>e_pawns := ts_add (e_pawns d) x\<rparr>"

definition add_knights :: "EvalData \<Rightarrow> TaperedScore \<Rightarrow> EvalData" where
  "add_knights d x = d\<lparr>e_knights := ts_add (e_knights d) x\<rparr>"

definition add_bishops :: "EvalData \<Rightarrow> TaperedScore \<Rightarrow> EvalData" where
  "add_bishops d x = d\<lparr>e_bishops := ts_add (e_bishops d) x\<rparr>"

definition add_rooks :: "EvalData \<Rightarrow> TaperedScore \<Rightarrow> EvalData" where
  "add_rooks d x = d\<lparr>e_rooks := ts_add (e_rooks d) x\<rparr>"

definition add_kings :: "EvalData \<Rightarrow> TaperedScore \<Rightarrow> EvalData" where
  "add_kings d x = d\<lparr>e_kings := ts_add (e_kings d) x\<rparr>"

definition add_mobility :: "EvalData \<Rightarrow> TaperedScore \<Rightarrow> EvalData" where
  "add_mobility d x = d\<lparr>e_mobility := ts_add (e_mobility d) x\<rparr>"

subsection \<open>\<open>evalPawnStructure\<close>\<close>

text \<open>
  The body of the loop over the own pawns. The tables \<open>Passer\<close>, \<open>DefendedPasser\<close> and
  \<open>CandidatePasser\<close> have seven entries and are read at the relative rank of the pawn; the
  source has no answer for a pawn on its eighth rank, and neither has \<open>!\<close>.
\<close>

definition pawnStructureStep ::
  "Color \<Rightarrow> Bitboard \<Rightarrow> Bitboard \<Rightarrow> Bitboard \<Rightarrow> EvalData \<Rightarrow> EvalData \<Rightarrow> Square \<Rightarrow> EvalData" where
  "pawnStructureStep us ourPawns theirPawns doubledPawns theirs ours square =
     (let pawn = fromSquare square;
          rank = relativeRank us (squareRank square);
          antiPassers = theirPawns AND AntiPasserMasks us square
      in if antiPassers = 0
         then (let o1 = add_pawnStructure ours (Passer ! rank);
                   o2 = (if pawn AND e_pawnAttacks o1 \<noteq> 0
                         then add_pawnStructure o1 (DefendedPasser ! rank) else o1);
                   o3 = (if pawn AND doubledPawns \<noteq> 0
                         then add_pawnStructure o2 DoubledPasser else o2);
                   helpers = ourPawns AND PawnHelperMasks us square;
                   o4 = add_pawnStructure o3 (ts_scale PasserHelper (popcount helpers))
               in o4\<lparr>e_passers := e_passers o4 OR pawn\<rparr>)
         else if pawn AND e_semiOpen theirs \<noteq> 0
         then (let stop = shiftUpRelative us pawn;
                   levers = antiPassers
                     AND (shiftUpLeftRelative us pawn OR shiftUpRightRelative us pawn)
               in if antiPassers = levers
                  then add_pawnStructure ours (CandidatePasser ! rank)
                  else (let telelevers = antiPassers
                              AND (shiftUpLeftRelative us stop OR shiftUpRightRelative us stop);
                            helpers = ourPawns AND (shiftLeft pawn OR shiftRight pawn)
                        in if antiPassers = telelevers \<or> popcount telelevers \<le> popcount helpers
                           then add_pawnStructure ours (CandidatePasser ! rank)
                           else ours))
         else ours)"

definition evalPawnStructure :: "Color \<Rightarrow> Position \<Rightarrow> EvalData \<Rightarrow> EvalData \<Rightarrow> EvalData" where
  "evalPawnStructure us pos ours theirs =
     (let them = oppColor us;
          b = boards pos;
          ourPawns = pawnsOf us b;
          theirPawns = pawnsOf them b;
          up = shiftUpRelative us ourPawns;
          doubledPawns = up AND ourPawns;
          o1 = add_pawnStructure ours (ts_scale DoubledPawn (popcount doubledPawns));
          o2 = add_pawnStructure o1
                 (ts_scale DoubledGappedPawn (popcount (shiftUpRelative us up AND ourPawns)));
          o3 = add_pawnStructure o2
                 (ts_scale PawnDefender (popcount (e_pawnAttacks o2 AND ourPawns)));
          o4 = add_pawnStructure o3
                 (ts_scale OpenPawn
                    (popcount (ourPawns AND NOT (fillDownRelative us theirPawns)
                       AND NOT (e_pawnAttacks o3))));
          o5 = foldl (\<lambda>d square.
                        add_pawnStructure d (PawnPhalanx ! relativeRank us (squareRank square)))
                 o4 (squares (ourPawns AND shiftLeft ourPawns))
      in foldl (pawnStructureStep us ourPawns theirPawns doubledPawns theirs) o5
           (squares ourPawns))"

subsection \<open>The piece terms\<close>

definition pawnsStep :: "Color \<Rightarrow> EvalEnv \<Rightarrow> Position \<Rightarrow> EvalData \<Rightarrow> Square \<Rightarrow> EvalData" where
  "pawnsStep us env pos ours square =
     (let them = oppColor us;
          b = boards pos;
          passer = fromSquare square;
          rank = relativeRank us (squareRank square);
          promotion = toSquare (relativeRank us 7) (squareFile square);
          o1 = (if nonPkOf them b = 0
                   \<and> min 5 (ev_chebyshev env square promotion) + (if us = toMove pos then 1 else 0)
                       < ev_chebyshev env (king pos them) promotion
                then add_pawns ours PasserSquareRule else ours)
      in if shiftUpRelative us passer AND occupancy b \<noteq> 0
         then add_pawns o1 (BlockedPasser ! rank) else o1)"

definition evalPawns :: "Color \<Rightarrow> EvalEnv \<Rightarrow> Position \<Rightarrow> EvalData \<Rightarrow> EvalData \<Rightarrow> EvalData" where
  "evalPawns us env pos ours theirs =
     (let them = oppColor us;
          b = boards pos;
          o1 = add_pawns ours
                 (ts_scale PawnAttackingMinor (popcount (e_pawnAttacks ours AND minorsOf them b)));
          o2 = add_pawns o1
                 (ts_scale PawnAttackingRook (popcount (e_pawnAttacks o1 AND rooksOf them b)));
          o3 = add_pawns o2
                 (ts_scale PawnAttackingQueen (popcount (e_pawnAttacks o2 AND queensOf them b)))
      in foldl (pawnsStep us env pos) o3 (squares (e_passers o3)))"

definition knightsStep :: "Color \<Rightarrow> Position \<Rightarrow> EvalData \<Rightarrow> Square \<Rightarrow> EvalData" where
  "knightsStep us pos ours square =
     (let them = oppColor us;
          b = boards pos;
          knight = fromSquare square;
          o1 = (if AntiPasserMasks us square AND NOT (Files (squareFile square)) AND pawnsOf them b = 0
                   \<and> knight AND e_pawnAttacks ours \<noteq> 0
                then add_knights ours KnightOutpost else ours);
          attacks = KnightAttacks square;
          o2 = add_knights o1 (ts_scale MinorAttackingRook (popcount (attacks AND rooksOf them b)));
          o3 = add_knights o2 (ts_scale MinorAttackingQueen (popcount (attacks AND queensOf them b)))
      in add_mobility o3 (KnightMobility ! popcount (attacks AND e_available o3)))"

definition evalKnights :: "Color \<Rightarrow> Position \<Rightarrow> EvalData \<Rightarrow> EvalData \<Rightarrow> EvalData" where
  "evalKnights us pos ours theirs =
     (let b = boards pos;
          ourKnights = knightsOf us b
      in if ourKnights = 0 then ours
         else (let o1 = add_knights ours
                          (ts_scale MinorBehindPawn
                             (popcount (shiftUpRelative us ourKnights AND pawnsOf us b)))
               in foldl (knightsStep us pos) o1 (squares ourKnights)))"

definition bishopsStep :: "Color \<Rightarrow> Position \<Rightarrow> Bitboard \<Rightarrow> Bitboard \<Rightarrow> EvalData \<Rightarrow> Square \<Rightarrow> EvalData" where
  "bishopsStep us pos occ0 xrayOcc ours square =
     (let them = oppColor us;
          b = boards pos;
          attacks = getBishopAttacks square occ0;
          o1 = add_bishops ours (ts_scale MinorAttackingRook (popcount (attacks AND rooksOf them b)));
          o2 = add_bishops o1 (ts_scale MinorAttackingQueen (popcount (attacks AND queensOf them b)));
          mobilityAttacks = getBishopAttacks square xrayOcc
      in add_mobility o2 (BishopMobility ! popcount (mobilityAttacks AND e_available o2)))"

definition evalBishops :: "Color \<Rightarrow> Position \<Rightarrow> EvalData \<Rightarrow> EvalData \<Rightarrow> EvalData" where
  "evalBishops us pos ours theirs =
     (let b = boards pos;
          ourBishops = bishopsOf us b
      in if ourBishops = 0 then ours
         else (let o1 = add_bishops ours
                          (ts_scale MinorBehindPawn
                             (popcount (shiftUpRelative us ourBishops AND pawnsOf us b)));
                   o2 = (if ourBishops AND DarkSquares \<noteq> 0 \<and> ourBishops AND LightSquares \<noteq> 0
                         then add_bishops o1 BishopPair else o1);
                   occ0 = occupancy b;
                   xrayOcc = occ0 XOR bishopsOf us b XOR queensOf us b
               in foldl (bishopsStep us pos occ0 xrayOcc) o2 (squares ourBishops)))"

definition rooksStep ::
  "Color \<Rightarrow> Position \<Rightarrow> Bitboard \<Rightarrow> Bitboard \<Rightarrow> Bitboard \<Rightarrow> EvalData \<Rightarrow> Square \<Rightarrow> EvalData" where
  "rooksStep us pos openFiles occ0 xrayOcc ours square =
     (let them = oppColor us;
          b = boards pos;
          rook = fromSquare square;
          o1 = (if rook AND openFiles \<noteq> 0 then add_rooks ours RookOnOpenFile
                else if rook AND e_semiOpen ours \<noteq> 0 then add_rooks ours RookOnSemiOpenFile
                else ours);
          o2 = (if fillUpRelative us rook AND e_passers o1 \<noteq> 0
                then add_rooks o1 RookSupportingPasser else o1);
          attacks = getRookAttacks square occ0;
          o3 = add_rooks o2 (ts_scale RookAttackingQueen (popcount (attacks AND queensOf them b)));
          mobilityAttacks = getRookAttacks square xrayOcc
      in add_mobility o3 (RookMobility ! popcount (mobilityAttacks AND e_available o3)))"

definition evalRooks :: "Color \<Rightarrow> Position \<Rightarrow> Bitboard \<Rightarrow> EvalData \<Rightarrow> EvalData \<Rightarrow> EvalData" where
  "evalRooks us pos openFiles ours theirs =
     (let b = boards pos;
          ourRooks = rooksOf us b
      in if ourRooks = 0 then ours
         else (let occ0 = occupancy b;
                   xrayOcc = occ0 XOR rooksOf us b XOR queensOf us b
               in foldl (rooksStep us pos openFiles occ0 xrayOcc) ours (squares ourRooks)))"

definition queensStep :: "Bitboard \<Rightarrow> EvalData \<Rightarrow> Square \<Rightarrow> EvalData" where
  "queensStep xrayOcc ours square =
     (let mobilityAttacks = getQueenAttacks square xrayOcc
      in add_mobility ours (QueenMobility ! popcount (mobilityAttacks AND e_available ours)))"

definition evalQueens :: "Color \<Rightarrow> Position \<Rightarrow> EvalData \<Rightarrow> EvalData \<Rightarrow> EvalData" where
  "evalQueens us pos ours theirs =
     (let b = boards pos;
          ourQueens = queensOf us b
      in if ourQueens = 0 then ours
         else (let occ0 = occupancy b;
                   xrayOcc = occ0 XOR bishopsOf us b XOR rooksOf us b XOR queensOf us b
               in foldl (queensStep xrayOcc) ours (squares ourQueens)))"

definition evalKing :: "Color \<Rightarrow> Position \<Rightarrow> Bitboard \<Rightarrow> EvalData \<Rightarrow> EvalData \<Rightarrow> EvalData" where
  "evalKing us pos openFiles ours theirs =
     (let b = boards pos;
          ourKing = kingsOf us b
      in if ourKing AND openFiles \<noteq> 0 then add_kings ours KingOnOpenFile
         else if ourKing AND e_semiOpen ours \<noteq> 0 then add_kings ours KingOnSemiOpenFile
         else ours)"

text \<open>Two terms are still empty in the source.\<close>

definition evalHangingAndPinned :: "Color \<Rightarrow> Position \<Rightarrow> EvalData \<Rightarrow> EvalData \<Rightarrow> EvalData" where
  "evalHangingAndPinned us pos ours theirs = ours"

definition evalKingSafety :: "Color \<Rightarrow> Position \<Rightarrow> EvalData \<Rightarrow> EvalData \<Rightarrow> EvalData" where
  "evalKingSafety us pos ours theirs = ours"

subsection \<open>The constructor of \<open>Evaluator\<close> and \<open>staticEval\<close>\<close>

record EvaluatorObj =
  m_cachedPawnStructureEval :: bool
  m_blackData :: EvalData
  m_whiteData :: EvalData
  m_openFiles :: Bitboard
  m_total :: TaperedScore
  m_final :: Score

text \<open>
  The first block of the constructor: pawn attacks, semi-open files and available squares of
  both sides, as the pair of \<open>m_blackData\<close> and \<open>m_whiteData\<close>.
\<close>

definition setupData :: "Position \<Rightarrow> EvalData \<times> EvalData" where
  "setupData pos =
     (let b = boards pos;
          bp = blackPawns b;
          wp = whitePawns b;
          black1 = EvalData_init\<lparr>e_pawnAttacks := shiftDownLeft bp OR shiftDownRight bp\<rparr>;
          white1 = EvalData_init\<lparr>e_pawnAttacks := shiftUpLeft wp OR shiftUpRight wp\<rparr>;
          black2 = black1\<lparr>e_semiOpen := NOT (fillFile bp)\<rparr>;
          white2 = white1\<lparr>e_semiOpen := NOT (fillFile wp)\<rparr>;
          black3 = black2\<lparr>e_available := NOT (blackOccupancy b OR e_pawnAttacks white2)\<rparr>;
          white3 = white2\<lparr>e_available := NOT (whiteOccupancy b OR e_pawnAttacks black3)\<rparr>
      in (black3, white3))"

text \<open>The two calls of \<open>evalPawnStructure\<close>, black first.\<close>

definition bothPawnStructures :: "Position \<Rightarrow> EvalData \<times> EvalData \<Rightarrow> EvalData \<times> EvalData" where
  "bothPawnStructures pos bw =
     (let black1 = evalPawnStructure Black pos (fst bw) (snd bw);
          white1 = evalPawnStructure White pos (snd bw) black1
      in (black1, white1))"

text \<open>
  The pawn-structure block: with a cache, a hit takes score and passers from the entry, a
  miss computes them and writes the entry; without a cache they are computed. The result is
  the flag \<open>m_cachedPawnStructureEval\<close>, the two data records and the cache afterwards.
\<close>

definition pawnStructureBlock ::
  "Position \<Rightarrow> PawnCache option \<Rightarrow> EvalData \<times> EvalData \<Rightarrow> bool \<times> (EvalData \<times> EvalData) \<times> PawnCache option" where
  "pawnStructureBlock pos pawnCache bw =
     (case pawnCache of
        Some c \<Rightarrow>
          (let cacheEntry = probe c (pawnKey pos) in
           if pc_key cacheEntry = pawnKey pos
           then (let white1 = (snd bw)\<lparr>e_pawnStructure := pc_eval cacheEntry\<rparr>;
                     black1 = (fst bw)\<lparr>e_passers := pc_passers cacheEntry AND blackOccupancy (boards pos)\<rparr>;
                     white2 = white1\<lparr>e_passers := pc_passers cacheEntry AND whiteOccupancy (boards pos)\<rparr>
                 in (True, (black1, white2), Some c))
           else (let bw1 = bothPawnStructures pos bw;
                     e = \<lparr>pc_key = pawnKey pos,
                          pc_eval = ts_sub (e_pawnStructure (snd bw1)) (e_pawnStructure (fst bw1)),
                          pc_passers = e_passers (fst bw1) OR e_passers (snd bw1)\<rparr>
                 in (False, bw1, Some (overwrite c (pawnKey pos) e))))
      | None \<Rightarrow> (False, bothPawnStructures pos bw, None))"

text \<open>The calls from \<open>evalPawns\<close> to \<open>evalKingSafety\<close>, each for black and then for white.\<close>

definition pieceTerms :: "EvalEnv \<Rightarrow> Position \<Rightarrow> Bitboard \<Rightarrow> EvalData \<times> EvalData \<Rightarrow> EvalData \<times> EvalData" where
  "pieceTerms env pos openFiles bw =
     (let b1 = evalPawns Black env pos (fst bw) (snd bw);
          w1 = evalPawns White env pos (snd bw) b1;
          b2 = evalKnights Black pos b1 w1;
          w2 = evalKnights White pos w1 b2;
          b3 = evalBishops Black pos b2 w2;
          w3 = evalBishops White pos w2 b3;
          b4 = evalRooks Black pos openFiles b3 w3;
          w4 = evalRooks White pos openFiles w3 b4;
          b5 = evalQueens Black pos b4 w4;
          w5 = evalQueens White pos w4 b5;
          b6 = evalKing Black pos openFiles b5 w5;
          w6 = evalKing White pos openFiles w5 b6;
          b7 = evalHangingAndPinned Black pos b6 w6;
          w7 = evalHangingAndPinned White pos w6 b7;
          b8 = evalKingSafety Black pos b7 w7;
          w8 = evalKingSafety White pos w7 b8
      in (b8, w8))"

text \<open>The eleven statements \<open>m_total += white - black\<close>, starting from the material.\<close>

definition sumTotal :: "Position \<Rightarrow> EvalData \<Rightarrow> EvalData \<Rightarrow> TaperedScore" where
  "sumTotal pos bl wh =
     (let t0 = material pos;
          t1 = ts_add t0 (ts_sub (e_pawnStructure wh) (e_pawnStructure bl));
          t2 = ts_add t1 (ts_sub (e_pawns wh) (e_pawns bl));
          t3 = ts_add t2 (ts_sub (e_knights wh) (e_knights bl));
          t4 = ts_add t3 (ts_sub (e_bishops wh) (e_bishops bl));
          t5 = ts_add t4 (ts_sub (e_rooks wh) (e_rooks bl));
          t6 = ts_add t5 (ts_sub (e_queens wh) (e_queens bl));
          t7 = ts_add t6 (ts_sub (e_kings wh) (e_kings bl));
          t8 = ts_add t7 (ts_sub (e_mobility wh) (e_mobility bl));
          t9 = ts_add t8 (ts_sub (e_hanging wh) (e_hanging bl));
          t10 = ts_add t9 (ts_sub (e_pinned wh) (e_pinned bl))
      in ts_add t10 (ts_sub (e_kingSafety wh) (e_kingSafety bl)))"

text \<open>
  The constructor. \<open>halfmove\<close> is a \<open>u16\<close>, so \<open>200 - pos.halfmove()\<close> is computed in \<open>int\<close>;
  \<open>/\<close> is the division of C++, which rounds towards zero. The result is the object and the
  cache as the constructor leaves it.
\<close>

definition Evaluator :: "EvalEnv \<Rightarrow> Position \<Rightarrow> PawnCache option \<Rightarrow> EvaluatorObj \<times> PawnCache option" where
  "Evaluator env pos pawnCache =
     (let bw0 = setupData pos;
          openFiles = e_semiOpen (fst bw0) AND e_semiOpen (snd bw0);
          (cached, bw1, cache1) = pawnStructureBlock pos pawnCache bw0;
          bw2 = pieceTerms env pos openFiles bw1;
          tot = sumTotal pos (fst bw2) (snd bw2);
          final0 = interpScore pos tot;
          final1 = (final0 * (200 - int (halfmove pos))) sdiv 200;
          final2 = (if isLikelyDrawn pos then final1 sdiv 8 else final1)
      in (\<lparr>m_cachedPawnStructureEval = cached, m_blackData = fst bw2, m_whiteData = snd bw2,
            m_openFiles = openFiles, m_total = tot, m_final = final2\<rparr>, cache1))"

definition staticEval :: "EvalEnv \<Rightarrow> Position \<Rightarrow> PawnCache option \<Rightarrow> Score \<times> PawnCache option" where
  "staticEval env pos pawnCache =
     (let (ev, cache1) = Evaluator env pos pawnCache
      in (m_final ev * (if toMove pos = Black then - 1 else 1) + ev_Tempo env, cache1))"

subsection \<open>What the spec says about evaluation and pawn cache\<close>

text \<open>The sum of the terms of one side.\<close>

definition sideTotal :: "EvalData \<Rightarrow> TaperedScore" where
  "sideTotal d =
     \<lparr>midgame = midgame (e_pawnStructure d) + midgame (e_pawns d) + midgame (e_knights d)
         + midgame (e_bishops d) + midgame (e_rooks d) + midgame (e_queens d) + midgame (e_kings d)
         + midgame (e_mobility d) + midgame (e_hanging d) + midgame (e_pinned d)
         + midgame (e_kingSafety d),
      endgame = endgame (e_pawnStructure d) + endgame (e_pawns d) + endgame (e_knights d)
         + endgame (e_bishops d) + endgame (e_rooks d) + endgame (e_queens d) + endgame (e_kings d)
         + endgame (e_mobility d) + endgame (e_hanging d) + endgame (e_pinned d)
         + endgame (e_kingSafety d)\<rparr>"

text \<open>
  The steps of section 4.6 applied to a tapered total: interpolate by phase, scale by the
  halfmove clock, divide by 8 when the position is likely drawn, turn to the side to move,
  add the tempo.
\<close>

definition taperedToScore :: "EvalEnv \<Rightarrow> Position \<Rightarrow> TaperedScore \<Rightarrow> Score" where
  "taperedToScore env pos tot =
     (let phase = s_phase (currState pos);
          interpolated = (midgame tot * phase + endgame tot * (24 - phase)) sdiv 24;
          scaled = (interpolated * (200 - int (halfmove pos))) sdiv 200;
          drawish = (if isLikelyDrawn pos then scaled sdiv 8 else scaled)
      in drawish * (if toMove pos = Black then - 1 else 1) + ev_Tempo env)"

text \<open>
  An entry holds what \<open>evalPawnStructure\<close> computes for a position: the difference of the two
  pawn-structure scores and the union of the two passer boards.
\<close>

definition entryMatches :: "Position \<Rightarrow> PawnCacheEntry \<Rightarrow> bool" where
  "entryMatches pos e \<longleftrightarrow>
     (let bw = bothPawnStructures pos (setupData pos)
      in pc_eval e = ts_sub (e_pawnStructure (snd bw)) (e_pawnStructure (fst bw))
         \<and> pc_passers e = e_passers (fst bw) OR e_passers (snd bw))"

text \<open>
  The invariant of the loops of \<open>evalPawnStructure\<close>: the data differ from what the call
  was given only in the pawn-structure score and in passers added among the own pawns.
\<close>

definition psFrame :: "Bitboard \<Rightarrow> EvalData \<Rightarrow> EvalData \<Rightarrow> bool" where
  "psFrame ourPawns ours d \<longleftrightarrow>
     (\<exists>ps X. d = ours\<lparr>e_pawnStructure := ps, e_passers := e_passers ours OR X\<rparr> \<and> X AND NOT ourPawns = 0)"


section \<open>Win-rate model (uci.cpp)\<close>

text \<open>
  \<open>winRateModel\<close> computes on \<open>f64\<close>; the model computes on the reals, the coefficients being
  the decimal numbers written in the source. \<open>std::reduce\<close> without an initial value starts
  from \<open>0.0\<close>, and \<open>static_cast<i32>\<close> of a floating-point value drops the fraction.
\<close>

definition As :: "real list" where
  "As = [- 16.47359643, 125.09292680, - 150.78265049, 133.46169058]"

definition Bs :: "real list" where
  "Bs = [- 10.64392182, 68.80469735, - 98.63536151, 100.12391368]"

definition reduce :: "real list \<Rightarrow> real" where
  "reduce xs = foldl (+) 0 xs"

definition static_cast_i32 :: "real \<Rightarrow> int" where
  "static_cast_i32 x = (if 0 \<le> x then \<lfloor>x\<rfloor> else \<lceil>x\<rceil>)"

text \<open>
  The \<open>static_assert\<close> at the head of \<open>winRateModel\<close>, as a condition on the value that
  \<open>uci.h\<close> (not among the sources) gives \<open>uci::NormalizationK\<close>: the program compiles only
  when it holds.
\<close>

definition NormalizationK_assert :: "int \<Rightarrow> bool" where
  "NormalizationK_assert K \<longleftrightarrow> K = static_cast_i32 (reduce As)"

definition polyArg :: "nat \<Rightarrow> real" where
  "polyArg ply = min 240 (real ply) / 64"

definition cubic :: "real list \<Rightarrow> real \<Rightarrow> real" where
  "cubic cs m = (((cs ! 0 * m + cs ! 1) * m + cs ! 2) * m) + cs ! 3"

definition clamp :: "real \<Rightarrow> real \<Rightarrow> real \<Rightarrow> real" where
  "clamp x lo hi = (if x < lo then lo else if hi < x then hi else x)"

definition winRateModel :: "Score \<Rightarrow> nat \<Rightarrow> int" where
  "winRateModel povScore ply =
     (let m = polyArg ply;
          a = cubic As m;
          b = cubic Bs m;
          x = clamp (real_of_int povScore) (- 4000) 4000
      in static_cast_i32 (0.5 + 1000 / (1 + exp ((a - x) / b))))"

subsection \<open>What the spec says about the win-rate model\<close>

text \<open>
  Spec, score output: two cubic polynomials in \<open>min(ply, 240) / 64\<close> give the centre and the
  width of a sigmoid. Written out in powers of the argument, with the coefficients of the
  source from the cubic term down.
\<close>

definition centrePoly :: "real \<Rightarrow> real" where
  "centrePoly m = - 16.47359643 * m ^ 3 + 125.09292680 * m ^ 2 - 150.78265049 * m + 133.46169058"

definition widthPoly :: "real \<Rightarrow> real" where
  "widthPoly m = - 10.64392182 * m ^ 3 + 68.80469735 * m ^ 2 - 98.63536151 * m + 100.12391368"

definition plyArg :: "nat \<Rightarrow> real" where
  "plyArg ply = real (min ply 240) / 64"

section \<open>Example positions\<close>

text \<open>
  King and bishop against king and bishop: white king e1, white bishop c1 (a dark square),
  black king e8, black bishop c8 (a light square); white to move, no earlier positions.
\<close>

definition kbkb_boards :: PositionBoards where
  "kbkb_boards =
     \<lparr>m_colors = (\<lambda>c. case c of Black \<Rightarrow> 0x1400000000000000 | White \<Rightarrow> 0x14),
      m_boards = (\<lambda>p. case p of Bishop \<Rightarrow> 0x0400000000000004 | King \<Rightarrow> 0x1000000000000010 | _ \<Rightarrow> 0)\<rparr>"

definition kbkb_state :: BoardState where
  "kbkb_state =
     \<lparr>s_boards = kbkb_boards, s_key = 1, s_pawnKey = 0,
      s_material = \<lparr>midgame = 0, endgame = 0\<rparr>, s_checkers = 0, s_phase = 2,
      s_castlingRooks = \<lparr>blackShort = Square_None, blackLong = Square_None,
                         whiteShort = Square_None, whiteLong = Square_None\<rparr>,
      s_lastMove = NullMove, s_halfmove = 0, s_captured = NoPiece, s_enPassant = Square_None,
      s_kings = (\<lambda>c. case c of Black \<Rightarrow> 60 | White \<Rightarrow> 4)\<rparr>"

definition kbkb_pos :: Position where
  "kbkb_pos = \<lparr>m_blackToMove = False, m_fullmove = 1, m_states = [kbkb_state], m_hashes = []\<rparr>"

text \<open>
  A double check: white king e1 and pawn c2; black king h8, rook e8 and knight d3, both
  attacking e1; white to move.
\<close>

definition dc_boards :: PositionBoards where
  "dc_boards =
     \<lparr>m_colors = (\<lambda>c. case c of Black \<Rightarrow> 0x9000000000080000 | White \<Rightarrow> 0x0410),
      m_boards = (\<lambda>p. case p of Pawn \<Rightarrow> 0x0400 | Knight \<Rightarrow> 0x080000 | Rook \<Rightarrow> 0x1000000000000000
                           | King \<Rightarrow> 0x8000000000000010 | _ \<Rightarrow> 0)\<rparr>"

definition dc_state :: BoardState where
  "dc_state =
     \<lparr>s_boards = dc_boards, s_key = 1, s_pawnKey = 0,
      s_material = \<lparr>midgame = 0, endgame = 0\<rparr>, s_checkers = 0x1000000000080000, s_phase = 3,
      s_castlingRooks = \<lparr>blackShort = Square_None, blackLong = Square_None,
                         whiteShort = Square_None, whiteLong = Square_None\<rparr>,
      s_lastMove = NullMove, s_halfmove = 0, s_captured = NoPiece, s_enPassant = Square_None,
      s_kings = (\<lambda>c. case c of Black \<Rightarrow> 63 | White \<Rightarrow> 4)\<rparr>"

definition dc_pos :: Position where
  "dc_pos = \<lparr>m_blackToMove = False, m_fullmove = 1, m_states = [dc_state], m_hashes = []\<rparr>"

definition std_opts :: GlobalOptions where
  "std_opts = \<lparr>chess960 = False, underpromotions = False\<rparr>"

text \<open>
  A single check with a capturing promotion: white king a1 and pawn b7; black king h8 and
  rook a8, which checks along the empty a-file; white to move.
\<close>

definition up_boards :: PositionBoards where
  "up_boards =
     \<lparr>m_colors = (\<lambda>c. case c of Black \<Rightarrow> 0x8100000000000000 | White \<Rightarrow> 0x0002000000000001),
      m_boards = (\<lambda>p. case p of Pawn \<Rightarrow> 0x0002000000000000 | Rook \<Rightarrow> 0x0100000000000000
                           | King \<Rightarrow> 0x8000000000000001 | _ \<Rightarrow> 0)\<rparr>"

definition up_state :: BoardState where
  "up_state =
     \<lparr>s_boards = up_boards, s_key = 1, s_pawnKey = 0,
      s_material = \<lparr>midgame = 0, endgame = 0\<rparr>, s_checkers = 0x0100000000000000, s_phase = 2,
      s_castlingRooks = \<lparr>blackShort = Square_None, blackLong = Square_None,
                         whiteShort = Square_None, whiteLong = Square_None\<rparr>,
      s_lastMove = NullMove, s_halfmove = 0, s_captured = NoPiece, s_enPassant = Square_None,
      s_kings = (\<lambda>c. case c of Black \<Rightarrow> 63 | White \<Rightarrow> 0)\<rparr>"

definition up_pos :: Position where
  "up_pos = \<lparr>m_blackToMove = False, m_fullmove = 1, m_states = [up_state], m_hashes = []\<rparr>"

text \<open>
  A single check with an unrelated capture: white king e1 and pawn b2; black king g8, rook
  e8, which checks along the empty e-file, and knight a3; white to move.
\<close>

definition sc_boards :: PositionBoards where
  "sc_boards =
     \<lparr>m_colors = (\<lambda>c. case c of Black \<Rightarrow> 0x5000000000010000 | White \<Rightarrow> 0x0210),
      m_boards = (\<lambda>p. case p of Pawn \<Rightarrow> 0x0200 | Knight \<Rightarrow> 0x010000 | Rook \<Rightarrow> 0x1000000000000000
                           | King \<Rightarrow> 0x4000000000000010 | _ \<Rightarrow> 0)\<rparr>"

definition sc_state :: BoardState where
  "sc_state =
     \<lparr>s_boards = sc_boards, s_key = 1, s_pawnKey = 0,
      s_material = \<lparr>midgame = 0, endgame = 0\<rparr>, s_checkers = 0x1000000000000000, s_phase = 3,
      s_castlingRooks = \<lparr>blackShort = Square_None, blackLong = Square_None,
                         whiteShort = Square_None, whiteLong = Square_None\<rparr>,
      s_lastMove = NullMove, s_halfmove = 0, s_captured = NoPiece, s_enPassant = Square_None,
      s_kings = (\<lambda>c. case c of Black \<Rightarrow> 62 | White \<Rightarrow> 4)\<rparr>"

definition sc_pos :: Position where
  "sc_pos = \<lparr>m_blackToMove = False, m_fullmove = 1, m_states = [sc_state], m_hashes = []\<rparr>"

text \<open>
  A quiet middle game fragment: white king e1 and knight f3; black king e8, rook d8 and pawn
  e5; white to move, not in check. The only capture is Nf3xe5, of an undefended pawn.
\<close>

definition cm_boards :: PositionBoards where
  "cm_boards =
     \<lparr>m_colors = (\<lambda>c. case c of Black \<Rightarrow> 0x1800001000000000 | White \<Rightarrow> 0x200010),
      m_boards = (\<lambda>p. case p of Pawn \<Rightarrow> 0x1000000000 | Knight \<Rightarrow> 0x200000 | Rook \<Rightarrow> 0x0800000000000000
                           | King \<Rightarrow> 0x1000000000000010 | _ \<Rightarrow> 0)\<rparr>"

definition cm_state :: BoardState where
  "cm_state =
     \<lparr>s_boards = cm_boards, s_key = 1, s_pawnKey = 0,
      s_material = \<lparr>midgame = 0, endgame = 0\<rparr>, s_checkers = 0, s_phase = 3,
      s_castlingRooks = \<lparr>blackShort = Square_None, blackLong = Square_None,
                         whiteShort = Square_None, whiteLong = Square_None\<rparr>,
      s_lastMove = Move_standard 56 59, s_halfmove = 1, s_captured = NoPiece,
      s_enPassant = Square_None,
      s_kings = (\<lambda>c. case c of Black \<Rightarrow> 60 | White \<Rightarrow> 4)\<rparr>"

definition cm_pos :: Position where
  "cm_pos = \<lparr>m_blackToMove = False, m_fullmove = 1, m_states = [cm_state], m_hashes = []\<rparr>"

text \<open>
  An environment for that position: illustrative piece values; \<open>see\<close> and \<open>isPseudolegal\<close>
  answer for the one move they are asked about, Nf3xe5 (the pawn is undefended, and the noisy
  generator emits the move), and reject everything else.
\<close>

definition ex_pieceValue :: "Piece \<Rightarrow> TaperedScore" where
  "ex_pieceValue p =
     (case p of
        NoPiece \<Rightarrow> \<lparr>midgame = 0, endgame = 0\<rparr>
      | ColorPiece bp c \<Rightarrow>
          (case bp of Pawn \<Rightarrow> \<lparr>midgame = 100, endgame = 100\<rparr>
                    | Knight \<Rightarrow> \<lparr>midgame = 320, endgame = 320\<rparr>
                    | Bishop \<Rightarrow> \<lparr>midgame = 330, endgame = 330\<rparr>
                    | Rook \<Rightarrow> \<lparr>midgame = 500, endgame = 500\<rparr>
                    | Queen \<Rightarrow> \<lparr>midgame = 900, endgame = 900\<rparr>
                    | King \<Rightarrow> \<lparr>midgame = 0, endgame = 0\<rparr>))"

definition ex_env :: Env where
  "ex_env =
     \<lparr>env_opts = std_opts, env_pieceValue = ex_pieceValue,
      env_valuesPawn = \<lparr>midgame = 100, endgame = 100\<rparr>,
      env_see = (\<lambda>pos m. m = Move_standard 21 36),
      env_isPseudolegal = (\<lambda>pos m. m = Move_standard 21 36),
      env_quiescence = False\<rparr>"

text \<open>
  A history table whose countermove to "black rook arrives on d8" is the knight move f3-e5,
  as stored from an earlier position in which e5 was empty; all history scores are 0.
\<close>

definition cm_prevMove :: HistoryMove where
  "cm_prevMove = \<lparr>hm_moving = ColorPiece Rook Black, hm_dst = 59\<rparr>"

definition cm_history :: HistoryTable where
  "cm_history =
     \<lparr>entry_score = (\<lambda>h. 0),
      entry_countermove = (\<lambda>h. if h = cm_prevMove then Move_standard 21 36 else NullMove),
      contEntry_score = (\<lambda>h h'. 0)\<rparr>"

text \<open>The iterator over that position with no hash move and no killer.\<close>

definition cm_gen :: MoveGenerator where
  "cm_gen = MoveGenerator_init cm_pos NullMove NullMove cm_prevMove HistoryMove_null (Some cm_history)"

text \<open>
  The iterator over that position with the hash move a2-a3 and nothing else: a2 is empty, so
  the move is not pseudo-legal.
\<close>

definition hash_gen :: MoveGenerator where
  "hash_gen = MoveGenerator_init cm_pos NullMove (Move_standard 8 16) HistoryMove_null HistoryMove_null None"

text \<open>
  The same position with a second black pawn on d4, defended by the pawn e5: Nf3xd4 loses the
  knight for a pawn (\<open>see\<close> answers no), Nf3xe5 does not.
\<close>

definition lc_boards :: PositionBoards where
  "lc_boards =
     \<lparr>m_colors = (\<lambda>c. case c of Black \<Rightarrow> 0x1800001008000000 | White \<Rightarrow> 0x200010),
      m_boards = (\<lambda>p. case p of Pawn \<Rightarrow> 0x1008000000 | Knight \<Rightarrow> 0x200000 | Rook \<Rightarrow> 0x0800000000000000
                           | King \<Rightarrow> 0x1000000000000010 | _ \<Rightarrow> 0)\<rparr>"

definition lc_pos :: Position where
  "lc_pos = \<lparr>m_blackToMove = False, m_fullmove = 1,
              m_states = [cm_state\<lparr>s_boards := lc_boards\<rparr>], m_hashes = []\<rparr>"

definition lc_gen :: MoveGenerator where
  "lc_gen = MoveGenerator_init lc_pos NullMove NullMove HistoryMove_null HistoryMove_null None"

text \<open>
  A pawn ending for the evaluator: white Kg1, pawns d4 and e4; black Kg8, pawn a6; white to
  move, halfmove clock 10, phase 0. The distance is the usual one, the larger of the rank and
  the file difference.
\<close>

definition ex_chebyshev :: "Square \<Rightarrow> Square \<Rightarrow> int" where
  "ex_chebyshev a b =
     max \<bar>int (squareRank a) - int (squareRank b)\<bar> \<bar>int (squareFile a) - int (squareFile b)\<bar>"

definition ex_evalEnv :: EvalEnv where
  "ex_evalEnv = \<lparr>ev_Tempo = 16, ev_chebyshev = ex_chebyshev\<rparr>"

definition pe_boards :: PositionBoards where
  "pe_boards =
     \<lparr>m_colors = (\<lambda>c. case c of Black \<Rightarrow> 0x4000010000000000 | White \<Rightarrow> 0x18000040),
      m_boards = (\<lambda>p. case p of Pawn \<Rightarrow> 0x010018000000 | King \<Rightarrow> 0x4000000000000040 | _ \<Rightarrow> 0)\<rparr>"

definition pe_state :: BoardState where
  "pe_state =
     \<lparr>s_boards = pe_boards, s_key = 0x5EED, s_pawnKey = 0x1234,
      s_material = \<lparr>midgame = 82, endgame = 94\<rparr>, s_checkers = 0, s_phase = 0,
      s_castlingRooks = \<lparr>blackShort = 64, blackLong = 64, whiteShort = 64, whiteLong = 64\<rparr>,
      s_lastMove = NullMove, s_halfmove = 10, s_captured = NoPiece, s_enPassant = 64,
      s_kings = (\<lambda>c. case c of Black \<Rightarrow> 62 | White \<Rightarrow> 6)\<rparr>"

definition pe_pos :: Position where
  "pe_pos = \<lparr>m_blackToMove = False, m_fullmove = 40, m_states = [pe_state], m_hashes = []\<rparr>"

text \<open>
  Two caches of 256 slots: an empty one, and one whose slot for the pawn key of the position
  holds that key together with the pawn-structure difference and the passers of the position.
\<close>

definition pe_emptyCache :: PawnCache where
  "pe_emptyCache =
     \<lparr>pc_mask = 0xFF, pc_table = (\<lambda>i. \<lparr>pc_key = 0, pc_eval = ts_zero, pc_passers = 0\<rparr>)\<rparr>"

definition pe_hitCache :: PawnCache where
  "pe_hitCache =
     overwrite pe_emptyCache 0x1234
       \<lparr>pc_key = 0x1234, pc_eval = \<lparr>midgame = - 8, endgame = 94\<rparr>, pc_passers = 0x10018000000\<rparr>"

section \<open>Properties of the generator\<close>

lemma widemul_high_less: "bound \<noteq> 0 \<Longrightarrow> (ucast (drop_bit 32 (widemul x bound)) :: u32) < bound"
proof -
  assume nz: "bound \<noteq> 0"
  have xb: "unat x < 2 ^ 32" using unsigned_less [of x] by simp
  have bb: "unat bound < 2 ^ 32" using unsigned_less [of bound] by simp
  have bpos: "0 < unat bound" using nz by (simp add: unat_gt_0)
  have "unat x * unat bound < 2 ^ 32 * 2 ^ 32"
    using xb bb by (intro mult_strict_mono) simp_all
  then have small: "unat x * unat bound < 2 ^ 64" by simp
  have ux: "unat (ucast x :: u64) = unat x" 
    by (simp add: unsigned_ucast_eq take_bit_nat_eq_self_iff) (use xb in simp)
  have ub: "unat (ucast bound :: u64) = unat bound" 
    by (simp add: unsigned_ucast_eq take_bit_nat_eq_self_iff) (use bb in simp)
  have um: "unat (widemul x bound) = unat x * unat bound"
    using small by (simp add: widemul_def unat_word_ariths ux ub)
  have "unat x * unat bound < 2 ^ 32 * unat bound"
    using xb bpos by simp
  then have q: "unat x * unat bound div 2 ^ 32 < unat bound"
    by (simp add: less_mult_imp_div_less mult.commute)
  have "unat (drop_bit 32 (widemul x bound)) = unat x * unat bound div 2 ^ 32"
    by (simp add: drop_bit_eq_div unat_div um)
  then have d: "unat (drop_bit 32 (widemul x bound)) < unat bound" using q by simp
  then have "unat (drop_bit 32 (widemul x bound)) < 2 ^ 32" using bb by simp
  then have "unat (ucast (drop_bit 32 (widemul x bound)) :: u32) = unat (drop_bit 32 (widemul x bound))"
    by (simp add: unsigned_ucast_eq take_bit_nat_eq_self_iff)
  then show ?thesis using d by (simp add: word_less_nat_alt)
qed

lemma reject_loop_product:
  assumes "reject_loop bound t m r = Some y" 
  shows "(\<exists>x. m = widemul x bound) \<longrightarrow> (\<exists>x. fst y = widemul x bound)"
  by (rule reject_loop.raw_induct [where P = "\<lambda>bound t m r y. (\<exists>x. m = widemul x bound) \<longrightarrow> (\<exists>x. fst y = widemul x bound)", OF _ assms])
     (fastforce split: if_splits prod.splits)

lemma reject_loop_exit:
  assumes "reject_loop bound t m r = Some y" 
  shows "\<not> (ucast (fst y) :: u32) < t"
  by (rule reject_loop.raw_induct [where P = "\<lambda>bound t m r y. \<not> (ucast (fst y) :: u32) < t", OF _ assms])
     (auto split: if_splits prod.splits)

text \<open>
  Claim C10. For every state of the generator, \<open>nextU32(0)\<close> returns 0, and for every
  bound greater than 0, whenever \<open>nextU32(bound)\<close> returns, the value it returns is strictly
  less than the bound.
\<close>

theorem nextU32_bounded_range:
  "nextU32_bounded 0 r = Some (0, r) \<and>
   (0 < bound \<longrightarrow> nextU32_bounded bound r = Some (v, r') \<longrightarrow> v < bound)"
proof (intro conjI impI)
  show "nextU32_bounded 0 r = Some (0, r)"
    by (simp add: nextU32_bounded_def)
next
  assume pos: "0 < bound" and ret: "nextU32_bounded bound r = Some (v, r')"
  have nz: "bound \<noteq> 0" using pos by auto
  obtain x r1 where x: "nextU32 r = (x, r1)" by (cases "nextU32 r")
  show "v < bound"
  proof (cases "(ucast (widemul x bound) :: u32) < bound")
    case True
    then obtain m' where l: "reject_loop bound (threshold bound) (widemul x bound) r1 = Some (m', r')"
      and v: "v = ucast (drop_bit 32 m')"
      using ret nz x by (auto simp: nextU32_bounded_def Let_def split: option.splits)
    from reject_loop_product [OF l] obtain x' where "m' = widemul x' bound" by auto
    then show ?thesis using v widemul_high_less [OF nz] by simp
  next
    case False
    then have "v = ucast (drop_bit 32 (widemul x bound))"
      using ret nz x by (auto simp: nextU32_bounded_def Let_def)
    then show ?thesis using widemul_high_less [OF nz] by simp
  qed
qed

text \<open>
  From the state \<open>(0, 0, 0, 5)\<close> with bound 3000000000 the first draw is 0, which falls below
  the threshold 1294967296, so the rejection loop runs once more before the call returns.
\<close>

theorem nextU32_bounded_range_witness:
  "(0::u32) < 3000000000 \<and>
   nextU32_bounded 3000000000 \<lparr>m_a = 0, m_b = 0, m_c = 0, m_d = 5\<rparr> =
     Some (2999985806, \<lparr>m_a = 687194808320, m_b = 5, m_c = 18446656112779329536,
                             m_d = 18446656799974137856\<rparr>) \<and>
   (2999985806::u32) < 3000000000"
proof -
  have n1: "nextU32 \<lparr>m_a = 0, m_b = 0, m_c = 0, m_d = 5\<rparr> =
      (0, \<lparr>m_a = 0, m_b = 687194767360, m_c = 5, m_d = 0\<rparr>)"
    by code_simp
  have n2: "nextU32 \<lparr>m_a = 0, m_b = 687194767360, m_c = 5, m_d = 0\<rparr> =
      (4294946976, \<lparr>m_a = 687194808320, m_b = 5, m_c = 18446656112779329536,
                     m_d = 18446656799974137856\<rparr>)"
    by code_simp
  have t: "threshold 3000000000 = 1294967296"
    by code_simp
  have m1: "widemul 0 3000000000 = 0" by code_simp
  have m2: "widemul 4294946976 3000000000 = 12884840928000000000" by code_simp
  have l2: "reject_loop 3000000000 1294967296 12884840928000000000
      \<lparr>m_a = 687194808320, m_b = 5, m_c = 18446656112779329536, m_d = 18446656799974137856\<rparr> =
      Some (12884840928000000000, \<lparr>m_a = 687194808320, m_b = 5, m_c = 18446656112779329536, m_d = 18446656799974137856\<rparr>)"
    by (subst reject_loop.simps) simp
  have l1: "reject_loop 3000000000 1294967296 0 \<lparr>m_a = 0, m_b = 687194767360, m_c = 5, m_d = 0\<rparr> =
      Some (12884840928000000000, \<lparr>m_a = 687194808320, m_b = 5, m_c = 18446656112779329536, m_d = 18446656799974137856\<rparr>)"
    by (subst reject_loop.simps) (simp add: n2 m2 l2)
  have e: "nextU32_bounded 3000000000 \<lparr>m_a = 0, m_b = 0, m_c = 0, m_d = 5\<rparr> =
     Some (2999985806, \<lparr>m_a = 687194808320, m_b = 5, m_c = 18446656112779329536,
                             m_d = 18446656799974137856\<rparr>)"
    by (simp add: nextU32_bounded_def n1 m1 t l1)
  have p: "(0::u32) < 3000000000" by simp
  from nextU32_bounded_range [THEN conjunct2, rule_format, OF p e] p e
  show ?thesis by simp
qed


section \<open>Evaluating the model on concrete positions\<close>

text \<open>
  The facts below let the simplifier run the definitions on numerals: the recursion of
  \<open>slide\<close> on a numeral depth, the list of the 64 squares, and the defining equations grouped
  by source file.
\<close>

lemma slide_numeral:
  "slide step occ b (numeral k) =
     (let s = step b in if s = 0 then 0 else if s AND occ \<noteq> 0 then s
      else s OR slide step occ s (pred_numeral k))"
  by (simp add: numeral_eq_Suc)

lemma slide_1:
  "slide step occ b 1 = (let s = step b in if s = 0 then 0 else if s AND occ \<noteq> 0 then s else s)"
  by (simp add: Let_def)

lemma upt_0_64: "[0..<64] = 0 # 1 # [2..<64]"
  by (simp add: upt_rec [of 0] upt_rec [of "Suc 0"] numeral_2_eq_2)

lemmas squares_eval = squares_def [unfolded upt_0_64]

lemmas bb_eval = shiftUp_def shiftDown_def shiftLeft_def shiftRight_def shiftUpLeft_def
  shiftUpRight_def shiftDownLeft_def shiftDownRight_def FileA_def FileH_def fromSquare_def
  squares_eval popcount_def multiple_def lowestSquare_def Square_None_def
  Rank1_def Rank3_def Rank6_def Rank8_def LightSquares_def DarkSquares_def
  fillUp_def fillDown_def fillFile_def squareRank_def squareFile_def toSquare_def Files_def squareBit_def

lemmas boards_eval = forColor_def forPiece_def forPieceOf_def blackOccupancy_def whiteOccupancy_def
  occupancyOf_def occupancy_def pawns_def knights_def bishops_def rooks_def queens_def kings_def
  blackPawns_def whitePawns_def blackKnights_def whiteKnights_def blackBishops_def whiteBishops_def
  blackRooks_def whiteRooks_def blackQueens_def whiteQueens_def blackKings_def whiteKings_def
  minors_def blackMinors_def whiteMinors_def majors_def nonPk_def blackNonPk_def whiteNonPk_def
  pieceAt_def boards_wf_def

lemmas pos_eval = currState_def boards_def toMove_def opponent_def castlingRooks_def enPassant_def
  material_def halfmove_def key_def pawnKey_def king_def blackKing_def whiteKing_def checkers_def
  isCheck_def

lemmas attacks_eval = KingAttacks_def KnightAttacks_def getPawnAttacks_def slide_numeral slide_1
  getRookAttacks_def getBishopAttacks_def getQueenAttacks_def rayTowards_def rayBetween_def
  attackersTo_def isAttacked_def anyAttacked_def calcCheckers_def

lemmas movegen_eval = srcOf_def pushStandardsOff_def pushStandards_def pushQueenPromotions_def
  pushUnderpromotions_def pushCastling_def pushEnPassants_def generatePawnsNoisyFor_def
  generatePawnsNoisy_def generatePawnsQuietFor_def generatePawnsQuiet_def precalculated_def
  generateKnights_def generateFrcCastling_def generateCastling_def generateKings_def
  generateSliders_def generateNoisy_def generateQuiet_def generateAll_def
  Move_standard_def Move_promotion_def Move_castling_def Move_enPassant_def NullMove_def
  emitted_def newNoisy_def newQuiet_def ownPieces_def enemyPieces_def ownKings_def ownPawns_def
  checkRay_def epPawnOf_def singleCheck_def
  sq_A1_def sq_C1_def sq_D1_def sq_F1_def sq_G1_def sq_H1_def
  sq_A8_def sq_C8_def sq_D8_def sq_F8_def sq_G8_def sq_H8_def

lemmas example_eval = up_pos_def up_state_def up_boards_def sc_pos_def sc_state_def sc_boards_def
  dc_pos_def dc_state_def dc_boards_def kbkb_pos_def kbkb_state_def kbkb_boards_def std_opts_def

lemmas movegen_all_eval = bb_eval boards_eval pos_eval attacks_eval movegen_eval example_eval Let_def


lemmas movepick_eval = HistoryMove_null_def historyMove_ok_def Stage_Start_def Stage_Hash_def
  Stage_GoodNoisy_def Stage_Killer_def Stage_Countermove_def Stage_Quiet_def Stage_BadNoisy_def
  Stage_End_def MoveGenerator_init_def PromoScores_def scoreNoisyMove_def scoreNoisy_def
  HistoryMove_from_def scoreQuietMove_def scoreQuiet_def stable_sort_desc_def genNoisy_def
  genQuiet_def findBest_def findNext_def move_ok_def
  cm_pos_def cm_state_def cm_boards_def ex_pieceValue_def ex_env_def cm_prevMove_def
  cm_history_def cm_gen_def hash_gen_def lc_pos_def lc_boards_def lc_gen_def

lemmas eval_eval = S_def DoubledPawn_def DoubledGappedPawn_def PawnDefender_def OpenPawn_def
  PawnPhalanx_def Passer_def DefendedPasser_def BlockedPasser_def CandidatePasser_def
  DoubledPasser_def PasserHelper_def PawnAttackingMinor_def PawnAttackingRook_def
  PawnAttackingQueen_def PasserSquareRule_def MinorBehindPawn_def MinorAttackingRook_def
  MinorAttackingQueen_def KnightOutpost_def BishopPair_def RookOnOpenFile_def
  RookOnSemiOpenFile_def RookSupportingPasser_def RookAttackingQueen_def KingOnOpenFile_def
  KingOnSemiOpenFile_def KnightMobility_def BishopMobility_def RookMobility_def
  QueenMobility_def AntiPasserMasks_def PawnHelperMasks_def probe_def overwrite_def
  EvalData_init_def add_pawnStructure_def add_pawns_def add_knights_def add_bishops_def
  add_rooks_def add_kings_def add_mobility_def pawnStructureStep_def evalPawnStructure_def
  pawnsStep_def evalPawns_def knightsStep_def evalKnights_def bishopsStep_def evalBishops_def
  rooksStep_def evalRooks_def queensStep_def evalQueens_def evalKing_def
  evalHangingAndPinned_def evalKingSafety_def setupData_def bothPawnStructures_def
  pawnStructureBlock_def pieceTerms_def sumTotal_def Evaluator_def staticEval_def
  sideTotal_def taperedToScore_def entryMatches_def interpScore_def isLikelyDrawn_def
  ts_add_def ts_sub_def ts_scale_def ts_zero_def
  ex_chebyshev_def ex_evalEnv_def pe_boards_def pe_state_def pe_pos_def pe_emptyCache_def
  pe_hitCache_def

section \<open>Bitboard facts\<close>

lemma squares_bit: "sq \<in> set (squares b) \<longleftrightarrow> bit b sq"
  by (auto simp: squares_def dest: bit_imp_le_length)

lemma popcount_0: "popcount b = 0 \<longleftrightarrow> b = 0"
proof
  assume "popcount b = 0"
  then have "squares b = []" by (simp add: popcount_def)
  then have "\<And>n. \<not> bit b n" using squares_bit [of _ b] by simp
  then show "b = 0" by (simp add: bit_eq_iff)
next
  assume "b = 0" then show "popcount b = 0" by (simp add: popcount_def squares_def)
qed

lemma length_filter_disj:
  "(\<And>x. x \<in> set xs \<Longrightarrow> \<not> (P x \<and> Q x)) \<Longrightarrow>
   length (filter (\<lambda>x. P x \<or> Q x) xs) = length (filter P xs) + length (filter Q xs)"
  by (induction xs) auto

lemma popcount_OR: "x AND y = 0 \<Longrightarrow> popcount (x OR y) = popcount x + popcount y"
proof -
  assume d: "x AND y = 0"
  have "\<And>n. \<not> (bit x n \<and> bit y n)"
  proof
    fix n assume "bit x n \<and> bit y n"
    then have "bit (x AND y) n" by (simp add: bit_and_iff)
    then show False using d by simp
  qed
  moreover have "bit (x OR y) = (\<lambda>n. bit x n \<or> bit y n)"
    by (simp add: fun_eq_iff bit_or_iff)
  ultimately show ?thesis
    by (simp add: popcount_def squares_def length_filter_disj)
qed

lemma bit_fromSquare: "bit (fromSquare sq) n \<longleftrightarrow> n = sq \<and> sq < 64"
  by (auto simp: fromSquare_def bit_exp_iff possible_bit_word)

lemma filter_single_upt:
  "filter P [0..<n] = [sq] \<Longrightarrow> sq < n \<and> P sq \<and> (\<forall>m<n. P m \<longrightarrow> m = sq)"
proof -
  assume a: "filter P [0..<n] = [sq]"
  have "set (filter P [0..<n]) = {sq}" using a by simp
  then have "{m. m < n \<and> P m} = {sq}" by (auto simp: set_filter)
  then show ?thesis by blast
qed

lemma popcount_1:
  assumes "popcount b = 1"
  shows "lowestSquare b < 64 \<and> b = fromSquare (lowestSquare b)"
proof -
  obtain sq where s: "squares b = [sq]"
    using assms by (auto simp: popcount_def length_Suc_conv)
  then have l: "lowestSquare b = sq" by (simp add: lowestSquare_def)
  from s have f: "sq < 64 \<and> bit b sq \<and> (\<forall>m<64. bit b m \<longrightarrow> m = sq)"
    unfolding squares_def by (rule filter_single_upt)
  have "b = fromSquare sq"
  proof (rule bit_eqI)
    fix n show "bit b n \<longleftrightarrow> bit (fromSquare sq) n"
      using f bit_imp_le_length [of b n] by (auto simp: bit_fromSquare)
  qed
  then show ?thesis using l f by simp
qed

lemma LightSquares_all: "list_all (\<lambda>sq. bit LightSquares sq = lightSquare sq) [0..<64]"
  by code_simp

lemma bit_LightSquares: "sq < 64 \<Longrightarrow> bit LightSquares sq \<longleftrightarrow> lightSquare sq"
  using LightSquares_all by (simp add: list_all_iff)


section \<open>Draw detection\<close>

lemma scanHashes_count: "1 \<le> n \<Longrightarrow> scanHashes xs k n \<longleftrightarrow> n \<le> int (count_list xs k)"
  by (induction xs arbitrary: n) auto

lemma count_list_rev: "count_list (rev xs) k = count_list xs k"
  by (induction xs) auto

lemma and_subset_split:
  fixes x :: Bitboard
  assumes "x AND (bl OR wh) = x"
  shows "x = 0 \<longleftrightarrow> x AND bl = 0 \<and> x AND wh = 0"
proof
  assume "x = 0" then show "x AND bl = 0 \<and> x AND wh = 0" by simp
next
  assume a: "x AND bl = 0 \<and> x AND wh = 0"
  have "x AND (bl OR wh) = (x AND bl) OR (x AND wh)" by (simp add: bit.conj_disj_distrib)
  then show "x = 0" using a assms by simp
qed

lemma single_light:
  assumes "popcount x = 1"
  shows "x AND LightSquares = 0 \<longleftrightarrow> \<not> lightSquare (lowestSquare x)"
proof -
  from popcount_1 [OF assms] have l: "lowestSquare x < 64" and e: "x = fromSquare (lowestSquare x)"
    by simp_all
  have "fromSquare (lowestSquare x) AND LightSquares = 0 \<longleftrightarrow> \<not> bit LightSquares (lowestSquare x)"
  proof
    assume z: "fromSquare (lowestSquare x) AND LightSquares = 0"
    show "\<not> bit LightSquares (lowestSquare x)"
    proof
      assume "bit LightSquares (lowestSquare x)"
      then have "bit (fromSquare (lowestSquare x) AND LightSquares) (lowestSquare x)"
        using l by (simp add: bit_and_iff bit_fromSquare)
      then show False using z by simp
    qed
  next
    assume n: "\<not> bit LightSquares (lowestSquare x)"
    show "fromSquare (lowestSquare x) AND LightSquares = 0"
      by (rule bit_eqI) (use n in \<open>auto simp: bit_and_iff bit_fromSquare\<close>)
  qed
  then show ?thesis using e l bit_LightSquares by metis
qed

lemma and_absorb6:
  fixes x :: Bitboard
  assumes "u = a OR c OR d OR e OR f OR g" and "x \<in> {a, c, d, e, f, g}"
  shows "x AND u = x"
  using assms by (auto simp: bit_eq_iff bit_and_iff bit_or_iff)

lemma and_distrib_disj:
  fixes x y m :: Bitboard
  assumes "x AND y = 0"
  shows "popcount ((x OR y) AND m) = popcount (x AND m) + popcount (y AND m)"
proof -
  have "(x AND m) AND (y AND m) = (x AND y) AND m"
    by (simp add: ac_simps)
  then have d: "(x AND m) AND (y AND m) = 0" using assms by simp
  have "(x OR y) AND m = (x AND m) OR (y AND m)"
    by (simp add: bit.conj_disj_distrib2)
  then show ?thesis using popcount_OR [OF d] by simp
qed

lemma and_eq_part:
  fixes x y m :: Bitboard
  assumes "x AND y = 0"
  shows "(x OR y) AND m = y AND m \<longleftrightarrow> x AND m = 0"
proof
  assume e: "(x OR y) AND m = y AND m"
  show "x AND m = 0"
  proof (rule bit_eqI)
    fix n
    have "bit ((x OR y) AND m) n = bit (y AND m) n" using e by simp
    moreover have "\<not> (bit x n \<and> bit y n)"
    proof
      assume "bit x n \<and> bit y n"
      then have "bit (x AND y) n" by (simp add: bit_and_iff)
      then show False using assms by simp
    qed
    ultimately show "bit (x AND m) n = bit (0 :: Bitboard) n"
      by (auto simp: bit_and_iff bit_or_iff)
  qed
next
  assume z: "x AND m = 0"
  have "(x OR y) AND m = (x AND m) OR (y AND m)"
    by (simp add: bit.conj_disj_distrib2)
  then show "(x OR y) AND m = y AND m" using z by simp
qed

lemma material_logic:
  fixes nb bb nw bw :: nat
  assumes l1: "bb = 1 \<Longrightarrow> LB \<longleftrightarrow> \<not> lb" and l2: "bw = 1 \<Longrightarrow> LW \<longleftrightarrow> \<not> lw"
    and z1: "bb = 0 \<Longrightarrow> LB" and z2: "bw = 0 \<Longrightarrow> LW"
  shows "(nb + bb + nw + bw = 0
          \<or> (nb + bb = 0 \<and> \<not> 1 < nw + bw) \<or> (nw + bw = 0 \<and> \<not> 1 < nb + bb)
          \<or> ((nb = 0 \<and> nw = 0) \<and> \<not> 1 < bb \<and> \<not> 1 < bw \<and> LB \<noteq> LW))
     \<longleftrightarrow> ((nb + bb = 0 \<and> nw + bw = 0)
          \<or> (nb + bb = 0 \<and> nw + bw = 1 \<or> nw + bw = 0 \<and> nb + bb = 1)
          \<or> (nb = 0 \<and> nw = 0 \<and> bb = 1 \<and> bw = 1 \<and> lb \<noteq> lw))"
proof -
  consider "bb = 0" | "bb = 1" | "1 < bb" by linarith
  then show ?thesis
  proof cases
    case 1
    consider "bw = 0" | "bw = 1" | "1 < bw" by linarith
    then show ?thesis using 1 z1 z2 l2 by cases auto
  next
    case 2
    consider "bw = 0" | "bw = 1" | "1 < bw" by linarith
    then show ?thesis using 2 z2 l1 l2 by cases auto
  next
    case 3
    then show ?thesis by auto
  qed
qed

text \<open>
  Claim C5. For every position, \<open>isDrawn(threefold)\<close> returns true if and only if the halfmove
  clock is at least 100, or the position's key has occurred (threefold ? 3 : 2) times in the
  game history counting the current position, or the remaining material is exactly KK, a lone
  minor piece against a bare king, or KBKB with the two bishops on squares of opposite colours.
  The boards are taken to satisfy the invariants of \<open>PositionBoards\<close>.
\<close>

theorem isDrawn_iff:
  assumes wf: "boards_wf (boards pos)"
  shows "isDrawn pos threefold \<longleftrightarrow>
     (100 \<le> halfmove pos \<or> (if threefold then 3 else 2) \<le> keyOccurrences pos
      \<or> insufficientMaterial (boards pos))"
proof -
  define b where "b = boards pos"
  define P where "P = m_boards b Pawn"
  define N where "N = m_boards b Knight"
  define B where "B = m_boards b Bishop"
  define R where "R = m_boards b Rook"
  define Q where "Q = m_boards b Queen"
  define K where "K = m_boards b King"
  define bl where "bl = m_colors b Black"
  define wh where "wh = m_colors b White"
  note defs = P_def N_def B_def R_def Q_def K_def bl_def wh_def
  have dNB: "N AND B = 0" and un: "bl OR wh = P OR N OR B OR R OR Q OR K"
    using wf by (simp_all add: boards_wf_def b_def defs)
  have sub: "x AND (bl OR wh) = x" if "x \<in> {P, N, B, R, Q, K}" for x
    using and_absorb6 [OF un that] .
  have zero: "x = 0 \<longleftrightarrow> popcount (x AND bl) = 0 \<and> popcount (x AND wh) = 0"
    if "x \<in> {P, N, B, R, Q, K}" for x
    using and_subset_split [OF sub [OF that]] by (simp add: popcount_0)
  define nb where "nb = popcount (N AND bl)"
  define bb where "bb = popcount (B AND bl)"
  define nw where "nw = popcount (N AND wh)"
  define bw where "bw = popcount (B AND wh)"
  note cnt = nb_def bb_def nw_def bw_def
  have rep: "scanHashes (rev (m_hashes pos)) (key pos) (if threefold then 2 else 1)
      \<longleftrightarrow> (if threefold then 3 else 2) \<le> keyOccurrences pos"
    by (simp add: scanHashes_count count_list_rev keyOccurrences_def)
  have om: "onlyMinors b \<longleftrightarrow> P = 0 \<and> R = 0 \<and> Q = 0"
    using zero [of P] zero [of R] zero [of Q]
    by (auto simp: onlyMinors_def pieceCount_def forPieceOf_def forColor_def defs)
  have pm: "pawns b \<noteq> 0 \<or> majors b \<noteq> 0 \<longleftrightarrow> \<not> onlyMinors b"
    by (auto simp: om pawns_def majors_def rooks_def queens_def forPiece_def defs or_eq_0_iff)
  have mcB: "minorCount b Black = nb + bb" and mcW: "minorCount b White = nw + bw"
    by (simp_all add: minorCount_def pieceCount_def forPieceOf_def forColor_def defs cnt)
  have pcs: "pieceCount b Knight Black = nb" "pieceCount b Knight White = nw"
      "pieceCount b Bishop Black = bb" "pieceCount b Bishop White = bw"
    by (simp_all add: pieceCount_def forPieceOf_def forColor_def defs cnt)
  have fp: "forPieceOf b Bishop Black = B AND bl" "forPieceOf b Bishop White = B AND wh"
    by (simp_all add: forPieceOf_def forColor_def defs)
  show ?thesis
  proof (cases "onlyMinors b")
    case False
    then have "\<not> insufficientMaterial b"
      by (simp add: insufficientMaterial_def material_KK_def material_KminorK_def material_KBKB_opposite_def)
    then show ?thesis using False pm rep
      by (simp add: isDrawn_def b_def [symmetric] Let_def)
  next
    case True
    then have PRQ: "P = 0" "R = 0" "Q = 0" using om by simp_all
    have np: "nonPk b = N OR B"
      using PRQ by (simp add: nonPk_def minors_def majors_def knights_def bishops_def rooks_def queens_def forPiece_def defs)
    have c1: "nonPk b = 0 \<longleftrightarrow> nb + bb + nw + bw = 0"
      using zero [of N] zero [of B] by (auto simp: np cnt or_eq_0_iff)
    have bN: "blackNonPk b = (N OR B) AND bl" "whiteNonPk b = (N OR B) AND wh"
      "blackMinors b = (N OR B) AND bl" "whiteMinors b = (N OR B) AND wh"
      "blackBishops b = B AND bl" "whiteBishops b = B AND wh"
      by (simp_all add: blackNonPk_def whiteNonPk_def blackMinors_def whiteMinors_def np minors_def
          knights_def bishops_def forPiece_def blackOccupancy_def whiteOccupancy_def
          blackBishops_def whiteBishops_def defs)
    have pB: "popcount ((N OR B) AND bl) = nb + bb" and pW: "popcount ((N OR B) AND wh) = nw + bw"
      using and_distrib_disj [OF dNB] by (simp_all add: cnt)
    have e1: "(N OR B) AND bl = 0 \<longleftrightarrow> nb + bb = 0" and e2: "(N OR B) AND wh = 0 \<longleftrightarrow> nw + bw = 0"
      using pB pW popcount_0 by metis+
    have e3: "(N OR B) AND bl = B AND bl \<longleftrightarrow> nb = 0" and e4: "(N OR B) AND wh = B AND wh \<longleftrightarrow> nw = 0"
      using and_eq_part [OF dNB] by (simp_all add: cnt popcount_0)
    have l1: "bb = 1 \<Longrightarrow> (B AND bl) AND LightSquares = 0 \<longleftrightarrow> \<not> lightSquare (lowestSquare (B AND bl))"
      and l2: "bw = 1 \<Longrightarrow> (B AND wh) AND LightSquares = 0 \<longleftrightarrow> \<not> lightSquare (lowestSquare (B AND wh))"
      using single_light by (simp_all add: cnt)
    have z1: "bb = 0 \<Longrightarrow> (B AND bl) AND LightSquares = 0" and z2: "bw = 0 \<Longrightarrow> (B AND wh) AND LightSquares = 0"
      by (simp_all add: cnt popcount_0)
    have code: "isDrawn pos threefold \<longleftrightarrow>
      (100 \<le> halfmove pos \<or> (if threefold then 3 else 2) \<le> keyOccurrences pos \<or>
       (nb + bb + nw + bw = 0
          \<or> (nb + bb = 0 \<and> \<not> 1 < nw + bw) \<or> (nw + bw = 0 \<and> \<not> 1 < nb + bb)
          \<or> ((nb = 0 \<and> nw = 0) \<and> \<not> 1 < bb \<and> \<not> 1 < bw
              \<and> ((B AND bl) AND LightSquares = 0) \<noteq> ((B AND wh) AND LightSquares = 0))))"
      using True pm rep
      by (simp add: isDrawn_def b_def [symmetric] Let_def c1 bN e1 e2 e3 e4 multiple_def pB pW)
         (auto simp: cnt)
    have spec: "insufficientMaterial b \<longleftrightarrow>
       ((nb + bb = 0 \<and> nw + bw = 0)
          \<or> (nb + bb = 0 \<and> nw + bw = 1 \<or> nw + bw = 0 \<and> nb + bb = 1)
          \<or> (nb = 0 \<and> nw = 0 \<and> bb = 1 \<and> bw = 1
             \<and> lightSquare (lowestSquare (B AND bl)) \<noteq> lightSquare (lowestSquare (B AND wh))))"
      using True
      by (simp add: insufficientMaterial_def material_KK_def material_KminorK_def
          material_KBKB_opposite_def mcB mcW pcs fp)
    show ?thesis
      unfolding code spec b_def [symmetric]
      using material_logic [OF l1 l2 z1 z2] by simp
  qed
qed


text \<open>
  King and bishop against king and bishop with the bishops on c1 (dark) and c8 (light), no
  earlier positions and a halfmove clock of 0: drawn by material alone.
\<close>

theorem isDrawn_iff_witness:
  "boards_wf (boards kbkb_pos) \<and> isDrawn kbkb_pos False \<and> halfmove kbkb_pos < 100 \<and>
   keyOccurrences kbkb_pos = 1 \<and> insufficientMaterial (boards kbkb_pos)"
proof -
  have wf: "boards_wf (boards kbkb_pos)"
    by (simp add: bb_eval boards_eval pos_eval example_eval)
  have h: "halfmove kbkb_pos < 100" "keyOccurrences kbkb_pos = 1"
    by (simp_all add: pos_eval keyOccurrences_def example_eval)
  have d: "isDrawn kbkb_pos False"
    by (simp add: isDrawn_def bb_eval boards_eval pos_eval example_eval)
  from isDrawn_iff [OF wf, of False] d h show ?thesis using wf by simp
qed

section \<open>Move generation under check\<close>

lemma foldl_pushStandards:
  "foldl (\<lambda>acc s. pushStandards acc s (f s)) ms xs =
   ms @ concat (map (\<lambda>s. map (\<lambda>d. \<lparr>move = Move_standard s d, score = 0\<rparr>) (squares (f s))) xs)"
  by (induction xs arbitrary: ms) (simp_all add: pushStandards_def)

lemma precalculated_moves:
  "\<exists>new. precalculated piece attacks ms pos dstMask = ms @ new \<and>
     (\<forall>m \<in> set new. mtype (move m) = Standard
        \<and> bit (forPieceOf (boards pos) piece (toMove pos)) (src (move m))
        \<and> bit (attacks (src (move m)) AND dstMask) (dst (move m)))"
  unfolding precalculated_def foldl_pushStandards
  by (auto simp: Move_standard_def squares_bit)

lemma multiple_nonzero: "multiple b \<Longrightarrow> b \<noteq> 0"
  by (auto simp: multiple_def popcount_def squares_def)

lemma src_upLeft: "bit (shiftUpLeftRelative us p) d \<Longrightarrow> bit p (srcOf d (offset_upLeft us))"
  by (cases us) (auto simp: shiftUpLeft_def shiftDownLeft_def bit_and_iff bit_push_bit_iff
      bit_drop_bit_eq srcOf_def nat_diff_distrib nat_add_distrib add.commute)

lemma src_upRight: "bit (shiftUpRightRelative us p) d \<Longrightarrow> bit p (srcOf d (offset_upRight us))"
  by (cases us) (auto simp: shiftUpRight_def shiftDownRight_def bit_and_iff bit_push_bit_iff
      bit_drop_bit_eq srcOf_def nat_diff_distrib nat_add_distrib add.commute)

lemma src_up: "bit (shiftUpRelative us p) d \<Longrightarrow> bit p (srcOf d (offset_up us))"
  by (cases us) (auto simp: shiftUp_def shiftDown_def bit_and_iff bit_push_bit_iff
      bit_drop_bit_eq srcOf_def nat_diff_distrib nat_add_distrib add.commute)

lemma src_up2:
  "bit (shiftUpRelative us ((shiftUpRelative us p AND x) AND y)) d \<Longrightarrow> bit p (srcOf d (offset_up us * 2))"
  by (cases us) (auto simp: shiftUp_def shiftDown_def bit_and_iff bit_push_bit_iff
      bit_drop_bit_eq srcOf_def nat_diff_distrib nat_add_distrib add.commute)

subsection \<open>Composing what the generators append\<close>

lemma emits_refl: "emits P ms ms"
  by (simp add: emits_def)

lemma emits_trans: "emits P a b \<Longrightarrow> emits P b c \<Longrightarrow> emits P a c"
  by (fastforce simp: emits_def)

lemma emits_mono: "emits P a b \<Longrightarrow> (\<And>m. P m \<Longrightarrow> Q m) \<Longrightarrow> emits Q a b"
  by (auto simp: emits_def)

lemma emits_emitted: "emits P ms ms' \<Longrightarrow> m \<in> set (emitted ms ms') \<Longrightarrow> P m"
  by (auto simp: emits_def emitted_def)

lemma emits_foldl:
  "(\<And>acc s. s \<in> set xs \<Longrightarrow> emits P acc (f acc s)) \<Longrightarrow> emits P ms (foldl f ms xs)"
proof (induction xs arbitrary: ms)
  case Nil
  then show ?case by (simp add: emits_refl)
next
  case (Cons x xs)
  have "emits P ms (f ms x)" using Cons.prems by simp
  moreover have "emits P (f ms x) (foldl f (f ms x) xs)"
    using Cons.IH Cons.prems by simp
  ultimately show ?case using emits_trans by fastforce
qed

lemma emits_pushStandards:
  "(\<And>d. bit board d \<Longrightarrow> P (Move_standard s d)) \<Longrightarrow> emits P ms (pushStandards ms s board)"
  by (auto simp: emits_def pushStandards_def squares_bit)

lemma emits_pushStandardsOff:
  "(\<And>d. bit board d \<Longrightarrow> P (Move_standard (srcOf d off) d)) \<Longrightarrow> emits P ms (pushStandardsOff ms off board)"
  by (auto simp: emits_def pushStandardsOff_def squares_bit)

lemma emits_pushQueenPromotions:
  "(\<And>d. bit board d \<Longrightarrow> P (Move_promotion (srcOf d off) d Queen)) \<Longrightarrow>
   emits P ms (pushQueenPromotions ms off board)"
  by (auto simp: emits_def pushQueenPromotions_def squares_bit)

lemma emits_pushUnderpromotions:
  "(\<And>d t. bit board d \<Longrightarrow> t \<in> {Knight, Rook, Bishop} \<Longrightarrow> P (Move_promotion (srcOf d off) d t)) \<Longrightarrow>
   emits P ms (pushUnderpromotions opts ms off board)"
  by (auto simp: emits_def pushUnderpromotions_def squares_bit)

lemma emits_pushEnPassants:
  "(\<And>d. bit board d \<Longrightarrow> P (Move_enPassant (srcOf d off) d)) \<Longrightarrow>
   emits P ms (pushEnPassants ms off board)"
  by (auto simp: emits_def pushEnPassants_def squares_bit)

lemma emits_precalculated:
  "emits (\<lambda>m. mtype m = Standard \<and> bit (forPieceOf (boards pos) piece (toMove pos)) (src m)
              \<and> bit (attacks (src m) AND dstMask) (dst m))
     ms (precalculated piece attacks ms pos dstMask)"
  unfolding precalculated_def
  by (rule emits_foldl, rule emits_pushStandards) (simp add: Move_standard_def squares_bit)

lemma emits_generateSliders:
  "emits (\<lambda>m. mtype m = Standard
              \<and> bit (forPieceOf (boards pos) Queen (toMove pos) OR forPieceOf (boards pos) Rook (toMove pos)
                     OR forPieceOf (boards pos) Bishop (toMove pos)) (src m)
              \<and> bit dstMask (dst m))
     ms (generateSliders ms pos dstMask)" (is "emits ?P ms _")
proof -
  let ?occ = "forColor (boards pos) (toMove pos) OR forColor (boards pos) (oppColor (toMove pos))"
  let ?q = "forPieceOf (boards pos) Queen (toMove pos)"
  let ?r = "?q OR forPieceOf (boards pos) Rook (toMove pos)"
  let ?b = "?q OR forPieceOf (boards pos) Bishop (toMove pos)"
  let ?fr = "\<lambda>acc s. pushStandards acc s (getRookAttacks s ?occ AND dstMask)"
  let ?fb = "\<lambda>acc s. pushStandards acc s (getBishopAttacks s ?occ AND dstMask)"
  have 1: "emits ?P ms (foldl ?fr ms (squares ?r))"
  proof (rule emits_foldl)
    fix acc s assume "s \<in> set (squares ?r)"
    then show "emits ?P acc (?fr acc s)"
      by (intro emits_pushStandards) (auto simp: Move_standard_def squares_bit bit_or_iff bit_and_iff)
  qed
  have 2: "emits ?P (foldl ?fr ms (squares ?r)) (foldl ?fb (foldl ?fr ms (squares ?r)) (squares ?b))"
  proof (rule emits_foldl)
    fix acc s assume "s \<in> set (squares ?b)"
    then show "emits ?P acc (?fb acc s)"
      by (intro emits_pushStandards) (auto simp: Move_standard_def squares_bit bit_or_iff bit_and_iff)
  qed
  show ?thesis
    unfolding generateSliders_def Let_def using emits_trans [OF 1 2] .
qed

lemma emits_generateKings_False:
  "emits (\<lambda>m. mtype m = Standard \<and> bit (forPieceOf (boards pos) King (toMove pos)) (src m)
              \<and> bit (KingAttacks (src m) AND dstMask) (dst m))
     ms (generateKings False opts ms pos dstMask)"
  using emits_precalculated [where piece = King and attacks = KingAttacks] by (simp add: generateKings_def)

lemma generateKings_in_check:
  "isCheck pos \<Longrightarrow> generateKings c opts ms pos dstMask = generateKings False opts ms pos dstMask"
  by (simp add: generateKings_def generateCastling_def Let_def)

lemma emits_generateKnights:
  "emits (\<lambda>m. mtype m = Standard \<and> bit (forPieceOf (boards pos) Knight (toMove pos)) (src m)
              \<and> bit dstMask (dst m))
     ms (generateKnights ms pos dstMask)"
  unfolding generateKnights_def
  by (rule emits_mono [OF emits_precalculated]) (simp add: bit_and_iff)


lemmas emits_then_pushStandardsOff = emits_trans [OF _ emits_pushStandardsOff]
lemmas emits_then_pushQueenPromotions = emits_trans [OF _ emits_pushQueenPromotions]
lemmas emits_then_pushUnderpromotions = emits_trans [OF _ emits_pushUnderpromotions]
lemmas emits_then_pushEnPassants = emits_trans [OF _ emits_pushEnPassants]

lemmas move_ctor_defs = Move_standard_def Move_promotion_def Move_enPassant_def Move_castling_def

lemma emits_generatePawnsNoisyFor:
  "emits (\<lambda>m. bit (pawnsOf us (boards pos)) (src m) \<and> bit dstMask (dst m) \<and> mtype m \<noteq> Castling
            \<and> (mtype m = EnPassant \<longrightarrow> enPassant pos \<noteq> Square_None \<and> bit (fromSquare (enPassant pos)) (dst m))
            \<and> (mtype m \<noteq> EnPassant \<longrightarrow> bit (occupancyOf (boards pos) (oppColor us)) (dst m)
                  \<or> (mtype m = Promotion \<and> bit (promotionRank us AND NOT (occupancyOf (boards pos) (oppColor us))) (dst m))))
     ms (generatePawnsNoisyFor us ms pos dstMask)"
  unfolding generatePawnsNoisyFor_def Let_def
  by (auto intro!: emits_then_pushStandardsOff emits_then_pushQueenPromotions emits_then_pushEnPassants
        emits_refl
      simp: move_ctor_defs bit_and_iff bit_not_iff src_upLeft src_upRight src_up)

lemma emits_generatePawnsQuietFor:
  "emits (\<lambda>m. bit (pawnsOf us b) (src m) \<and> bit dstMask (dst m)
            \<and> (mtype m = Standard \<or> mtype m = Promotion)
            \<and> (bit (occupancyOf b (oppColor us)) (dst m) \<longrightarrow> mtype m = Promotion \<and> bit (promotionRank us) (dst m)))
     ms (generatePawnsQuietFor opts us ms b dstMask occ)"
  unfolding generatePawnsQuietFor_def Let_def
  by (auto intro!: emits_then_pushStandardsOff emits_then_pushUnderpromotions emits_refl
      simp: move_ctor_defs bit_and_iff bit_not_iff src_upLeft src_upRight src_up src_up2)


text \<open>
  Claim C2. In every position in which the side to move is in double check (the checkers
  bitboard has more than one bit set), \<open>generateNoisy\<close>, \<open>generateQuiet\<close> and \<open>generateAll\<close>
  emit only moves whose source square holds the mover's king, and each generator returns
  right after the king moves: its result is that of \<open>generateKings<false>\<close> alone.
\<close>

theorem double_check_only_king_moves:
  assumes "multiple (checkers pos)"
  shows "generateNoisy opts ms pos =
           generateKings False opts ms pos (forColor (boards pos) (oppColor (toMove pos)))
       \<and> generateQuiet opts ms pos =
           generateKings False opts ms pos
             (NOT (forColor (boards pos) (toMove pos) OR forColor (boards pos) (oppColor (toMove pos))))
       \<and> generateAll opts ms pos =
           generateKings False opts ms pos (NOT (forColor (boards pos) (toMove pos)))
       \<and> (\<forall>g \<in> {generateNoisy, generateQuiet, generateAll}.
            \<exists>new. g opts ms pos = ms @ new \<and>
              (\<forall>m \<in> set new. mtype (move m) = Standard
                 \<and> bit (forPieceOf (boards pos) King (toMove pos)) (src (move m))))"
proof -
  have c: "isCheck pos" using assms multiple_nonzero by (simp add: isCheck_def)
  have n: "generateNoisy opts ms pos =
           generateKings False opts ms pos (forColor (boards pos) (oppColor (toMove pos)))"
    using assms c by (simp add: generateNoisy_def Let_def)
  have q: "generateQuiet opts ms pos =
           generateKings False opts ms pos
             (NOT (forColor (boards pos) (toMove pos) OR forColor (boards pos) (oppColor (toMove pos))))"
    using assms c by (simp add: generateQuiet_def Let_def)
  have a: "generateAll opts ms pos =
           generateKings False opts ms pos (NOT (forColor (boards pos) (toMove pos)))"
    using assms c by (simp add: generateAll_def Let_def)
  have k: "\<exists>new. generateKings False opts ms pos mask = ms @ new \<and>
              (\<forall>m \<in> set new. mtype (move m) = Standard
                 \<and> bit (forPieceOf (boards pos) King (toMove pos)) (src (move m)))" for mask
    using precalculated_moves [of King KingAttacks ms pos mask]
    by (auto simp: generateKings_def)
  show ?thesis
    using n q a k by simp
qed


text \<open>
  White king e1 in check from the rook e8 and the knight d3: the quiet generator emits the
  five king steps to empty squares and nothing for the pawn c2, the noisy generator nothing.
\<close>

theorem double_check_only_king_moves_witness:
  "multiple (checkers dc_pos)
   \<and> map move (generateQuiet std_opts [] dc_pos) =
       [Move_standard 4 3, Move_standard 4 5, Move_standard 4 11, Move_standard 4 12, Move_standard 4 13]
   \<and> generateNoisy std_opts [] dc_pos = []
   \<and> generateQuiet std_opts [] dc_pos = generateAll std_opts [] dc_pos
   \<and> ownKings dc_pos = 0x10"
proof -
  have m: "multiple (checkers dc_pos)"
    by (simp add: movegen_all_eval)
  have q: "map move (generateQuiet std_opts [] dc_pos) =
       [Move_standard 4 3, Move_standard 4 5, Move_standard 4 11, Move_standard 4 12, Move_standard 4 13]"
    by (simp add: movegen_all_eval)
  have n: "generateNoisy std_opts [] dc_pos = []"
    by (simp add: movegen_all_eval)
  have e: "generateKings False std_opts [] dc_pos
             (NOT (forColor (boards dc_pos) (toMove dc_pos) OR forColor (boards dc_pos) (oppColor (toMove dc_pos))))
         = generateKings False std_opts [] dc_pos (NOT (forColor (boards dc_pos) (toMove dc_pos)))"
    by (simp add: movegen_all_eval)
  have k: "ownKings dc_pos = 0x10"
    by (simp add: movegen_all_eval)
  from double_check_only_king_moves [OF m, of std_opts "[]"] e
  have "generateQuiet std_opts [] dc_pos = generateAll std_opts [] dc_pos" by simp
  then show ?thesis using m q n k by simp
qed

subsection \<open>Single check\<close>

lemma popcount_1_flags: "popcount b = 1 \<Longrightarrow> b \<noteq> 0 \<and> \<not> multiple b"
  by (auto simp: multiple_def popcount_def squares_def)

lemma and_zero_bit: "(x :: Bitboard) AND y = 0 \<Longrightarrow> bit x n \<Longrightarrow> \<not> bit y n"
proof -
  assume z: "x AND y = 0" and bx: "bit x n"
  have "bit (x AND y) n = bit (0 :: Bitboard) n" using z by simp
  then show ?thesis using bx by (simp add: bit_and_iff)
qed

lemma wf_piece_disjoint:
  "boards_wf b \<Longrightarrow> p \<noteq> q \<Longrightarrow> bit (forPieceOf b p c) n \<Longrightarrow> \<not> bit (forPieceOf b q c') n"
proof -
  assume wf: "boards_wf b" and ne: "p \<noteq> q" and bp: "bit (forPieceOf b p c) n"
  have "p \<in> {Pawn, Knight, Bishop, Rook, Queen, King}" "q \<in> {Pawn, Knight, Bishop, Rook, Queen, King}"
    by (cases p; simp) (cases q; simp)
  then have "m_boards b p AND m_boards b q = 0" using wf ne unfolding boards_wf_def by blast
  moreover have "bit (m_boards b p) n" using bp by (simp add: forPieceOf_def bit_and_iff)
  ultimately have "\<not> bit (m_boards b q) n" by (rule and_zero_bit)
  then show ?thesis by (simp add: forPieceOf_def bit_and_iff)
qed

lemma wf_color_disjoint:
  "boards_wf b \<Longrightarrow> bit (forColor b c) n \<Longrightarrow> \<not> bit (forColor b (oppColor c)) n"
proof -
  assume wf: "boards_wf b" and bc: "bit (forColor b c) n"
  have d: "m_colors b Black AND m_colors b White = 0" using wf by (simp add: boards_wf_def)
  then have d': "m_colors b White AND m_colors b Black = 0" by (simp add: and.commute)
  show ?thesis using and_zero_bit [OF d] and_zero_bit [OF d'] bc by (cases c) (auto simp: forColor_def)
qed

lemma pawnsOf_forPieceOf: "pawnsOf us b = forPieceOf b Pawn us"
  by (cases us) (simp_all add: blackPawns_def whitePawns_def pawns_def forPiece_def forPieceOf_def
      forColor_def blackOccupancy_def whiteOccupancy_def)

lemma generatePawnsNoisy_For: "generatePawnsNoisy ms pos dm = generatePawnsNoisyFor (toMove pos) ms pos dm"
  by (cases "toMove pos") (simp_all add: generatePawnsNoisy_def)

lemma generatePawnsQuiet_For:
  "generatePawnsQuiet opts ms pos dm occ = generatePawnsQuietFor opts (toMove pos) ms (boards pos) dm occ"
  by (cases "toMove pos") (simp_all add: generatePawnsQuiet_def)

text \<open>What the noisy generator appends in single check, piece kind by piece kind.\<close>

lemma emits_generateNoisy_single:
  assumes "popcount (checkers pos) = 1"
  shows "emits (\<lambda>m.
        (mtype m = Standard \<and> bit (checkers pos) (dst m)
           \<and> bit (forPieceOf (boards pos) Queen (toMove pos) OR forPieceOf (boards pos) Rook (toMove pos)
                  OR forPieceOf (boards pos) Bishop (toMove pos) OR forPieceOf (boards pos) Knight (toMove pos)) (src m))
      \<or> (mtype m = Standard \<and> bit (ownKings pos) (src m)
           \<and> bit (KingAttacks (src m) AND enemyPieces pos) (dst m))
      \<or> (bit (ownPawns pos) (src m) \<and> mtype m \<noteq> Castling
           \<and> bit (enemyPieces pos OR (NOT (ownPieces pos) AND promotionRank (toMove pos) AND checkRay pos)
                  OR (if checkers pos AND epPawnOf pos \<noteq> 0 then fromSquare (enPassant pos) else 0)) (dst m)
           \<and> (mtype m = EnPassant \<longrightarrow> enPassant pos \<noteq> Square_None \<and> bit (fromSquare (enPassant pos)) (dst m))
           \<and> (mtype m \<noteq> EnPassant \<longrightarrow> bit (enemyPieces pos) (dst m)
                 \<or> (mtype m = Promotion \<and> bit (promotionRank (toMove pos) AND NOT (enemyPieces pos)) (dst m)))))
     ms (generateNoisy opts ms pos)" (is "emits ?P ms _")
proof -
  note f = popcount_1_flags [OF assms]
  let ?chk = "checkers pos"
  let ?ep = "if enPassant pos \<noteq> Square_None then fromSquare (enPassant pos) else 0"
  let ?pm0 = "enemyPieces pos OR (NOT (ownPieces pos) AND promotionRank (toMove pos) AND checkRay pos)"
  let ?pm = "if ?chk AND epPawnOf pos \<noteq> 0 then ?pm0 OR ?ep else ?pm0"
  let ?n1 = "generateSliders ms pos ?chk"
  let ?n2 = "generatePawnsNoisy ?n1 pos ?pm"
  let ?n3 = "generateKnights ?n2 pos ?chk"
  have pr: "(if toMove pos = Black then Rank1 else Rank8) = promotionRank (toMove pos)"
    by (cases "toMove pos") simp_all
  have eq: "generateNoisy opts ms pos = generateKings False opts ?n3 pos (enemyPieces pos)"
    using f by (cases "toMove pos")
      (simp_all add: generateNoisy_def Let_def isCheck_def enemyPieces_def ownPieces_def
        checkRay_def epPawnOf_def and.assoc)
  have 1: "emits ?P ms ?n1"
    by (rule emits_mono [OF emits_generateSliders]) (auto simp: bit_or_iff)
  have 2: "emits ?P ?n1 ?n2"
    unfolding generatePawnsNoisy_For
    by (rule emits_mono [OF emits_generatePawnsNoisyFor])
       (auto simp: ownPawns_def enemyPieces_def occupancyOf_def forColor_def bit_or_iff split: if_splits)
  have 3: "emits ?P ?n2 ?n3"
    by (rule emits_mono [OF emits_generateKnights]) (auto simp: bit_or_iff)
  have 4: "emits ?P ?n3 (generateKings False opts ?n3 pos (enemyPieces pos))"
    by (rule emits_mono [OF emits_generateKings_False]) (auto simp: ownKings_def)
  show ?thesis
    unfolding eq using emits_trans [OF emits_trans [OF emits_trans [OF 1 2] 3] 4] .
qed


text \<open>The same for the quiet generator; castling is not generated in check.\<close>

lemma emits_generateQuiet_single:
  assumes "popcount (checkers pos) = 1"
  shows "emits (\<lambda>m.
        (mtype m = Standard \<and> bit (checkRay pos) (dst m)
           \<and> bit (forPieceOf (boards pos) Queen (toMove pos) OR forPieceOf (boards pos) Rook (toMove pos)
                  OR forPieceOf (boards pos) Bishop (toMove pos) OR forPieceOf (boards pos) Knight (toMove pos)) (src m))
      \<or> (mtype m = Standard \<and> bit (ownKings pos) (src m)
           \<and> bit (KingAttacks (src m) AND NOT (ownPieces pos OR enemyPieces pos)) (dst m))
      \<or> (bit (ownPawns pos) (src m)
           \<and> bit (checkRay pos OR (checkers pos AND promotionRank (toMove pos))) (dst m)
           \<and> (mtype m = Standard \<or> mtype m = Promotion)
           \<and> (bit (enemyPieces pos) (dst m) \<longrightarrow> mtype m = Promotion \<and> bit (promotionRank (toMove pos)) (dst m))))
     ms (generateQuiet opts ms pos)" (is "emits ?P ms _")
proof -
  note f = popcount_1_flags [OF assms]
  let ?ray = "checkRay pos"
  let ?pm = "?ray OR (checkers pos AND promotionRank (toMove pos))"
  let ?q1 = "generateSliders ms pos ?ray"
  let ?q2 = "generatePawnsQuiet opts ?q1 pos ?pm (ownPieces pos OR enemyPieces pos)"
  let ?q3 = "generateKnights ?q2 pos ?ray"
  let ?km = "NOT (ownPieces pos OR enemyPieces pos)"
  have c: "isCheck pos" using f by (simp add: isCheck_def)
  have eq: "generateQuiet opts ms pos = generateKings False opts ?q3 pos ?km"
    using f c generateKings_in_check [OF c, of True]
    by (simp add: generateQuiet_def Let_def enemyPieces_def ownPieces_def checkRay_def)
  have 1: "emits ?P ms ?q1"
    by (rule emits_mono [OF emits_generateSliders]) (auto simp: bit_or_iff)
  have 2: "emits ?P ?q1 ?q2"
    unfolding generatePawnsQuiet_For
    by (rule emits_mono [OF emits_generatePawnsQuietFor])
       (auto simp: ownPawns_def enemyPieces_def occupancyOf_def forColor_def)
  have 3: "emits ?P ?q2 ?q3"
    by (rule emits_mono [OF emits_generateKnights]) (auto simp: bit_or_iff)
  have 4: "emits ?P ?q3 (generateKings False opts ?q3 pos ?km)"
    by (rule emits_mono [OF emits_generateKings_False]) (auto simp: ownKings_def)
  show ?thesis
    unfolding eq using emits_trans [OF emits_trans [OF emits_trans [OF 1 2] 3] 4] .
qed

lemma generateKings_complete:
  assumes "bit (forPieceOf (boards pos) King (toMove pos)) k" and "bit (KingAttacks k AND dm) d"
    and "emits P ms n3"
  shows "Move_standard k d \<in> set (emitted ms (generateKings False opts n3 pos dm))"
proof -
  obtain new where n: "n3 = ms @ new" using assms(3) by (auto simp: emits_def)
  let ?ks = "concat (map (\<lambda>s. map (\<lambda>d. \<lparr>move = Move_standard s d, score = 0\<rparr>) (squares (KingAttacks s AND dm)))
               (squares (forPieceOf (boards pos) King (toMove pos))))"
  have g: "generateKings False opts n3 pos dm = ms @ new @ ?ks"
    by (simp add: generateKings_def precalculated_def foldl_pushStandards n)
  have "k \<in> set (squares (forPieceOf (boards pos) King (toMove pos)))"
    and "d \<in> set (squares (KingAttacks k AND dm))"
    using assms(1,2) by (simp_all add: squares_bit)
  then have "\<lparr>move = Move_standard k d, score = 0\<rparr> \<in> set ?ks"
    by (auto intro!: bexI [where x = k] image_eqI [where x = d])
  then have "Move_standard k d \<in> move ` set ?ks" by force
  then show ?thesis by (simp add: g emitted_def)
qed


lemma bit_lt64: "bit (b :: Bitboard) n \<Longrightarrow> n < 64"
  using bit_imp_le_length [of b n] by simp

lemma emits_True_generateKnights_etc:
  "emits (\<lambda>_. True) ms (generateSliders ms pos a)"
  "emits (\<lambda>_. True) ms (generatePawnsNoisy ms pos a)"
  "emits (\<lambda>_. True) ms (generatePawnsQuiet opts ms pos a occ)"
  "emits (\<lambda>_. True) ms (generateKnights ms pos a)"
  using emits_mono [OF emits_generateSliders] emits_mono [OF emits_generateKnights]
    emits_mono [OF emits_generatePawnsNoisyFor] emits_mono [OF emits_generatePawnsQuietFor]
  by (simp_all add: generatePawnsNoisy_For generatePawnsQuiet_For)

lemma generateNoisy_single_kings:
  assumes "popcount (checkers pos) = 1"
  shows "\<exists>n3. emits (\<lambda>_. True) ms n3
           \<and> generateNoisy opts ms pos = generateKings False opts n3 pos (enemyPieces pos)"
proof -
  note f = popcount_1_flags [OF assms]
  have "\<exists>a b. generateNoisy opts ms pos =
      generateKings False opts
        (generateKnights (generatePawnsNoisy (generateSliders ms pos (checkers pos)) pos a) pos b)
        pos (enemyPieces pos)"
    using f by (auto simp: generateNoisy_def Let_def isCheck_def enemyPieces_def)
  then show ?thesis
    using emits_True_generateKnights_etc(1,2,4) emits_trans by metis
qed

lemma generateQuiet_single_kings:
  assumes "popcount (checkers pos) = 1"
  shows "\<exists>q3. emits (\<lambda>_. True) ms q3
           \<and> generateQuiet opts ms pos =
               generateKings False opts q3 pos (NOT (ownPieces pos OR enemyPieces pos))"
proof -
  note f = popcount_1_flags [OF assms]
  have c: "isCheck pos" using f by (simp add: isCheck_def)
  have "\<exists>a b d. generateQuiet opts ms pos =
      generateKings False opts
        (generateKnights (generatePawnsQuiet opts (generateSliders ms pos a) pos b d) pos a)
        pos (NOT (ownPieces pos OR enemyPieces pos))"
    using f c generateKings_in_check [OF c, of True]
    by (auto simp: generateQuiet_def Let_def enemyPieces_def ownPieces_def)
  then show ?thesis
    using emits_True_generateKnights_etc(1,3,4) emits_trans by metis
qed

text \<open>
  Claim C1, as amended. In every position in which the side to move is in single check:
  every move of the quiet generator that does not start on the mover's king lands strictly
  between king and checker, except that an under-promotion may also capture the checker on the
  promotion rank; every move of the noisy generator that starts neither on the king nor on a
  pawn lands on the checker, and a noisy pawn move that does not land on an enemy piece is an
  en-passant capture or lands between king and checker; en-passant captures are emitted only
  when the captured pawn is the checker; the king moves of the two generators together are
  exactly the king steps to squares not occupied by own pieces. (Pawn captures of the noisy
  generator are not covered.)
\<close>

theorem single_check_evasions:
  assumes sc: "singleCheck pos"
  shows "(\<forall>m \<in> set (newQuiet opts qs pos). \<not> bit (ownKings pos) (src m) \<longrightarrow>
            bit (checkRay pos) (dst m)
            \<or> (mtype m = Promotion \<and> bit (checkers pos AND promotionRank (toMove pos)) (dst m)))
       \<and> (\<forall>m \<in> set (newNoisy opts ns pos). \<not> bit (ownKings pos) (src m) \<longrightarrow>
            (\<not> bit (ownPawns pos) (src m) \<longrightarrow> bit (checkers pos) (dst m))
            \<and> (\<not> bit (enemyPieces pos) (dst m) \<longrightarrow>
                 mtype m = EnPassant \<or> bit (checkers pos OR checkRay pos) (dst m)))
       \<and> (\<forall>m \<in> set (newNoisy opts ns pos) \<union> set (newQuiet opts qs pos).
            mtype m = EnPassant \<longrightarrow> checkers pos AND epPawnOf pos \<noteq> 0)
       \<and> (\<forall>m \<in> set (newNoisy opts ns pos) \<union> set (newQuiet opts qs pos).
            bit (ownKings pos) (src m) \<longrightarrow>
              mtype m = Standard \<and> bit (KingAttacks (src m) AND NOT (ownPieces pos)) (dst m))
       \<and> (\<forall>k d. bit (ownKings pos) k \<longrightarrow> bit (KingAttacks k AND NOT (ownPieces pos)) d \<longrightarrow>
            Move_standard k d \<in> set (newNoisy opts ns pos) \<union> set (newQuiet opts qs pos))"
proof -
  have one: "popcount (checkers pos) = 1"
    and chk: "checkers pos AND NOT (enemyPieces pos) = 0"
    and wf: "boards_wf (boards pos)"
    and ep: "enPassant pos \<noteq> Square_None \<Longrightarrow>
        fromSquare (enPassant pos) AND (enemyPieces pos OR promotionRank (toMove pos)) = 0"
    using sc by (simp_all add: singleCheck_def)
  note N = emits_emitted [OF emits_generateNoisy_single [OF one, where opts = opts and ms = ns], folded newNoisy_def]
  note Q = emits_emitted [OF emits_generateQuiet_single [OF one, where opts = opts and ms = qs], folded newQuiet_def]
  have kp: "\<not> bit (ownPawns pos) s" and ko: "\<not> bit (forPieceOf (boards pos) Queen (toMove pos)
          OR forPieceOf (boards pos) Rook (toMove pos) OR forPieceOf (boards pos) Bishop (toMove pos)
          OR forPieceOf (boards pos) Knight (toMove pos)) s"
    if "bit (ownKings pos) s" for s
    using that wf_piece_disjoint [OF wf, of King _ "toMove pos" s "toMove pos"]
    by (auto simp: ownKings_def ownPawns_def pawnsOf_forPieceOf bit_or_iff)
  have po: "\<not> bit (forPieceOf (boards pos) Queen (toMove pos)
          OR forPieceOf (boards pos) Rook (toMove pos) OR forPieceOf (boards pos) Bishop (toMove pos)
          OR forPieceOf (boards pos) Knight (toMove pos)) s"
    if "bit (ownPawns pos) s" for s
    using that wf_piece_disjoint [OF wf, of Pawn _ "toMove pos" s "toMove pos"]
    by (auto simp: ownPawns_def pawnsOf_forPieceOf bit_or_iff)
  have eo: "\<not> bit (ownPieces pos) d" if "bit (enemyPieces pos) d" for d
    using that wf_color_disjoint [OF wf, of "oppColor (toMove pos)" d]
    by (cases "toMove pos") (auto simp: ownPieces_def enemyPieces_def)
  have ce: "bit (enemyPieces pos) d" if "bit (checkers pos) d" for d
    using and_zero_bit [OF chk that] by (simp add: bit_not_iff) (use bit_imp_le_length that in fastforce)
  have epe: "\<not> bit (enemyPieces pos) d" and epr: "\<not> bit (promotionRank (toMove pos)) d"
    if "enPassant pos \<noteq> Square_None" "bit (fromSquare (enPassant pos)) d" for d
    using and_zero_bit [OF ep [OF that(1)] that(2)] by (simp_all add: bit_or_iff)
  have epn: "checkers pos AND epPawnOf pos \<noteq> 0 \<Longrightarrow> enPassant pos \<noteq> Square_None"
    by (auto simp: epPawnOf_def split: if_splits)
  have q1: "bit (checkRay pos) (dst m)
            \<or> (mtype m = Promotion \<and> bit (checkers pos AND promotionRank (toMove pos)) (dst m))"
    if "m \<in> set (newQuiet opts qs pos)" "\<not> bit (ownKings pos) (src m)" for m
    using Q [OF that(1)] that(2) ce by (auto simp: bit_or_iff bit_and_iff)
  have n1: "(\<not> bit (ownPawns pos) (src m) \<longrightarrow> bit (checkers pos) (dst m))
            \<and> (\<not> bit (enemyPieces pos) (dst m) \<longrightarrow>
                 mtype m = EnPassant \<or> bit (checkers pos OR checkRay pos) (dst m))"
    if "m \<in> set (newNoisy opts ns pos)" "\<not> bit (ownKings pos) (src m)" for m
    using N [OF that(1)] that(2) ce epr epn
    by (auto simp: bit_or_iff bit_and_iff bit_not_iff split: if_splits)
  have e1: "checkers pos AND epPawnOf pos \<noteq> 0"
    if "m \<in> set (newNoisy opts ns pos) \<union> set (newQuiet opts qs pos)" "mtype m = EnPassant" for m
    using that N [of m] Q [of m] epe epr epn
    by (auto simp: bit_or_iff bit_and_iff bit_not_iff split: if_splits)
  have k1: "mtype m = Standard \<and> bit (KingAttacks (src m) AND NOT (ownPieces pos)) (dst m)"
    if "m \<in> set (newNoisy opts ns pos) \<union> set (newQuiet opts qs pos)" "bit (ownKings pos) (src m)" for m
    using that N [of m] Q [of m] kp [OF that(2)] ko [OF that(2)] eo
    by (auto simp: bit_or_iff bit_and_iff bit_not_iff dest: bit_lt64)
  have k2: "Move_standard k d \<in> set (newNoisy opts ns pos) \<union> set (newQuiet opts qs pos)"
    if k: "bit (ownKings pos) k" and d: "bit (KingAttacks k AND NOT (ownPieces pos)) d" for k d
  proof (cases "bit (enemyPieces pos) d")
    case True
    obtain n3 where n3: "emits (\<lambda>_. True) ns n3"
      and g: "generateNoisy opts ns pos = generateKings False opts n3 pos (enemyPieces pos)"
      using generateNoisy_single_kings [OF one] by blast
    have "bit (KingAttacks k AND enemyPieces pos) d"
      using d True by (simp add: bit_and_iff)
    from generateKings_complete [OF k [unfolded ownKings_def] this n3]
    show ?thesis by (simp add: newNoisy_def g)
  next
    case False
    obtain q3 where q3: "emits (\<lambda>_. True) qs q3"
      and g: "generateQuiet opts qs pos =
               generateKings False opts q3 pos (NOT (ownPieces pos OR enemyPieces pos))"
      using generateQuiet_single_kings [OF one] by blast
    have "bit (KingAttacks k AND NOT (ownPieces pos OR enemyPieces pos)) d"
      using d False by (auto simp: bit_and_iff bit_not_iff bit_or_iff)
    from generateKings_complete [OF k [unfolded ownKings_def] this q3]
    show ?thesis by (simp add: newQuiet_def g)
  qed
  show ?thesis using q1 n1 e1 k1 k2 by blast
qed


text \<open>
  White king a1 in check from the rook a8, white pawn b7: the quiet generator emits the
  under-promotion b7xa8=N beside the king steps, the noisy generator the queen promotion.
\<close>

theorem single_check_evasions_witness:
  "singleCheck up_pos
   \<and> newQuiet std_opts [] up_pos =
       [Move_promotion 49 56 Knight, Move_standard 0 1, Move_standard 0 8, Move_standard 0 9]
   \<and> newNoisy std_opts [] up_pos = [Move_promotion 49 56 Queen]
   \<and> squares (checkRay up_pos) = [8, 16, 24, 32, 40, 48]
   \<and> (bit (checkRay up_pos) 56 \<or> bit (checkers up_pos AND promotionRank (toMove up_pos)) 56)"
proof -
  have sc: "singleCheck up_pos"
    by (simp add: movegen_all_eval)
  have q: "newQuiet std_opts [] up_pos =
       [Move_promotion 49 56 Knight, Move_standard 0 1, Move_standard 0 8, Move_standard 0 9]"
    by (simp add: movegen_all_eval)
  have n: "newNoisy std_opts [] up_pos = [Move_promotion 49 56 Queen]"
    by (simp add: movegen_all_eval)
  have r: "squares (checkRay up_pos) = [8, 16, 24, 32, 40, 48]"
    by (simp add: movegen_all_eval)
  have k: "\<not> bit (ownKings up_pos) (src (Move_promotion 49 56 Knight))"
    by (simp add: movegen_all_eval)
  have m: "Move_promotion 49 56 Knight \<in> set (newQuiet std_opts [] up_pos)"
    unfolding q by simp
  from single_check_evasions [OF sc, of std_opts "[]" "[]"] m k
  have "bit (checkRay up_pos) (dst (Move_promotion 49 56 Knight))
      \<or> bit (checkers up_pos AND promotionRank (toMove up_pos)) (dst (Move_promotion 49 56 Knight))"
    by blast
  then show ?thesis using sc q n r by (simp add: Move_promotion_def)
qed

text \<open>
  Claim C1 as stated fails: in the same position the quiet generator emits b7xa8=N, whose
  source is not the king and whose destination is the checker's square, not a square between
  king and checker.
\<close>

theorem single_check_quiet_counterexample:
  "popcount (checkers up_pos) = 1
   \<and> Move_promotion 49 56 Knight \<in> set (newQuiet std_opts [] up_pos)
   \<and> king up_pos (toMove up_pos) \<noteq> 49
   \<and> bit (checkers up_pos) 56
   \<and> \<not> bit (checkRay up_pos) 56"
proof -
  have q: "newQuiet std_opts [] up_pos =
       [Move_promotion 49 56 Knight, Move_standard 0 1, Move_standard 0 8, Move_standard 0 9]"
    by (simp add: movegen_all_eval)
  have r: "checkRay up_pos = 0x0001010101010100"
    by (simp add: movegen_all_eval)
  have c: "popcount (checkers up_pos) = 1" "king up_pos (toMove up_pos) \<noteq> 49" "bit (checkers up_pos) 56"
    by (simp_all add: movegen_all_eval)
  show ?thesis unfolding q r using c by simp
qed

text \<open>
  The noisy generator also lets a pawn capture an enemy piece that is not the checker: with
  the white king e1 in check from the rook e8, it emits b2xa3. \<open>generateAll\<close> does not.
\<close>

lemma noisy_pawn_capture_off_target:
  "singleCheck sc_pos
   \<and> Move_standard 9 16 \<in> set (newNoisy std_opts [] sc_pos)
   \<and> king sc_pos (toMove sc_pos) \<noteq> 9
   \<and> \<not> bit (checkers sc_pos OR checkRay sc_pos) 16
   \<and> Move_standard 9 16 \<notin> set (emitted [] (generateAll std_opts [] sc_pos))"
proof -
  have sc: "singleCheck sc_pos"
    by (simp add: movegen_all_eval)
  have n: "newNoisy std_opts [] sc_pos = [Move_standard 9 16]"
    by (simp add: movegen_all_eval)
  have r: "checkRay sc_pos = 0x0010101010101000"
    by (simp add: movegen_all_eval)
  have a: "emitted [] (generateAll std_opts [] sc_pos) =
      [Move_standard 4 3, Move_standard 4 5, Move_standard 4 11, Move_standard 4 12, Move_standard 4 13]"
    by (simp add: movegen_all_eval)
  have c: "king sc_pos (toMove sc_pos) \<noteq> 9" "checkers sc_pos = 0x1000000000000000"
    by (simp_all add: movegen_all_eval)
  show ?thesis unfolding n r a c(2) using sc c(1) by (simp add: Move_standard_def)
qed

section \<open>The staged iterator\<close>

text \<open>
  The \<open>Hash\<close> stage returns whatever hash move it was given, provided it is not the null
  move; \<open>isPseudolegal\<close> is not consulted.
\<close>

lemma hash_stage_yields_any_hash_move:
  assumes "m_stage g = Stage_Start" and "m_idx g = 0" and "m_moves g = []"
    and "move_ok (m_hashMove g)"
  shows "next_move env g = Some (m_hashMove g, g\<lparr>m_stage := Stage_Hash\<rparr>)"
  using assms by (subst next_move.simps) (simp add: Stage_Start_def Stage_Hash_def)

text \<open>
  Claim C4 fails on the code. With the hash move a2-a3 in a position whose square a2 is empty,
  a move \<open>isPseudolegal\<close> rejects, the first call of \<open>next\<close> returns that move.
\<close>

theorem hash_move_not_checked:
  "next_moves ex_env hash_gen 1 = [Move_standard 8 16]
   \<and> \<not> env_isPseudolegal ex_env cm_pos (Move_standard 8 16)
   \<and> pieceAt (boards cm_pos) 8 = Some NoPiece"
  by (simp add: next_move.simps movepick_eval movegen_all_eval)


text \<open>
  Claim C3 fails on the code. The countermove is loaded only when the \<open>Countermove\<close> stage
  is reached; until then \<open>m_countermove\<close> is the null move, so a good noisy move equal to the
  countermove is not skipped. Here the capture Nf3xe5 is returned by the first call (stage
  \<open>GoodNoisy\<close>) and again by the second (stage \<open>Countermove\<close>).
\<close>

theorem countermove_yielded_twice:
  "next_moves ex_env cm_gen (Suc (Suc 0)) = [Move_standard 21 36, Move_standard 21 36]
   \<and> Move_standard 21 36 \<noteq> NullMove
   \<and> newNoisy std_opts [] cm_pos = [Move_standard 21 36]
   \<and> entry_countermove cm_history (m_prevMove cm_gen) = Move_standard 21 36"
  by (simp add: next_move.simps movepick_eval movegen_all_eval)


section \<open>Scoring of noisy moves\<close>

lemma mapOption_nth:
  "mapOption f xs = Some ys \<Longrightarrow> length ys = length xs \<and> (\<forall>i < length xs. f (xs ! i) = Some (ys ! i))"
proof (induction xs arbitrary: ys)
  case Nil
  then show ?case by simp
next
  case (Cons x xs)
  then obtain y ys' where y: "f x = Some y" and r: "mapOption f xs = Some ys'" and e: "ys = y # ys'"
    by (auto split: option.splits)
  from Cons.IH [OF r] show ?case using y e by (auto simp: nth_Cons split: nat.splits)
qed

lemma scoreNoisyMove_spec:
  assumes "scoreNoisyMove env pos sm = Some sm'"
  shows "move sm' = move sm \<and> score sm' = noisyScore env pos (move sm)"
  using assms
  by (auto simp: scoreNoisyMove_def noisyScore_def victimValue_def attackerValue_def promoBias_def
      losingCapture_def pieceOn_def Let_def split: option.splits if_splits)

lemma count_list_insort_key: "count_list (insort_key f x xs) y = count_list (x # xs) y"
  by (induction xs) auto

lemma count_list_sort_key: "count_list (sort_key f xs) y = count_list xs y"
  by (induction xs) (auto simp: count_list_insort_key)

lemma count_list_map_sort_key: "count_list (map h (sort_key f xs)) y = count_list (map h xs) y"
proof -
  have i: "\<And>x zs. count_list (map h (insort_key f x zs)) y = count_list (map h (x # zs)) y"
  proof -
    fix x zs show "count_list (map h (insort_key f x zs)) y = count_list (map h (x # zs)) y"
      by (induction zs) auto
  qed
  show ?thesis by (induction xs) (auto simp: i)
qed

lemma takeWhile_boundary:
  assumes mono: "\<And>i j. i \<le> j \<Longrightarrow> j < length xs \<Longrightarrow> P (xs ! j) \<Longrightarrow> P (xs ! i)"
    and i: "i < length xs"
  shows "length (takeWhile P xs) \<le> i \<longleftrightarrow> \<not> P (xs ! i)"
proof
  assume le: "length (takeWhile P xs) \<le> i"
  then have lt: "length (takeWhile P xs) < length xs" using i by simp
  have "\<not> P (xs ! length (takeWhile P xs))" using nth_length_takeWhile [OF lt] .
  then show "\<not> P (xs ! i)" using mono [OF le i] by blast
next
  assume n: "\<not> P (xs ! i)"
  show "length (takeWhile P xs) \<le> i"
  proof (rule ccontr)
    assume "\<not> length (takeWhile P xs) \<le> i"
    then have lt: "i < length (takeWhile P xs)" by simp
    then have "takeWhile P xs ! i \<in> set (takeWhile P xs)" by simp
    then have "P (takeWhile P xs ! i)" using set_takeWhileD by metis
    then show False using n takeWhile_nth [OF lt] by simp
  qed
qed


lemma set_mapOption:
  assumes "mapOption f xs = Some ys" and "y \<in> set ys"
  shows "\<exists>x \<in> set xs. f x = Some y"
proof -
  from assms(2) obtain i where i: "i < length ys" and y: "ys ! i = y" by (auto simp: in_set_conv_nth)
  from mapOption_nth [OF assms(1)] i y have "i < length xs" "f (xs ! i) = Some y" by auto
  then show ?thesis by (metis nth_mem)
qed

lemma map_move_mapOption:
  assumes "mapOption f xs = Some ys" and "\<And>x y. f x = Some y \<Longrightarrow> move y = move x"
  shows "map move ys = map move xs"
  using mapOption_nth [OF assms(1)] assms(2) by (auto intro!: nth_equalityI)

lemma emits_idx_precalculated: "emits promoIdx_ok ms (precalculated piece attacks ms pos dm)"
  unfolding precalculated_def
  by (rule emits_foldl, rule emits_pushStandards) (simp add: Move_standard_def promoIdx_ok_def)

lemma emits_idx_generateSliders: "emits promoIdx_ok ms (generateSliders ms pos dm)"
  unfolding generateSliders_def Let_def
  by (intro emits_trans [OF emits_foldl emits_foldl] emits_pushStandards)
    (simp_all add: Move_standard_def promoIdx_ok_def)

lemma emits_idx_generatePawnsNoisy: "emits promoIdx_ok ms (generatePawnsNoisy ms pos dm)"
  unfolding generatePawnsNoisy_For generatePawnsNoisyFor_def Let_def
  by (auto intro!: emits_then_pushStandardsOff emits_then_pushQueenPromotions emits_then_pushEnPassants
        emits_refl simp: move_ctor_defs promoIdx_ok_def)

lemma emits_idx_generateNoisy: "emits promoIdx_ok ms (generateNoisy opts ms pos)"
proof -
  have k: "\<And>ns dm. emits promoIdx_ok ns (generateKings False opts ns pos dm)"
    by (simp add: generateKings_def emits_idx_precalculated)
  have n: "\<And>ns dm. emits promoIdx_ok ns (generateKnights ns pos dm)"
    by (simp add: generateKnights_def emits_idx_precalculated)
  note steps = emits_trans [OF emits_idx_generateSliders
      emits_trans [OF emits_idx_generatePawnsNoisy emits_trans [OF n k]]]
  show ?thesis
    unfolding generateNoisy_def Let_def by (auto intro: k steps)
qed

lemma losing_score_bound:
  assumes "values_ok env" and "promoIdx_ok m" and "losingCapture env pos m"
  shows "noisyScore env pos m < - 4 * 2000 * 2000"
proof -
  have v: "victimValue env pos m \<le> 3998" and a: "0 \<le> attackerValue env pos m"
    using assms(1) by (auto simp: values_ok_def victimValue_def attackerValue_def)
  have "targetIdx m \<in> {0, 1, 2, 3}" using assms(2) unfolding promoIdx_ok_def by auto
  then have "PromoScores (targetIdx m) \<le> 2" by (auto simp: PromoScores_def)
  then have p: "promoBias m \<le> 8000000" by (simp add: promoBias_def)
  have "(victimValue env pos m - attackerValue env pos m) * 2000 \<le> 3998 * 2000"
    using v a by simp
  then show ?thesis using v p assms(3) by (simp add: noisyScore_def)
qed

lemma sorted_desc_boundary:
  fixes ms :: ScoredMoveList
  assumes "i < length ms"
  shows "length (takeWhile (\<lambda>v. \<not> score v < t) (stable_sort_desc ms)) \<le> i
           \<longleftrightarrow> score (stable_sort_desc ms ! i) < t"
proof -
  let ?xs = "stable_sort_desc ms"
  have s: "sorted (map (\<lambda>m. - score m) ?xs)" by (simp add: stable_sort_desc_def)
  have len: "length ?xs = length ms" by (simp add: stable_sort_desc_def)
  have mono: "\<And>i j. i \<le> j \<Longrightarrow> j < length ?xs \<Longrightarrow> \<not> score (?xs ! j) < t \<Longrightarrow> \<not> score (?xs ! i) < t"
  proof -
    fix i j assume ij: "i \<le> j" "j < length ?xs" and nj: "\<not> score (?xs ! j) < t"
    from sorted_nth_mono [OF s, of i j] ij have "- score (?xs ! i) \<le> - score (?xs ! j)" by simp
    then show "\<not> score (?xs ! i) < t" using nj by simp
  qed
  show ?thesis
    using takeWhile_boundary [where P = "\<lambda>v. \<not> score v < t" and xs = ?xs and i = i, OF mono] assms len
    by simp
qed

text \<open>
  Claim C7. Let \<open>genNoisy\<close> run on a generator whose move list is still empty, with piece
  values between 0 and 3998 and no value for the empty square. Then the list it leaves holds
  exactly the moves \<open>generateNoisy\<close> produced; every move carries the score
  \<open>(victim - attacker) * 2000 + victim\<close>, plus \<open>PromoScores * 2000 * 2000\<close> for a promotion,
  minus \<open>8 * 2000 * 2000\<close> when the victim has a value and \<open>see\<close> answers no; the victim of an
  en-passant capture is a pawn and the victim on an empty destination is 0; the promotion
  scores order queen, knight, rook, bishop; \<open>m_goodNoisyEnd\<close> is the index of the first move
  scored below \<open>-4 * 2000 * 2000\<close>; and every move that had the penalty subtracted lies at or
  after that index.
\<close>

theorem noisy_scoring:
  assumes vals: "values_ok env"
    and fresh: "m_idx g = 0" "m_moves g = []"
    and gen: "genNoisy env g = Some g'"
  shows "(\<forall>m. count_list (map move (m_moves g')) m
               = count_list (map move (generateNoisy (env_opts env) [] (m_pos g))) m)
    \<and> (\<forall>sm \<in> set (m_moves g'). score sm = noisyScore env (m_pos g) (move sm))
    \<and> (\<forall>m. mtype m = EnPassant \<longrightarrow> victimValue env (m_pos g) m = midgame (env_valuesPawn env))
    \<and> (\<forall>m. mtype m \<noteq> EnPassant \<and> pieceAt (boards (m_pos g)) (dst m) = Some NoPiece
            \<longrightarrow> victimValue env (m_pos g) m = 0)
    \<and> PromoScores (promoIdx Queen) > PromoScores (promoIdx Knight)
    \<and> PromoScores (promoIdx Knight) > PromoScores (promoIdx Rook)
    \<and> PromoScores (promoIdx Rook) > PromoScores (promoIdx Bishop)
    \<and> (\<forall>i < length (m_moves g').
          m_goodNoisyEnd g' \<le> i \<longleftrightarrow> score (m_moves g' ! i) < - 4 * 2000 * 2000)
    \<and> (\<forall>i < length (m_moves g').
          losingCapture env (m_pos g) (move (m_moves g' ! i)) \<longrightarrow> m_goodNoisyEnd g' \<le> i)"
proof -
  let ?pos = "m_pos g"
  let ?gen = "generateNoisy (env_opts env) [] ?pos"
  from gen fresh obtain scored where
    sc: "mapOption (scoreNoisyMove env ?pos) ?gen = Some scored"
    and ms: "m_moves g' = stable_sort_desc scored"
    and ge: "m_goodNoisyEnd g' = length (takeWhile (\<lambda>v. \<not> score v < - 4 * 2000 * 2000) (stable_sort_desc scored))"
    by (auto simp: genNoisy_def scoreNoisy_def Let_def split: option.splits)
  have mv: "map move scored = map move ?gen"
    using map_move_mapOption [OF sc] scoreNoisyMove_spec by blast
  have c1: "\<forall>m. count_list (map move (m_moves g')) m = count_list (map move ?gen) m"
  proof
    fix m
    have "count_list (map move (sort_key (\<lambda>m. - score m) scored)) m = count_list (map move scored) m"
      by (simp add: count_list_map_sort_key)
    then show "count_list (map move (m_moves g')) m = count_list (map move ?gen) m"
      by (simp add: ms stable_sort_desc_def mv)
  qed
  have each: "\<And>sm. sm \<in> set scored \<Longrightarrow>
      score sm = noisyScore env ?pos (move sm) \<and> promoIdx_ok (move sm)"
  proof -
    fix sm assume "sm \<in> set scored"
    from set_mapOption [OF sc this] obtain x where x: "x \<in> set ?gen"
      and fx: "scoreNoisyMove env ?pos x = Some sm" by blast
    from emits_idx_generateNoisy [of "[]" "env_opts env" ?pos] x
    have "promoIdx_ok (move x)" by (auto simp: emits_def)
    then show "score sm = noisyScore env ?pos (move sm) \<and> promoIdx_ok (move sm)"
      using scoreNoisyMove_spec [OF fx] by simp
  qed
  have st: "set (m_moves g') = set scored" by (simp add: ms stable_sort_desc_def)
  have c2: "\<forall>sm \<in> set (m_moves g'). score sm = noisyScore env ?pos (move sm)"
    using each st by blast
  have c3: "\<forall>m. mtype m = EnPassant \<longrightarrow> victimValue env ?pos m = midgame (env_valuesPawn env)"
    by (simp add: victimValue_def)
  have c4: "\<forall>m. mtype m \<noteq> EnPassant \<and> pieceAt (boards ?pos) (dst m) = Some NoPiece
            \<longrightarrow> victimValue env ?pos m = 0"
    using vals by (simp add: victimValue_def pieceOn_def values_ok_def)
  have c5: "PromoScores (promoIdx Queen) > PromoScores (promoIdx Knight)"
    "PromoScores (promoIdx Knight) > PromoScores (promoIdx Rook)"
    "PromoScores (promoIdx Rook) > PromoScores (promoIdx Bishop)"
    by (simp_all add: PromoScores_def)
  have len: "length (m_moves g') = length scored" by (simp add: ms stable_sort_desc_def)
  have c6: "\<forall>i < length (m_moves g'). m_goodNoisyEnd g' \<le> i \<longleftrightarrow> score (m_moves g' ! i) < - 4 * 2000 * 2000"
    using sorted_desc_boundary [of _ scored "- 4 * 2000 * 2000"] by (simp add: ms ge len [unfolded ms])
  have c7: "\<forall>i < length (m_moves g'). losingCapture env ?pos (move (m_moves g' ! i)) \<longrightarrow> m_goodNoisyEnd g' \<le> i"
  proof (intro allI impI)
    fix i assume i: "i < length (m_moves g')" and l: "losingCapture env ?pos (move (m_moves g' ! i))"
    from i have "m_moves g' ! i \<in> set scored" using st nth_mem by blast
    from each [OF this] losing_score_bound [OF vals _ l]
    have "score (m_moves g' ! i) < - 4 * 2000 * 2000" by simp
    then show "m_goodNoisyEnd g' \<le> i" using c6 i by blast
  qed
  show ?thesis using c1 c2 c3 c4 c5 c6 c7 by blast
qed

text \<open>
  White Ke1, Nf3 against Ke8, Rd8 and pawns d4, e5, where \<open>see\<close> approves Nf3xe5 only. The
  capture Nf3xd4 gets \<open>(100 - 320) * 2000 + 100 - 32000000\<close> and is the only move behind the
  boundary.
\<close>

theorem noisy_scoring_witness:
  "values_ok ex_env
   \<and> map_option (\<lambda>g. (m_moves g, m_goodNoisyEnd g)) (genNoisy ex_env lc_gen)
       = Some ([\<lparr>move = Move_standard 21 36, score = - 439900\<rparr>,
                \<lparr>move = Move_standard 21 27, score = - 32439900\<rparr>], 1)
   \<and> losingCapture ex_env lc_pos (Move_standard 21 27)
   \<and> noisyScore ex_env lc_pos (Move_standard 21 27) = - 32439900
   \<and> noisyScore ex_env lc_pos (Move_standard 21 36) = - 439900"
proof -
  have v: "values_ok ex_env"
    by (simp add: values_ok_def ex_env_def ex_pieceValue_def split: Piece.splits BasePiece.splits)
  have f: "m_idx lc_gen = 0" "m_moves lc_gen = []" "m_pos lc_gen = lc_pos"
    by (simp_all add: lc_gen_def MoveGenerator_init_def)
  obtain g' where g: "genNoisy ex_env lc_gen = Some g'"
    and m: "m_moves g' = [\<lparr>move = Move_standard 21 36, score = - 439900\<rparr>,
                \<lparr>move = Move_standard 21 27, score = - 32439900\<rparr>]"
    and e: "m_goodNoisyEnd g' = 1"
    by (simp add: movepick_eval movegen_all_eval)
  have l: "losingCapture ex_env lc_pos (Move_standard 21 27)"
    by (simp add: losingCapture_def victimValue_def pieceOn_def movepick_eval movegen_all_eval)
  from noisy_scoring [OF v f(1,2) g] m f(3)
  have "noisyScore ex_env lc_pos (Move_standard 21 27) = - 32439900"
    "noisyScore ex_env lc_pos (Move_standard 21 36) = - 439900"
    by auto
  then show ?thesis using v g m e l by simp
qed

section \<open>Evaluation and pawn cache\<close>

lemma foldl_commute:
  assumes "\<And>d x. f (h d) x = h (f d x)"
  shows "foldl f (h d) xs = h (foldl f d xs)"
  using assms by (induction xs arbitrary: d) simp_all

lemma foldl_invariant:
  assumes "P d" and "\<And>d x. x \<in> set xs \<Longrightarrow> P d \<Longrightarrow> P (f d x)"
  shows "P (foldl f d xs)"
  using assms by (induction xs arbitrary: d) simp_all

lemmas add_defs = add_pawnStructure_def add_pawns_def add_knights_def add_bishops_def
  add_rooks_def add_kings_def add_mobility_def

lemma add_frame:
  "add_pawns (d\<lparr>e_pawnStructure := x\<rparr>) v = (add_pawns d v)\<lparr>e_pawnStructure := x\<rparr>"
  "add_knights (d\<lparr>e_pawnStructure := x\<rparr>) v = (add_knights d v)\<lparr>e_pawnStructure := x\<rparr>"
  "add_bishops (d\<lparr>e_pawnStructure := x\<rparr>) v = (add_bishops d v)\<lparr>e_pawnStructure := x\<rparr>"
  "add_rooks (d\<lparr>e_pawnStructure := x\<rparr>) v = (add_rooks d v)\<lparr>e_pawnStructure := x\<rparr>"
  "add_kings (d\<lparr>e_pawnStructure := x\<rparr>) v = (add_kings d v)\<lparr>e_pawnStructure := x\<rparr>"
  "add_mobility (d\<lparr>e_pawnStructure := x\<rparr>) v = (add_mobility d v)\<lparr>e_pawnStructure := x\<rparr>"
  by (simp_all add: add_defs)

lemma pawnsStep_frame:
  "pawnsStep us env pos (d\<lparr>e_pawnStructure := x\<rparr>) sq = (pawnsStep us env pos d sq)\<lparr>e_pawnStructure := x\<rparr>"
  by (simp add: pawnsStep_def Let_def add_frame)

lemma foldl_pawnsStep_frame:
  "foldl (pawnsStep us env pos) (d\<lparr>e_pawnStructure := x\<rparr>) xs
     = (foldl (pawnsStep us env pos) d xs)\<lparr>e_pawnStructure := x\<rparr>"
  by (rule foldl_commute) (rule pawnsStep_frame)

lemma evalPawns_frame:
  "evalPawns us env pos (d\<lparr>e_pawnStructure := x\<rparr>) (t\<lparr>e_pawnStructure := y\<rparr>)
     = (evalPawns us env pos d t)\<lparr>e_pawnStructure := x\<rparr>"
  by (simp add: evalPawns_def Let_def add_frame foldl_pawnsStep_frame)

lemma knightsStep_frame:
  "knightsStep us pos (d\<lparr>e_pawnStructure := x\<rparr>) sq = (knightsStep us pos d sq)\<lparr>e_pawnStructure := x\<rparr>"
  by (simp add: knightsStep_def Let_def add_frame)

lemma foldl_knightsStep_frame:
  "foldl (knightsStep us pos) (d\<lparr>e_pawnStructure := x\<rparr>) xs
     = (foldl (knightsStep us pos) d xs)\<lparr>e_pawnStructure := x\<rparr>"
  by (rule foldl_commute) (rule knightsStep_frame)

lemma evalKnights_frame:
  "evalKnights us pos (d\<lparr>e_pawnStructure := x\<rparr>) (t\<lparr>e_pawnStructure := y\<rparr>)
     = (evalKnights us pos d t)\<lparr>e_pawnStructure := x\<rparr>"
  by (simp add: evalKnights_def Let_def add_frame foldl_knightsStep_frame)

lemma bishopsStep_frame:
  "bishopsStep us pos occ0 xr (d\<lparr>e_pawnStructure := x\<rparr>) sq = (bishopsStep us pos occ0 xr d sq)\<lparr>e_pawnStructure := x\<rparr>"
  by (simp add: bishopsStep_def Let_def add_frame)

lemma foldl_bishopsStep_frame:
  "foldl (bishopsStep us pos occ0 xr) (d\<lparr>e_pawnStructure := x\<rparr>) xs
     = (foldl (bishopsStep us pos occ0 xr) d xs)\<lparr>e_pawnStructure := x\<rparr>"
  by (rule foldl_commute) (rule bishopsStep_frame)

lemma evalBishops_frame:
  "evalBishops us pos (d\<lparr>e_pawnStructure := x\<rparr>) (t\<lparr>e_pawnStructure := y\<rparr>)
     = (evalBishops us pos d t)\<lparr>e_pawnStructure := x\<rparr>"
  by (simp add: evalBishops_def Let_def add_frame foldl_bishopsStep_frame)

lemma rooksStep_frame:
  "rooksStep us pos n occ0 xr (d\<lparr>e_pawnStructure := x\<rparr>) sq = (rooksStep us pos n occ0 xr d sq)\<lparr>e_pawnStructure := x\<rparr>"
  by (simp add: rooksStep_def Let_def add_frame)

lemma foldl_rooksStep_frame:
  "foldl (rooksStep us pos n occ0 xr) (d\<lparr>e_pawnStructure := x\<rparr>) xs
     = (foldl (rooksStep us pos n occ0 xr) d xs)\<lparr>e_pawnStructure := x\<rparr>"
  by (rule foldl_commute) (rule rooksStep_frame)

lemma evalRooks_frame:
  "evalRooks us pos n (d\<lparr>e_pawnStructure := x\<rparr>) (t\<lparr>e_pawnStructure := y\<rparr>)
     = (evalRooks us pos n d t)\<lparr>e_pawnStructure := x\<rparr>"
  by (simp add: evalRooks_def Let_def add_frame foldl_rooksStep_frame)

lemma queensStep_frame:
  "queensStep xr (d\<lparr>e_pawnStructure := x\<rparr>) sq = (queensStep xr d sq)\<lparr>e_pawnStructure := x\<rparr>"
  by (simp add: queensStep_def Let_def add_frame)

lemma foldl_queensStep_frame:
  "foldl (queensStep xr) (d\<lparr>e_pawnStructure := x\<rparr>) xs
     = (foldl (queensStep xr) d xs)\<lparr>e_pawnStructure := x\<rparr>"
  by (rule foldl_commute) (rule queensStep_frame)

lemma evalQueens_frame:
  "evalQueens us pos (d\<lparr>e_pawnStructure := x\<rparr>) (t\<lparr>e_pawnStructure := y\<rparr>)
     = (evalQueens us pos d t)\<lparr>e_pawnStructure := x\<rparr>"
  by (simp add: evalQueens_def Let_def add_frame foldl_queensStep_frame)

lemma evalKing_frame:
  "evalKing us pos n (d\<lparr>e_pawnStructure := x\<rparr>) (t\<lparr>e_pawnStructure := y\<rparr>)
     = (evalKing us pos n d t)\<lparr>e_pawnStructure := x\<rparr>"
  by (simp add: evalKing_def Let_def add_frame)

lemma pieceTerms_frame:
  "pieceTerms env pos n (b\<lparr>e_pawnStructure := x\<rparr>, w\<lparr>e_pawnStructure := y\<rparr>)
     = ((fst (pieceTerms env pos n (b, w)))\<lparr>e_pawnStructure := x\<rparr>,
        (snd (pieceTerms env pos n (b, w)))\<lparr>e_pawnStructure := y\<rparr>)"
  unfolding pieceTerms_def Let_def fst_conv snd_conv evalHangingAndPinned_def evalKingSafety_def
  by (simp only: evalPawns_frame evalKnights_frame evalBishops_frame evalRooks_frame
      evalQueens_frame evalKing_frame)


lemma bits_subset: "(X :: Bitboard) AND NOT Y = 0 \<Longrightarrow> bit X n \<Longrightarrow> bit Y n"
  using and_zero_bit [of X "NOT Y" n] bit_lt64 [of X n] by (simp add: bit_not_iff)

lemma fromSquare_subset: "bit (b :: Bitboard) x \<Longrightarrow> fromSquare x AND NOT b = 0"
  by (rule bit_eqI) (auto simp: bit_and_iff bit_not_iff bit_fromSquare)

lemma or_subset: "(X :: Bitboard) AND NOT b = 0 \<Longrightarrow> Y AND NOT b = 0 \<Longrightarrow> (X OR Y) AND NOT b = 0"
  by (simp add: bit.conj_disj_distrib2)

lemma psFrame_refl: "psFrame p ours ours"
  unfolding psFrame_def by (rule exI [of _ "e_pawnStructure ours"], rule exI [of _ 0]) simp

lemma psFrame_add:
  assumes "psFrame p ours d"
  shows "psFrame p ours (add_pawnStructure d v)"
proof -
  from assms obtain ps X where d: "d = ours\<lparr>e_pawnStructure := ps, e_passers := e_passers ours OR X\<rparr>"
    and X: "X AND NOT p = 0" unfolding psFrame_def by blast
  show ?thesis unfolding psFrame_def add_pawnStructure_def
    by (intro exI [of _ "ts_add ps v"] exI [of _ X]) (simp add: d X)
qed

lemma psFrame_passer:
  assumes "psFrame p ours d" and "bit p x"
  shows "psFrame p ours (d\<lparr>e_passers := e_passers d OR fromSquare x\<rparr>)"
proof -
  from assms(1) obtain ps X where d: "d = ours\<lparr>e_pawnStructure := ps, e_passers := e_passers ours OR X\<rparr>"
    and X: "X AND NOT p = 0" unfolding psFrame_def by blast
  have "(X OR fromSquare x) AND NOT p = 0"
    using or_subset [OF X fromSquare_subset [OF assms(2)]] .
  then show ?thesis unfolding psFrame_def
    by (intro exI [of _ ps] exI [of _ "X OR fromSquare x"]) (simp add: d or.assoc)
qed

lemma psFrame_step:
  assumes "psFrame p ours d" and "bit p x"
  shows "psFrame p ours (pawnStructureStep us p tp dp theirs d x)"
  unfolding pawnStructureStep_def Let_def
  using assms by (simp add: psFrame_add psFrame_passer)

lemma psFrame_evalPawnStructure:
  "psFrame (pawnsOf us (boards pos)) ours (evalPawnStructure us pos ours theirs)"
  unfolding evalPawnStructure_def Let_def
proof (rule foldl_invariant)
  show "psFrame (pawnsOf us (boards pos)) ours
     (foldl (\<lambda>d square. add_pawnStructure d (PawnPhalanx ! relativeRank us (squareRank square)))
       (add_pawnStructure (add_pawnStructure (add_pawnStructure (add_pawnStructure ours a) b) c) e) xs)"
    for a b c e xs
    by (rule foldl_invariant) (simp_all add: psFrame_add psFrame_refl)
next
  fix d x
  assume "x \<in> set (squares (pawnsOf us (boards pos)))" and "psFrame (pawnsOf us (boards pos)) ours d"
  then show "psFrame (pawnsOf us (boards pos)) ours
    (pawnStructureStep us (pawnsOf us (boards pos)) tp dp theirs d x)" for tp dp
    by (simp add: psFrame_step squares_bit)
qed


lemma ts_sub_zero: "ts_sub x ts_zero = x"
  by (simp add: ts_sub_def ts_zero_def)

lemma upd_same: "e_pawnStructure d = v \<Longrightarrow> d\<lparr>e_pawnStructure := v\<rparr> = d"
  by (cases d) simp

lemma setupData_fresh:
  "e_passers (fst (setupData pos)) = 0" "e_passers (snd (setupData pos)) = 0"
  "e_pawnStructure (fst (setupData pos)) = ts_zero"
  by (simp_all add: setupData_def Let_def EvalData_init_def)

lemma split_passers:
  fixes Xb Xw :: Bitboard
  assumes "Xb AND NOT (pw AND bo) = 0" and "Xw AND NOT (pw AND wo) = 0" and "bo AND wo = 0"
  shows "(Xb OR Xw) AND bo = Xb" and "(Xb OR Xw) AND wo = Xw"
proof -
  have b: "\<And>n. bit Xb n \<Longrightarrow> bit bo n" and w: "\<And>n. bit Xw n \<Longrightarrow> bit wo n"
    using bits_subset [OF assms(1)] bits_subset [OF assms(2)] by (auto simp: bit_and_iff)
  have d: "\<And>n. bit bo n \<Longrightarrow> \<not> bit wo n" using and_zero_bit [OF assms(3)] by blast
  show "(Xb OR Xw) AND bo = Xb"
    by (rule bit_eqI) (use b w d in \<open>auto simp: bit_and_iff bit_or_iff\<close>)
  show "(Xb OR Xw) AND wo = Xw"
    by (rule bit_eqI) (use b w d in \<open>auto simp: bit_and_iff bit_or_iff\<close>)
qed

text \<open>What the two calls of \<open>evalPawnStructure\<close> leave, seen from the data they start with.\<close>

lemma bothPawnStructures_shape:
  obtains psb psw Xb Xw where
    "bothPawnStructures pos (setupData pos)
       = ((fst (setupData pos))\<lparr>e_pawnStructure := psb, e_passers := Xb\<rparr>,
          (snd (setupData pos))\<lparr>e_pawnStructure := psw, e_passers := Xw\<rparr>)"
    "Xb AND NOT (blackPawns (boards pos)) = 0" "Xw AND NOT (whitePawns (boards pos)) = 0"
proof -
  let ?b0 = "fst (setupData pos)" and ?w0 = "snd (setupData pos)"
  let ?b1 = "evalPawnStructure Black pos ?b0 ?w0"
  from psFrame_evalPawnStructure [of Black pos ?b0 ?w0]
  obtain psb Xb where b: "?b1 = ?b0\<lparr>e_pawnStructure := psb, e_passers := Xb\<rparr>"
    and xb: "Xb AND NOT (blackPawns (boards pos)) = 0"
    unfolding psFrame_def by (auto simp: setupData_fresh)
  from psFrame_evalPawnStructure [of White pos ?w0 ?b1]
  obtain psw Xw where w: "evalPawnStructure White pos ?w0 ?b1 = ?w0\<lparr>e_pawnStructure := psw, e_passers := Xw\<rparr>"
    and xw: "Xw AND NOT (whitePawns (boards pos)) = 0"
    unfolding psFrame_def by (auto simp: setupData_fresh)
  have "bothPawnStructures pos (setupData pos) = (?b0\<lparr>e_pawnStructure := psb, e_passers := Xb\<rparr>,
          ?w0\<lparr>e_pawnStructure := psw, e_passers := Xw\<rparr>)"
    unfolding bothPawnStructures_def Let_def using b w by simp
  then show ?thesis using xb xw that by blast
qed

lemma sumTotal_frame:
  assumes "ts_sub y x = ts_sub y' x'"
  shows "sumTotal pos (b\<lparr>e_pawnStructure := x\<rparr>) (w\<lparr>e_pawnStructure := y\<rparr>)
     = sumTotal pos (b\<lparr>e_pawnStructure := x'\<rparr>) (w\<lparr>e_pawnStructure := y'\<rparr>)"
  using assms by (simp add: sumTotal_def Let_def)

lemma total_hit_eq:
  assumes disj: "blackOccupancy (boards pos) AND whiteOccupancy (boards pos) = 0"
    and hit: "pc_key (probe c (pawnKey pos)) = pawnKey pos"
    and valid: "entryMatches pos (probe c (pawnKey pos))"
  shows "m_total (fst (Evaluator env pos (Some c))) = m_total (fst (Evaluator env pos None))"
proof -
  let ?b0 = "fst (setupData pos)" and ?w0 = "snd (setupData pos)"
  let ?e = "probe c (pawnKey pos)"
  let ?n = "e_semiOpen ?b0 AND e_semiOpen ?w0"
  obtain psb psw Xb Xw where
    shape: "bothPawnStructures pos (setupData pos)
       = (?b0\<lparr>e_pawnStructure := psb, e_passers := Xb\<rparr>, ?w0\<lparr>e_pawnStructure := psw, e_passers := Xw\<rparr>)"
    and xb: "Xb AND NOT (blackPawns (boards pos)) = 0"
    and xw: "Xw AND NOT (whitePawns (boards pos)) = 0"
    by (rule bothPawnStructures_shape)
  from valid have ev: "pc_eval ?e = ts_sub psw psb" and pa: "pc_passers ?e = Xb OR Xw"
    unfolding entryMatches_def Let_def shape by simp_all
  have sp: "(Xb OR Xw) AND blackOccupancy (boards pos) = Xb"
    "(Xb OR Xw) AND whiteOccupancy (boards pos) = Xw"
    using split_passers [OF xb [unfolded blackPawns_def] xw [unfolded whitePawns_def] disj] by blast+
  let ?B = "?b0\<lparr>e_passers := Xb\<rparr>" and ?W = "?w0\<lparr>e_passers := Xw\<rparr>"
  have Bz: "?B\<lparr>e_pawnStructure := ts_zero\<rparr> = ?B"
    by (rule upd_same) (simp add: setupData_fresh)
  have hitBlock: "pawnStructureBlock pos (Some c) (setupData pos)
      = (True, (?B\<lparr>e_pawnStructure := ts_zero\<rparr>, ?W\<lparr>e_pawnStructure := ts_sub psw psb\<rparr>), Some c)"
    unfolding pawnStructureBlock_def Let_def using hit
    by (simp add: ev pa sp Bz)
  have noBlock: "pawnStructureBlock pos None (setupData pos)
      = (False, (?B\<lparr>e_pawnStructure := psb\<rparr>, ?W\<lparr>e_pawnStructure := psw\<rparr>), None)"
    unfolding pawnStructureBlock_def shape by simp
  have "sumTotal pos ((fst (pieceTerms env pos ?n (?B, ?W)))\<lparr>e_pawnStructure := ts_zero\<rparr>)
          ((snd (pieceTerms env pos ?n (?B, ?W)))\<lparr>e_pawnStructure := ts_sub psw psb\<rparr>)
      = sumTotal pos ((fst (pieceTerms env pos ?n (?B, ?W)))\<lparr>e_pawnStructure := psb\<rparr>)
          ((snd (pieceTerms env pos ?n (?B, ?W)))\<lparr>e_pawnStructure := psw\<rparr>)"
    by (rule sumTotal_frame) (simp add: ts_sub_zero)
  then show ?thesis
    unfolding Evaluator_def Let_def hitBlock noBlock
    by (simp add: pieceTerms_frame)
qed


text \<open>
  The example position, run through the two calls of \<open>evalPawnStructure\<close> and through the
  whole of \<open>staticEval\<close> without a cache. The weak congruence rule for \<open>let\<close> makes the
  simplifier compute a bound value before it enters the body.
\<close>

lemma pe_structures:
  "bothPawnStructures pe_pos (setupData pe_pos) = (b, w) \<Longrightarrow>
     e_pawnStructure b = \<lparr>midgame = - 15, endgame = 7\<rparr> \<and> e_passers b = 0x10000000000
     \<and> e_pawnStructure w = \<lparr>midgame = - 23, endgame = 101\<rparr> \<and> e_passers w = 0x18000000"
  by (simp add: eval_eval movegen_all_eval cong: let_weak_cong) auto

lemma pe_staticEval: "fst (staticEval ex_evalEnv pe_pos None) = 97"
  by (simp add: eval_eval movegen_all_eval cong: let_weak_cong)

lemma pe_total: "m_total (fst (Evaluator ex_evalEnv pe_pos None)) = \<lparr>midgame = 62, endgame = 86\<rparr>"
  by (simp add: eval_eval movegen_all_eval cong: let_weak_cong)

lemma probe_overwrite: "probe (overwrite c k e) k = e"
  by (simp add: probe_def overwrite_def)

lemma pawnStructureBlock_miss:
  assumes "pc_key (probe c (pawnKey pos)) \<noteq> pawnKey pos"
  shows "pawnStructureBlock pos (Some c) bw =
     (False, bothPawnStructures pos bw,
      Some (overwrite c (pawnKey pos)
        \<lparr>pc_key = pawnKey pos,
         pc_eval = ts_sub (e_pawnStructure (snd (bothPawnStructures pos bw)))
                     (e_pawnStructure (fst (bothPawnStructures pos bw))),
         pc_passers = e_passers (fst (bothPawnStructures pos bw))
                        OR e_passers (snd (bothPawnStructures pos bw))\<rparr>))"
  using assms by (simp add: pawnStructureBlock_def Let_def)

lemma pawnStructureBlock_hit:
  assumes "pc_key (probe c (pawnKey pos)) = pawnKey pos"
  shows "fst (pawnStructureBlock pos (Some c) bw) = True"
    and "snd (snd (pawnStructureBlock pos (Some c) bw)) = Some c"
  using assms by (simp_all add: pawnStructureBlock_def Let_def)

lemma Evaluator_parts:
  "m_cachedPawnStructureEval (fst (Evaluator env pos pc)) = fst (pawnStructureBlock pos pc (setupData pos))"
  "snd (Evaluator env pos pc) = snd (snd (pawnStructureBlock pos pc (setupData pos)))"
  by (simp_all add: Evaluator_def Let_def split_def)

lemma total_miss_eq:
  assumes "pc_key (probe c (pawnKey pos)) \<noteq> pawnKey pos"
  shows "m_total (fst (Evaluator env pos (Some c))) = m_total (fst (Evaluator env pos None))"
  unfolding Evaluator_def Let_def pawnStructureBlock_miss [OF assms]
  by (simp add: pawnStructureBlock_def)

lemma staticEval_of_total:
  "fst (staticEval env pos pc) = taperedToScore env pos (m_total (fst (Evaluator env pos pc)))"
  by (simp add: staticEval_def Evaluator_def taperedToScore_def interpScore_def Let_def split_def)

text \<open>
  Claim C6. For every position and with or without a pawn cache, \<open>staticEval\<close> returns the
  tapered total \<open>m_total\<close> taken through the steps of section 4.6: interpolated as
  \<open>(mg * phase + eg * (24 - phase)) / 24\<close>, multiplied by \<open>200 - halfmove\<close> and divided by 200,
  divided by 8 when \<open>isLikelyDrawn\<close> holds, multiplied by -1 when black is to move, plus
  \<open>Tempo\<close>; every division rounds towards zero. The total is the material plus the sum of
  the terms of white minus the sum of the terms of black.
\<close>

theorem staticEval_formula:
  "fst (staticEval env pos pawnCache)
     = taperedToScore env pos (m_total (fst (Evaluator env pos pawnCache)))
   \<and> m_total (fst (Evaluator env pos pawnCache))
     = ts_add (material pos)
         (ts_sub (sideTotal (m_whiteData (fst (Evaluator env pos pawnCache))))
                 (sideTotal (m_blackData (fst (Evaluator env pos pawnCache)))))"
  by (simp add: staticEval_def Evaluator_def taperedToScore_def interpScore_def sumTotal_def
      sideTotal_def ts_add_def ts_sub_def Let_def split_def)

text \<open>
  In the pawn ending the total is (62, 86); at phase 0 that is 86, times 190 over 200 is 81,
  and with the tempo of 16 the side to move, white, gets 97.
\<close>

theorem staticEval_formula_witness:
  "fst (staticEval ex_evalEnv pe_pos None) = 97
   \<and> m_total (fst (Evaluator ex_evalEnv pe_pos None)) = \<lparr>midgame = 62, endgame = 86\<rparr>
   \<and> taperedToScore ex_evalEnv pe_pos \<lparr>midgame = 62, endgame = 86\<rparr> = 97"
proof -
  from staticEval_formula [of ex_evalEnv pe_pos None]
  have "fst (staticEval ex_evalEnv pe_pos None)
      = taperedToScore ex_evalEnv pe_pos (m_total (fst (Evaluator ex_evalEnv pe_pos None)))"
    by (rule conjunct1)
  then have "taperedToScore ex_evalEnv pe_pos \<lparr>midgame = 62, endgame = 86\<rparr> = 97"
    unfolding pe_total pe_staticEval by simp
  then show ?thesis using pe_total pe_staticEval by simp
qed

text \<open>
  Claim C8. Let the two colour boards be disjoint, and let the probed entry, if its key
  equals the pawn key of the position, hold what \<open>evalPawnStructure\<close> computes for the
  position. Then the evaluator counts the probe as a hit exactly when the stored key equals
  the pawn key; a hit leaves the cache as it was; a miss overwrites the probed slot with the
  pawn key, the white-minus-black pawn-structure score and the union of the passers of both
  colours; and the value \<open>staticEval\<close> returns is the one it returns with no cache.
\<close>

theorem pawn_cache_refinement:
  assumes disj: "blackOccupancy (boards pos) AND whiteOccupancy (boards pos) = 0"
    and valid: "pc_key (probe c (pawnKey pos)) = pawnKey pos
                  \<Longrightarrow> entryMatches pos (probe c (pawnKey pos))"
  shows "(m_cachedPawnStructureEval (fst (Evaluator env pos (Some c)))
            \<longleftrightarrow> pc_key (probe c (pawnKey pos)) = pawnKey pos)
    \<and> (pc_key (probe c (pawnKey pos)) = pawnKey pos \<longrightarrow> snd (Evaluator env pos (Some c)) = Some c)
    \<and> (pc_key (probe c (pawnKey pos)) \<noteq> pawnKey pos \<longrightarrow>
         (\<exists>e. snd (Evaluator env pos (Some c)) = Some (overwrite c (pawnKey pos) e)
              \<and> probe (overwrite c (pawnKey pos) e) (pawnKey pos) = e
              \<and> pc_key e = pawnKey pos \<and> entryMatches pos e))
    \<and> snd (staticEval env pos (Some c)) = snd (Evaluator env pos (Some c))
    \<and> fst (staticEval env pos (Some c)) = fst (staticEval env pos None)"
proof (cases "pc_key (probe c (pawnKey pos)) = pawnKey pos")
  case True
  have "m_total (fst (Evaluator env pos (Some c))) = m_total (fst (Evaluator env pos None))"
    using total_hit_eq [OF disj True valid [OF True]] .
  then have "fst (staticEval env pos (Some c)) = fst (staticEval env pos None)"
    by (simp add: staticEval_of_total)
  moreover have "snd (staticEval env pos (Some c)) = snd (Evaluator env pos (Some c))"
    by (simp add: staticEval_def split_def Let_def)
  ultimately show ?thesis
    using True by (simp add: Evaluator_parts pawnStructureBlock_hit)
next
  case False
  let ?bw = "bothPawnStructures pos (setupData pos)"
  let ?e = "\<lparr>pc_key = pawnKey pos,
         pc_eval = ts_sub (e_pawnStructure (snd ?bw)) (e_pawnStructure (fst ?bw)),
         pc_passers = e_passers (fst ?bw) OR e_passers (snd ?bw)\<rparr>"
  have "m_total (fst (Evaluator env pos (Some c))) = m_total (fst (Evaluator env pos None))"
    using total_miss_eq [OF False] .
  then have v: "fst (staticEval env pos (Some c)) = fst (staticEval env pos None)"
    by (simp add: staticEval_of_total)
  have s: "snd (staticEval env pos (Some c)) = snd (Evaluator env pos (Some c))"
    by (simp add: staticEval_def split_def Let_def)
  have w: "snd (Evaluator env pos (Some c)) = Some (overwrite c (pawnKey pos) ?e)"
    by (simp add: Evaluator_parts pawnStructureBlock_miss [OF False])
  have m: "entryMatches pos ?e" by (simp add: entryMatches_def Let_def)
  have "\<exists>e. snd (Evaluator env pos (Some c)) = Some (overwrite c (pawnKey pos) e)
              \<and> probe (overwrite c (pawnKey pos) e) (pawnKey pos) = e
              \<and> pc_key e = pawnKey pos \<and> entryMatches pos e"
    by (rule exI [of _ ?e]) (simp add: w m probe_overwrite)
  then show ?thesis
    using False v s by (simp add: Evaluator_parts pawnStructureBlock_miss [OF False])
qed


text \<open>
  The pawn ending with the cache that already holds its entry (a hit) and with the empty
  cache (a miss, which writes that very entry).
\<close>

theorem pawn_cache_refinement_witness:
  "entryMatches pe_pos (probe pe_hitCache (pawnKey pe_pos))
   \<and> m_cachedPawnStructureEval (fst (Evaluator ex_evalEnv pe_pos (Some pe_hitCache)))
   \<and> fst (staticEval ex_evalEnv pe_pos (Some pe_hitCache)) = 97
   \<and> \<not> m_cachedPawnStructureEval (fst (Evaluator ex_evalEnv pe_pos (Some pe_emptyCache)))
   \<and> snd (staticEval ex_evalEnv pe_pos (Some pe_emptyCache)) = Some pe_hitCache
   \<and> fst (staticEval ex_evalEnv pe_pos (Some pe_emptyCache)) = 97"
proof -
  let ?h = "\<lparr>pc_key = 0x1234, pc_eval = \<lparr>midgame = - 8, endgame = 94\<rparr>, pc_passers = 0x10018000000\<rparr>"
  have d: "blackOccupancy (boards pe_pos) AND whiteOccupancy (boards pe_pos) = 0"
    by (simp add: boards_eval pos_eval pe_boards_def pe_state_def pe_pos_def)
  have k: "pawnKey pe_pos = 0x1234"
    by (simp add: pos_eval pe_state_def pe_pos_def)
  have ph: "probe pe_hitCache 0x1234 = ?h"
    by (simp add: pe_hitCache_def probe_overwrite)
  have pm: "pc_key (probe pe_emptyCache 0x1234) = 0"
    by (simp add: pe_emptyCache_def probe_def)
  obtain b w where bw: "bothPawnStructures pe_pos (setupData pe_pos) = (b, w)"
    by (cases "bothPawnStructures pe_pos (setupData pe_pos)")
  note st = pe_structures [OF bw]
  have em: "entryMatches pe_pos e \<longleftrightarrow> pc_eval e = pc_eval ?h \<and> pc_passers e = pc_passers ?h" for e
    unfolding entryMatches_def Let_def bw using st by (simp add: ts_sub_def)
  have hit: "entryMatches pe_pos (probe pe_hitCache (pawnKey pe_pos))"
    unfolding k ph em by simp
  from pawn_cache_refinement [of pe_pos pe_hitCache ex_evalEnv, OF d hit]
  have h1: "m_cachedPawnStructureEval (fst (Evaluator ex_evalEnv pe_pos (Some pe_hitCache)))"
    and h2: "fst (staticEval ex_evalEnv pe_pos (Some pe_hitCache)) = 97"
    unfolding k ph pe_staticEval by simp_all
  from pawn_cache_refinement [of pe_pos pe_emptyCache ex_evalEnv, OF d]
  have m1: "\<not> m_cachedPawnStructureEval (fst (Evaluator ex_evalEnv pe_pos (Some pe_emptyCache)))"
    and m2: "fst (staticEval ex_evalEnv pe_pos (Some pe_emptyCache)) = 97"
    and m3: "snd (staticEval ex_evalEnv pe_pos (Some pe_emptyCache))
               = snd (Evaluator ex_evalEnv pe_pos (Some pe_emptyCache))"
    and "\<exists>e. snd (Evaluator ex_evalEnv pe_pos (Some pe_emptyCache))
                 = Some (overwrite pe_emptyCache 0x1234 e)
             \<and> pc_key e = 0x1234 \<and> entryMatches pe_pos e"
    unfolding k pe_staticEval using pm by auto
  then obtain e where w: "snd (Evaluator ex_evalEnv pe_pos (Some pe_emptyCache))
                 = Some (overwrite pe_emptyCache 0x1234 e)"
    and ek: "pc_key e = 0x1234" and ee: "entryMatches pe_pos e"
    by blast
  have "e = ?h" using ek ee unfolding em by (cases e) simp
  then have m4: "snd (staticEval ex_evalEnv pe_pos (Some pe_emptyCache)) = Some pe_hitCache"
    unfolding m3 w by (simp add: pe_hitCache_def)
  show ?thesis using hit h1 h2 m1 m2 m4 by simp
qed

section \<open>The normalisation constant of the win-rate model\<close>

lemma cubic_As: "cubic As m = centrePoly m"
  by (simp add: cubic_def As_def centrePoly_def power3_eq_cube power2_eq_square algebra_simps)

lemma cubic_Bs: "cubic Bs m = widthPoly m"
  by (simp add: cubic_def Bs_def widthPoly_def power3_eq_cube power2_eq_square algebra_simps)

lemma polyArg_plyArg: "polyArg ply = plyArg ply"
  by (simp add: polyArg_def plyArg_def min_def)

lemma winRateModel_unfold:
  "winRateModel povScore ply
     = static_cast_i32 (0.5 + 1000 / (1 + exp ((centrePoly (plyArg ply)
            - max (- 4000) (min 4000 (real_of_int povScore))) / widthPoly (plyArg ply))))"
  by (simp add: winRateModel_def Let_def cubic_As cubic_Bs polyArg_plyArg clamp_def max_def min_def)

lemma centre_at_1: "centrePoly 1 = 91.29837046" "widthPoly 1 = 59.6493277"
  by (simp_all add: centrePoly_def widthPoly_def)

lemma plyArg_64: "plyArg 64 = 1" "plyArg (240 + n) = plyArg 240"
  by (simp_all add: plyArg_def)

lemma winRate_91_64: "winRateModel 91 64 = 499"
proof -
  define t :: real where "t = (91.29837046 - 91) / 59.6493277"
  have tb: "1 / 200 < t" "t < 51 / 10000" by (simp_all add: t_def field_simps)
  have lo: "1 + t \<le> exp t" by (rule exp_ge_add_one_self)
  have hi: "exp t \<le> 1 + t + t\<^sup>2" using tb by (intro exp_bound) simp_all
  have "t * t < (51 / 10000) * (51 / 10000)"
    using tb by (intro mult_strict_mono) simp_all
  then have t2: "t\<^sup>2 < 1 / 10000" by (simp add: power2_eq_square)
  have e1: "201 / 200 < exp t" using lo tb by linarith
  have e2: "exp t < 503 / 500" using hi tb t2 by linarith
  have u: "1000 / (1 + exp t) < 499" using e1 by (simp add: field_simps)
  have l: "997 / 2 \<le> 1000 / (1 + exp t)" using e2 by (simp add: field_simps add_pos_pos)
  have "\<lfloor>1 / 2 + 1000 / (1 + exp t)\<rfloor> = 499"
    using u l by (simp add: floor_eq_iff)
  moreover have "0 \<le> 1 / 2 + 1000 / (1 + exp t)" using l by linarith
  ultimately show ?thesis
    unfolding winRateModel_unfold plyArg_64 centre_at_1 static_cast_i32_def
    by (simp add: t_def)
qed

text \<open>
  Claim C9. The four coefficients \<open>As\<close> sum to 91.29837046, which the cast cuts to 91, so the
  \<open>static_assert\<close> of \<open>winRateModel\<close> holds exactly when \<open>uci::NormalizationK\<close> is 91; a sum
  a quarter away on either side is cut to the same integer, which leaves room for the
  rounding of the \<open>f64\<close> additions. \<open>winRateModel\<close> evaluates the centre and the width
  polynomial at \<open>min(ply, 240) / 64\<close> and puts the clamped score through the sigmoid; at ply 64
  the centre is the sum of the coefficients; beyond ply 240 the result no longer depends on
  the ply; and a score of 91 at ply 64 gives 499 per mille.
\<close>

theorem winRateModel_normalization:
  "static_cast_i32 (reduce As) = 91
   \<and> (NormalizationK_assert K \<longleftrightarrow> K = 91)
   \<and> static_cast_i32 (reduce As - 1 / 4) = 91
   \<and> static_cast_i32 (reduce As + 1 / 4) = 91
   \<and> winRateModel povScore ply
       = static_cast_i32 (0.5 + 1000 / (1 + exp ((centrePoly (real (min ply 240) / 64)
            - max (- 4000) (min 4000 (real_of_int povScore))) / widthPoly (real (min ply 240) / 64))))
   \<and> centrePoly (real (min 64 240) / 64) = reduce As
   \<and> winRateModel povScore (240 + n) = winRateModel povScore 240
   \<and> winRateModel 91 64 = 499"
proof -
  have s: "reduce As = 91.29837046"
    by (simp add: reduce_def As_def)
  have f: "\<lfloor>91.29837046 :: real\<rfloor> = 91" "\<lfloor>91.29837046 - 1 / 4 :: real\<rfloor> = 91"
    "\<lfloor>91.29837046 + 1 / 4 :: real\<rfloor> = 91"
    by (simp_all add: floor_eq_iff)
  have k: "static_cast_i32 (reduce As) = 91" "NormalizationK_assert K \<longleftrightarrow> K = 91"
    "static_cast_i32 (reduce As - 1 / 4) = 91" "static_cast_i32 (reduce As + 1 / 4) = 91"
    using f unfolding s NormalizationK_assert_def static_cast_i32_def s by simp_all
  have w: "winRateModel povScore ply
       = static_cast_i32 (0.5 + 1000 / (1 + exp ((centrePoly (real (min ply 240) / 64)
            - max (- 4000) (min 4000 (real_of_int povScore))) / widthPoly (real (min ply 240) / 64))))"
    using winRateModel_unfold [of povScore ply] by (simp only: plyArg_def)
  have c: "centrePoly (real (min 64 240) / 64) = reduce As"
    using centre_at_1(1) by (simp add: s)
  have p: "winRateModel povScore (240 + n) = winRateModel povScore 240"
    by (simp only: winRateModel_unfold plyArg_64)
  show ?thesis using k w c p winRate_91_64 by blast
qed

end
